(* ===== verification/Prelude.thy ===== *)
theory Prelude
  imports Main "HOL-Library.AList"
begin

text \<open>
  Shared vocabulary of the development: the types every component uses for
  clocks and byte strings, the collections of rewrite rules the component proofs
  draw on, and generic lemmas on association lists, options and lists.

  Go strings are byte sequences and so are Isabelle strings (a \<^typ>\<open>char\<close> is
  one byte); a Go map that is iterated over is an association list with distinct
  keys, a Go map that is only looked up and written is a partial function.
  Instants and durations are the nanosecond counts that Go keeps; they are
  unbounded integers except where wrap-around is part of the behaviour.
\<close>

type_synonym instant = int
type_synonym duration = int
type_synonym ('k, 'v) gomap = "('k \<times> 'v) list"

named_theorems wf_intros \<open>operations preserve the component invariants\<close>
named_theorems op_simps \<open>equations that unfold the operations of a component\<close>

subsection \<open>Association lists as Go maps\<close>

definition keys_distinct :: "('k, 'v) gomap \<Rightarrow> bool" where
  "keys_distinct m \<longleftrightarrow> distinct (map fst m)"

lemma keys_distinct_Nil [simp]: "keys_distinct []"
  by (simp add: keys_distinct_def)

lemma keys_distinct_Cons [simp]:
  "keys_distinct (kv # m) \<longleftrightarrow> fst kv \<notin> fst ` set m \<and> keys_distinct m"
  by (simp add: keys_distinct_def)

lemma keys_distinct_update [wf_intros]:
  "keys_distinct m \<Longrightarrow> keys_distinct (AList.update k v m)"
  by (simp add: keys_distinct_def distinct_update)

lemma keys_distinct_delete [wf_intros]:
  "keys_distinct m \<Longrightarrow> keys_distinct (AList.delete k m)"
  by (simp add: keys_distinct_def distinct_delete)

lemma keys_distinct_filter [wf_intros]:
  "keys_distinct m \<Longrightarrow> keys_distinct (filter P m)"
  by (simp add: keys_distinct_def distinct_map_filter)

lemma map_of_update [simp]:
  "map_of (AList.update k v m) k' = (if k' = k then Some v else map_of m k')"
  by (simp add: update_conv')

lemma map_of_delete [simp]:
  "map_of (AList.delete k m) k' = (if k' = k then None else map_of m k')"
  by (simp add: delete_conv')

lemma map_of_eq_Some_iff_distinct:
  "keys_distinct m \<Longrightarrow> map_of m k = Some v \<longleftrightarrow> (k, v) \<in> set m"
  by (simp add: keys_distinct_def)

lemma map_of_filter_distinct:
  assumes "keys_distinct m"
  shows "map_of (filter P m) k =
    (case map_of m k of None \<Rightarrow> None | Some v \<Rightarrow> if P (k, v) then Some v else None)"
  using assms
  by (induction m) (auto split: option.splits simp: map_of_eq_None_iff rev_image_eqI)

lemma set_update_distinct:
  assumes "keys_distinct m"
  shows "set (AList.update k v m) = insert (k, v) {kv \<in> set m. fst kv \<noteq> k}"
  using assms by (induction m) (auto simp: rev_image_eqI)

lemma length_delete_distinct:
  "keys_distinct m \<Longrightarrow> map_of m k = Some v \<Longrightarrow> Suc (length (AList.delete k m)) = length m"
proof (induction m)
  case Nil
  then show ?case by simp
next
  case (Cons kv m)
  show ?case
  proof (cases "fst kv = k")
    case True
    with Cons.prems have "k \<notin> fst ` set m" by (cases kv) auto
    with True show ?thesis by (cases kv) (simp add: delete_id)
  next
    case False
    with Cons show ?thesis by (cases kv) auto
  qed
qed

lemma length_update:
  "length (AList.update k v m) = (if map_of m k = None then Suc (length m) else length m)"
  by (induction m) (auto simp: map_of_eq_None_iff)

subsection \<open>First match in a list\<close>

lemma find_Some_split:
  "List.find P xs = Some x \<Longrightarrow>
    \<exists>us vs. xs = us @ x # vs \<and> P x \<and> (\<forall>u \<in> set us. \<not> P u)"
  by (auto simp: find_Some_iff set_conv_nth) (metis id_take_nth_drop in_set_conv_nth length_take
      less_or_eq_imp_le min.absorb2 nth_take)

lemma find_distinct_key:
  "distinct (map f xs) \<Longrightarrow> x \<in> set xs \<Longrightarrow> List.find (\<lambda>y. f y = f x) xs = Some x"
  by (induction xs) (auto simp: rev_image_eqI)

end
