(* ===== verification/Go_Strings.thy ===== *)
theory Go_Strings
  imports Prelude "HOL-Library.Sublist"
begin

text \<open>
  What the modelled code uses of Go's \<open>strings\<close> and \<open>net/url\<close> packages, on byte
  strings: \<open>Trim\<close> with a one-byte cutset, \<open>Split\<close> and \<open>Join\<close> at a one-byte
  separator, \<open>IndexByte\<close>, and the percent-encoding of path segments
  (\<open>url.PathEscape\<close>, \<open>url.PathUnescape\<close>) with its round trip.
\<close>

subsection \<open>Trimming, splitting, joining\<close>

definition trim_byte :: "char \<Rightarrow> string \<Rightarrow> string" where
  "trim_byte c s = rev (dropWhile (\<lambda>x. x = c) (rev (dropWhile (\<lambda>x. x = c) s)))"

fun split_byte :: "char \<Rightarrow> string \<Rightarrow> string list" where
  "split_byte c [] = [[]]"
| "split_byte c (x # xs) =
     (if x = c then [] # split_byte c xs
      else (x # hd (split_byte c xs)) # tl (split_byte c xs))"

fun join_byte :: "char \<Rightarrow> string list \<Rightarrow> string" where
  "join_byte c [] = []"
| "join_byte c [w] = w"
| "join_byte c (w # v # ws) = w @ c # join_byte c (v # ws)"

definition has_prefix :: "string \<Rightarrow> string \<Rightarrow> bool" where
  "has_prefix s p \<longleftrightarrow> take (length p) s = p"

definition has_suffix :: "string \<Rightarrow> string \<Rightarrow> bool" where
  "has_suffix s p \<longleftrightarrow> take (length p) (rev s) = rev p"

fun index_byte :: "string \<Rightarrow> char \<Rightarrow> nat option" where
  "index_byte [] c = None"
| "index_byte (x # xs) c = (if x = c then Some 0 else map_option Suc (index_byte xs c))"

lemma split_byte_nonempty [simp]: "split_byte c s \<noteq> []"
  by (induction s) auto

lemma split_byte_hd_tl: "split_byte c s = hd (split_byte c s) # tl (split_byte c s)"
  by simp

lemma split_byte_free: "w \<in> set (split_byte c s) \<Longrightarrow> c \<notin> set w"
proof (induction s arbitrary: w)
  case Nil
  then show ?case by simp
next
  case (Cons x xs)
  have hd: "hd (split_byte c xs) \<in> set (split_byte c xs)" by simp
  have "w = x # hd (split_byte c xs) \<or> w \<in> set (split_byte c xs)" if "x \<noteq> c"
    using Cons.prems that by (auto dest: list.set_sel(2)[OF split_byte_nonempty])
  with Cons hd show ?case by (cases "x = c") auto
qed

lemma split_byte_atom: "c \<notin> set w \<Longrightarrow> split_byte c w = [w]"
  by (induction w) auto

lemma split_byte_append: "c \<notin> set w \<Longrightarrow> split_byte c (w @ c # s) = w # split_byte c s"
  by (induction w) auto

lemma split_join:
  "ws \<noteq> [] \<Longrightarrow> \<forall>w \<in> set ws. c \<notin> set w \<Longrightarrow> split_byte c (join_byte c ws) = ws"
  by (induction c ws rule: join_byte.induct) (auto simp: split_byte_atom split_byte_append)

lemma join_split: "join_byte c (split_byte c s) = s"
proof (induction s)
  case Nil
  then show ?case by simp
next
  case (Cons x xs)
  obtain w ws where w: "split_byte c xs = w # ws"
    by (meson list.exhaust split_byte_nonempty)
  with Cons show ?case by (cases ws) auto
qed

lemma join_byte_Cons: "ws \<noteq> [] \<Longrightarrow> join_byte c (w # ws) = w @ c # join_byte c ws"
  by (cases ws) auto

lemma trim_byte_id:
  assumes "s \<noteq> []" and "hd s \<noteq> c" and "last s \<noteq> c"
  shows "trim_byte c s = s"
proof -
  have "dropWhile (\<lambda>x. x = c) s = s"
    using assms(1,2) by (cases s) auto
  moreover have "dropWhile (\<lambda>x. x = c) (rev s) = rev s"
    using assms(1,3) by (cases "rev s") (auto simp: hd_rev[symmetric])
  ultimately show ?thesis by (simp add: trim_byte_def)
qed

lemma trim_byte_Cons [simp]: "trim_byte c (c # s) = trim_byte c s"
  by (simp add: trim_byte_def)

lemma trim_byte_Nil [simp]: "trim_byte c [] = []"
  by (simp add: trim_byte_def)

lemma index_byte_None_iff [simp]: "index_byte s c = None \<longleftrightarrow> c \<notin> set s"
  by (induction s) auto

lemma index_byte_Some:
  "index_byte s c = Some i \<Longrightarrow> i < length s \<and> s ! i = c \<and> c \<notin> set (take i s)"
  by (induction s arbitrary: i) (auto split: if_splits)

lemma index_byte_append: "c \<notin> set w \<Longrightarrow> index_byte (w @ c # s) c = Some (length w)"
  by (induction w) auto

subsection \<open>Percent-encoding of path segments\<close>

definition byte_of :: "char \<Rightarrow> nat" where
  "byte_of c = of_char c"

definition char_at :: "nat \<Rightarrow> char" where
  "char_at n = char_of n"

definition is_alnum :: "char \<Rightarrow> bool" where
  "is_alnum c \<longleftrightarrow> (let n = byte_of c in
     (97 \<le> n \<and> n \<le> 122) \<or> (65 \<le> n \<and> n \<le> 90) \<or> (48 \<le> n \<and> n \<le> 57))"

text \<open>\<open>shouldEscape(c, encodePathSegment)\<close> of \<open>net/url\<close>.\<close>

definition should_escape_segment :: "char \<Rightarrow> bool" where
  "should_escape_segment c \<longleftrightarrow>
     (if is_alnum c then False
      else if c \<in> set ''-_.~'' then False
      else if c \<in> set ''$&+,/:;=?@'' then c \<in> set ''/;,?''
      else True)"

definition upperhex :: "nat \<Rightarrow> char" where
  "upperhex n = (if n < 10 then char_at (48 + n) else char_at (55 + n))"

definition unhex :: "char \<Rightarrow> nat option" where
  "unhex c = (let n = byte_of c in
     if 48 \<le> n \<and> n \<le> 57 then Some (n - 48)
     else if 97 \<le> n \<and> n \<le> 102 then Some (n - 87)
     else if 65 \<le> n \<and> n \<le> 70 then Some (n - 55)
     else None)"

definition escape_byte :: "char \<Rightarrow> string" where
  "escape_byte c = (if should_escape_segment c
     then [CHR ''%'', upperhex (byte_of c div 16), upperhex (byte_of c mod 16)] else [c])"

definition PathEscape :: "string \<Rightarrow> string" where
  "PathEscape s = concat (map escape_byte s)"

text \<open>\<open>url.PathUnescape\<close>: \<open>None\<close> is the error for a \<open>%\<close> not followed by two hex digits.\<close>

fun PathUnescape :: "string \<Rightarrow> string option" where
  "PathUnescape [] = Some []"
| "PathUnescape (c # s) =
     (if c = CHR ''%'' then
        (case s of
           a # b # t \<Rightarrow>
             (case (unhex a, unhex b) of
                (Some hi, Some lo) \<Rightarrow> map_option (\<lambda>r. char_at (16 * hi + lo) # r) (PathUnescape t)
              | _ \<Rightarrow> None)
         | _ \<Rightarrow> None)
      else map_option (\<lambda>r. c # r) (PathUnescape s))"

lemma byte_of_less [simp]: "byte_of c < 256"
  using nat_of_char_less_256[of c] by (simp add: byte_of_def)

lemma char_at_byte_of [simp]: "char_at (byte_of c) = c"
  by (simp add: char_at_def byte_of_def)

lemma byte_of_char_at [simp]: "n < 256 \<Longrightarrow> byte_of (char_at n) = n"
  by (simp add: char_at_def byte_of_def of_char_of)

lemma unhex_upperhex [simp]: "n < 16 \<Longrightarrow> unhex (upperhex n) = Some n"
  by (auto simp: unhex_def upperhex_def Let_def)

lemma unhex_less: "unhex c = Some n \<Longrightarrow> n < 16"
  by (auto simp: unhex_def Let_def split: if_splits)

lemma percent_escaped [simp]: "should_escape_segment (CHR ''%'')"
  by (simp add: should_escape_segment_def is_alnum_def byte_of_def Let_def)

lemma slash_escaped [simp]: "should_escape_segment (CHR ''/'')"
  by (simp add: should_escape_segment_def is_alnum_def byte_of_def Let_def)

lemma unescape_escape_byte:
  "PathUnescape (escape_byte c @ s) = map_option (\<lambda>r. c # r) (PathUnescape s)"
proof -
  have "byte_of c div 16 < 16" using byte_of_less[of c] by linarith
  moreover have "16 * (byte_of c div 16) + byte_of c mod 16 = byte_of c" by simp
  ultimately show ?thesis by (auto simp: escape_byte_def)
qed

lemma PathUnescape_PathEscape [simp]: "PathUnescape (PathEscape s) = Some s"
  by (induction s) (auto simp: PathEscape_def unescape_escape_byte)

lemma upperhex_not_slash: "n < 16 \<Longrightarrow> upperhex n \<noteq> CHR ''/''"
proof
  assume "n < 16" and "upperhex n = CHR ''/''"
  then have "byte_of (upperhex n) = 47" by (simp add: byte_of_def)
  with \<open>n < 16\<close> show False by (simp add: upperhex_def split: if_splits)
qed

lemma escape_byte_no_slash: "CHR ''/'' \<notin> set (escape_byte c)"
proof -
  have "byte_of c div 16 < 16" using byte_of_less[of c] by linarith
  then show ?thesis
    using upperhex_not_slash[of "byte_of c div 16"] upperhex_not_slash[of "byte_of c mod 16"]
    by (auto simp: escape_byte_def)
qed

lemma PathEscape_no_slash [simp]: "CHR ''/'' \<notin> set (PathEscape s)"
  using escape_byte_no_slash by (auto simp: PathEscape_def)

lemma escape_byte_nonempty [simp]: "escape_byte c \<noteq> []"
  by (simp add: escape_byte_def)

lemma PathEscape_eq_Nil [simp]: "PathEscape s = [] \<longleftrightarrow> s = []"
  by (cases s) (auto simp: PathEscape_def)

subsection \<open>Case\<close>

definition ToLower_char :: "char \<Rightarrow> char" where
  "ToLower_char c =
     (if 65 \<le> (of_char c :: nat) \<and> (of_char c :: nat) \<le> 90 then char_of ((of_char c :: nat) + 32) else c)"

definition ToLower :: "string \<Rightarrow> string" where
  "ToLower s = map ToLower_char s"

subsection \<open>Joining with a separator\<close>

primrec join_str :: "string \<Rightarrow> string list \<Rightarrow> string" where
  "join_str sep [] = []"
| "join_str sep (x # xs) = (if xs = [] then x else x @ sep @ join_str sep xs)"

end
