(* ===== verification/Route_Segment.thy ===== *)
theory Route_Segment
  imports Go_Strings
begin

text \<open>
  Path patterns (\<open>router/segment.go\<close>): how a pattern such as
  \<open>/users/{id:[0-9]+}/{rest:.*}\<close> is parsed into segments, when a segment matches
  one part of a request path, and how a path is built back from segments and
  parameter values.

  Go's regular-expression engine is a parameter: \<open>compile\<close> stands for
  \<open>regexp.Compile\<close> and yields the predicate \<open>MatchString\<close> of the compiled
  expression, or \<open>None\<close> for a pattern it rejects. Nothing is assumed of it.
\<close>

type_synonym regexp = "string \<Rightarrow> bool"
type_synonym re_compiler = "string \<Rightarrow> regexp option"

datatype SegmentType = SegmentStatic | SegmentParam | SegmentRegex | SegmentWildcard

record Segment =
  seg_Type :: SegmentType
  seg_Value :: string
  seg_Pattern :: "regexp option"
  seg_RawPattern :: string

datatype route_error =
    InvalidRegex string
  | MissingParameter string
  | NameRegistered string
  | RouteNotFound string

fun SegmentType_String :: "SegmentType \<Rightarrow> string" where
  "SegmentType_String SegmentStatic = ''static''"
| "SegmentType_String SegmentParam = ''param''"
| "SegmentType_String SegmentRegex = ''regex''"
| "SegmentType_String SegmentWildcard = ''wildcard''"

definition Segment_Match :: "Segment \<Rightarrow> string \<Rightarrow> bool" where
  "Segment_Match s value = (case seg_Type s of
     SegmentStatic \<Rightarrow> seg_Value s = value
   | SegmentParam \<Rightarrow> True
   | SegmentRegex \<Rightarrow> (case seg_Pattern s of None \<Rightarrow> False | Some re \<Rightarrow> re value)
   | SegmentWildcard \<Rightarrow> True)"

definition static_segment :: "string \<Rightarrow> Segment" where
  "static_segment v = \<lparr>seg_Type = SegmentStatic, seg_Value = v,
     seg_Pattern = None, seg_RawPattern = []\<rparr>"

definition param_segment :: "string \<Rightarrow> Segment" where
  "param_segment v = \<lparr>seg_Type = SegmentParam, seg_Value = v,
     seg_Pattern = None, seg_RawPattern = []\<rparr>"

definition wildcard_segment :: "string \<Rightarrow> Segment" where
  "wildcard_segment v = \<lparr>seg_Type = SegmentWildcard, seg_Value = v,
     seg_Pattern = None, seg_RawPattern = []\<rparr>"

definition regex_segment :: "string \<Rightarrow> regexp \<Rightarrow> string \<Rightarrow> Segment" where
  "regex_segment v re raw = \<lparr>seg_Type = SegmentRegex, seg_Value = v,
     seg_Pattern = Some re, seg_RawPattern = raw\<rparr>"

definition parseSegment :: "re_compiler \<Rightarrow> string \<Rightarrow> route_error + Segment" where
  "parseSegment compile part =
     (if \<not> has_prefix part ''{'' \<or> \<not> has_suffix part ''}'' then Inr (static_segment part)
      else
        let inner = take (length part - 2) (drop 1 part) in
        case index_byte inner (CHR '':'') of
          None \<Rightarrow> Inr (param_segment inner)
        | Some colonIdx \<Rightarrow>
            let name = take colonIdx inner; pattern = drop (colonIdx + 1) inner in
            if pattern = ''.*'' then Inr (wildcard_segment name)
            else (case compile (''^'' @ pattern @ ''$'') of
                    None \<Rightarrow> Inl (InvalidRegex pattern)
                  | Some re \<Rightarrow> Inr (regex_segment name re pattern)))"

fun parseParts :: "re_compiler \<Rightarrow> string list \<Rightarrow> route_error + Segment list" where
  "parseParts compile [] = Inr []"
| "parseParts compile (part # parts) =
     (if part = [] then parseParts compile parts
      else case parseSegment compile part of
             Inl e \<Rightarrow> Inl e
           | Inr seg \<Rightarrow>
               (case parseParts compile parts of Inl e \<Rightarrow> Inl e | Inr segs \<Rightarrow> Inr (seg # segs)))"

definition ParseSegments :: "re_compiler \<Rightarrow> string \<Rightarrow> route_error + Segment list" where
  "ParseSegments compile path =
     (let path = trim_byte (CHR ''/'') path in
      if path = [] then Inr [] else parseParts compile (split_byte (CHR ''/'') path))"

fun BuildPath_loop :: "Segment list \<Rightarrow> (string \<rightharpoonup> string) \<Rightarrow> route_error + string" where
  "BuildPath_loop [] params = Inr []"
| "BuildPath_loop (seg # segs) params =
     (case (case seg_Type seg of
              SegmentStatic \<Rightarrow> Inr (seg_Value seg)
            | SegmentWildcard \<Rightarrow>
                (case params (seg_Value seg) of
                   None \<Rightarrow> Inl (MissingParameter (seg_Value seg)) | Some v \<Rightarrow> Inr v)
            | _ \<Rightarrow>
                (case params (seg_Value seg) of
                   None \<Rightarrow> Inl (MissingParameter (seg_Value seg)) | Some v \<Rightarrow> Inr (PathEscape v)))
      of Inl e \<Rightarrow> Inl e
       | Inr w \<Rightarrow>
           (case BuildPath_loop segs params of
              Inl e \<Rightarrow> Inl e | Inr rest \<Rightarrow> Inr (CHR ''/'' # w @ rest)))"

definition BuildPath :: "Segment list \<Rightarrow> (string \<rightharpoonup> string) \<Rightarrow> route_error + string" where
  "BuildPath segs params = (if segs = [] then Inr ''/'' else BuildPath_loop segs params)"

subsection \<open>Well-formed segments\<close>

text \<open>
  The segments that parsing produces: a regex segment carries the expression
  compiled from its raw pattern between anchors, every other kind carries none;
  a static value is a non-empty part without a slash.
\<close>

definition segment_wf :: "re_compiler \<Rightarrow> Segment \<Rightarrow> bool" where
  "segment_wf compile s \<longleftrightarrow> (case seg_Type s of
     SegmentRegex \<Rightarrow> seg_Pattern s = compile (''^'' @ seg_RawPattern s @ ''$'') \<and> seg_Pattern s \<noteq> None
   | SegmentStatic \<Rightarrow> seg_Value s \<noteq> [] \<and> CHR ''/'' \<notin> set (seg_Value s)
   | _ \<Rightarrow> True)"

lemmas segment_simps =
  static_segment_def param_segment_def wildcard_segment_def regex_segment_def

lemma parseSegment_wf:
  assumes "parseSegment compile part = Inr seg" and "part \<noteq> []" and "CHR ''/'' \<notin> set part"
  shows "segment_wf compile seg"
  using assms
  by (auto simp: parseSegment_def Let_def segment_wf_def segment_simps
      split: if_splits option.splits)

lemma parseParts_wf:
  "parseParts compile parts = Inr segs \<Longrightarrow> \<forall>p \<in> set parts. CHR ''/'' \<notin> set p \<Longrightarrow>
    \<forall>s \<in> set segs. segment_wf compile s"
  by (induction parts arbitrary: segs)
    (auto split: if_splits sum.splits dest: parseSegment_wf)

lemma ParseSegments_wf:
  assumes "ParseSegments compile path = Inr segs" and "s \<in> set segs"
  shows "segment_wf compile s"
  using assms parseParts_wf[of compile _ segs] split_byte_free
  by (fastforce simp: ParseSegments_def Let_def split: if_splits)

text \<open>A pattern whose parts are all plain is its own list of static segments.\<close>

definition plain_part :: "string \<Rightarrow> bool" where
  "plain_part p \<longleftrightarrow> p \<noteq> [] \<and> CHR ''/'' \<notin> set p \<and> hd p \<noteq> CHR ''{''"

lemma parseSegment_plain: "plain_part p \<Longrightarrow> parseSegment compile p = Inr (static_segment p)"
  by (cases p) (auto simp: parseSegment_def plain_part_def has_prefix_def)

lemma parseParts_plain:
  "\<forall>p \<in> set ps. plain_part p \<Longrightarrow> parseParts compile ps = Inr (map static_segment ps)"
  by (induction ps) (auto simp: parseSegment_plain plain_part_def)

lemma trim_join_parts:
  assumes "ps \<noteq> []" and "\<forall>p \<in> set ps. p \<noteq> [] \<and> c \<notin> set p"
  shows "trim_byte c (join_byte c ps) = join_byte c ps"
proof (rule trim_byte_id)
  from assms obtain p qs where ps: "ps = p # qs" and p: "p \<noteq> []" "c \<notin> set p"
    by (cases ps) auto
  then show "join_byte c ps \<noteq> []" and "hd (join_byte c ps) \<noteq> c"
    by (cases qs; cases p; auto)+
  show "last (join_byte c ps) \<noteq> c"
    using assms
  proof (induction c ps rule: join_byte.induct)
    case (2 c w)
    then show ?case using last_in_set[of w] by auto
  next
    case (3 c w v ws)
    have "join_byte c (v # ws) \<noteq> []" using 3 by (cases ws) auto
    with 3 show ?case by auto
  qed simp
qed

end
