(* ===== verification/Route_Tree.thy ===== *)
theory Route_Tree
  imports Route_Segment "HOL-Library.Char_ord" "HOL-Library.List_Lexorder"
begin

text \<open>
  The routing tree (\<open>router/tree.go\<close>): insertion of a route, matching of a request
  path with backtracking over static, regex, parameter and wildcard children, the
  methods a path is served under, and the flat table of static routes.

  A node's child maps are association lists, so that the loops over them can be
  written out; the pointer that \<open>getOrCreateChild\<close> returns and the caller then
  mutates is modelled by passing the mutation down as a function. The recursion of
  \<open>match\<close> is on the list of path parts; the helpers receive the match of the
  remaining parts as their argument \<open>recur\<close>.

  The specification the tree is measured against is \<open>route_at\<close> (which result is
  registered under a list of edges and a method) together with \<open>edges_match\<close> (which
  lists of edges a list of path parts satisfies, and with which captured values).
\<close>

record 'h MatchResult =
  mr_Handler :: 'h
  mr_Params :: "(string \<rightharpoonup> string) option"
  mr_Name :: string
  mr_Path :: string
  mr_segments :: "Segment list"
  mr_matchedValues :: "string list"
  mr_treeMatched :: bool

datatype 'h Node = Node
  (nd_segment: Segment)
  (staticChildren: "(string \<times> 'h Node) list")
  (regexChildren: "'h Node list")
  (paramChild: "'h Node option")
  (wildcardChild: "'h Node option")
  (handlers: "(string \<times> 'h MatchResult) list")
  (isLeaf: bool)

record 'h Tree =
  tr_root :: "'h Node"
  tr_namedRoutes :: "string \<rightharpoonup> 'h MatchResult"

definition newNode :: "Segment \<Rightarrow> 'h Node" where
  "newNode seg = Node seg [] [] None None [] False"

definition NewTree :: "'h Tree" where
  "NewTree = \<lparr>tr_root = newNode (static_segment []), tr_namedRoutes = Map.empty\<rparr>"

subsection \<open>Insertion\<close>

fun updateRegexChild :: "Segment \<Rightarrow> ('h Node \<Rightarrow> 'h Node) \<Rightarrow> 'h Node list \<Rightarrow> 'h Node list" where
  "updateRegexChild seg f [] = [f (newNode seg)]"
| "updateRegexChild seg f (c # cs) =
     (if seg_RawPattern (nd_segment c) = seg_RawPattern seg then f c # cs
      else c # updateRegexChild seg f cs)"

fun getOrCreateChild :: "Segment \<Rightarrow> ('h Node \<Rightarrow> 'h Node) \<Rightarrow> 'h Node \<Rightarrow> 'h Node" where
  "getOrCreateChild seg f (Node sg sc rc pc wc hs lf) = (case seg_Type seg of
     SegmentStatic \<Rightarrow>
       Node sg (AList.update (seg_Value seg)
                  (f (case map_of sc (seg_Value seg) of Some ch \<Rightarrow> ch | None \<Rightarrow> newNode seg)) sc)
            rc pc wc hs lf
   | SegmentRegex \<Rightarrow> Node sg sc (updateRegexChild seg f rc) pc wc hs lf
   | SegmentParam \<Rightarrow>
       Node sg sc rc (Some (f (case pc of Some ch \<Rightarrow> ch | None \<Rightarrow> newNode seg))) wc hs lf
   | SegmentWildcard \<Rightarrow>
       Node sg sc rc pc (Some (f (case wc of Some ch \<Rightarrow> ch | None \<Rightarrow> newNode seg))) hs lf)"

fun storeHandler :: "string \<Rightarrow> 'h MatchResult \<Rightarrow> 'h Node \<Rightarrow> 'h Node" where
  "storeHandler meth result (Node sg sc rc pc wc hs lf) =
     Node sg sc rc pc wc (AList.update meth result hs) True"

primrec insertAt :: "Segment list \<Rightarrow> string \<Rightarrow> 'h MatchResult \<Rightarrow> 'h Node \<Rightarrow> 'h Node" where
  "insertAt [] meth result = storeHandler meth result"
| "insertAt (seg # segs) meth result = getOrCreateChild seg (insertAt segs meth result)"

definition registered :: "'h \<Rightarrow> string \<Rightarrow> string \<Rightarrow> Segment list \<Rightarrow> 'h MatchResult" where
  "registered handler name path segments =
     \<lparr>mr_Handler = handler, mr_Params = None, mr_Name = name, mr_Path = path,
      mr_segments = segments, mr_matchedValues = [], mr_treeMatched = False\<rparr>"

text \<open>
  The handler is stored before the route name is looked at, so the tree is already
  changed when a name that is taken makes the registration panic.
\<close>

definition InsertWithName ::
  "re_compiler \<Rightarrow> 'h Tree \<Rightarrow> string \<Rightarrow> string \<Rightarrow> 'h \<Rightarrow> string \<Rightarrow> 'h Tree \<times> route_error option" where
  "InsertWithName compile t meth path handler name =
     (case ParseSegments compile path of
        Inl e \<Rightarrow> (t, Some e)
      | Inr segments \<Rightarrow>
          let result = registered handler name path segments;
              t = t\<lparr>tr_root := insertAt segments meth result (tr_root t)\<rparr>
          in if name \<noteq> [] then
               (if tr_namedRoutes t name \<noteq> None then (t, Some (NameRegistered name))
                else (t\<lparr>tr_namedRoutes := (tr_namedRoutes t)(name \<mapsto> result)\<rparr>, None))
             else (t, None))"

definition Insert ::
  "re_compiler \<Rightarrow> 'h Tree \<Rightarrow> string \<Rightarrow> string \<Rightarrow> 'h \<Rightarrow> 'h Tree \<times> route_error option" where
  "Insert compile t meth path handler = InsertWithName compile t meth path handler []"

subsection \<open>Matching\<close>

definition unescapeCapture :: "string \<Rightarrow> string" where
  "unescapeCapture part = (case PathUnescape part of Some decoded \<Rightarrow> decoded | None \<Rightarrow> part)"

definition buildMatchResult :: "'h MatchResult \<Rightarrow> string list \<Rightarrow> 'h MatchResult" where
  "buildMatchResult reg matchedValues =
     \<lparr>mr_Handler = mr_Handler reg, mr_Params = None, mr_Name = mr_Name reg,
      mr_Path = mr_Path reg, mr_segments = mr_segments reg,
      mr_matchedValues = matchedValues, mr_treeMatched = True\<rparr>"

definition matchLeaf :: "'h Node \<Rightarrow> string \<Rightarrow> string list \<Rightarrow> 'h MatchResult option" where
  "matchLeaf n meth vs =
     (case map_of (handlers n) meth of
        Some result \<Rightarrow> Some (buildMatchResult result vs)
      | None \<Rightarrow>
          (case wildcardChild n of
             None \<Rightarrow> None
           | Some w \<Rightarrow>
               (case map_of (handlers w) meth of
                  Some result \<Rightarrow> Some (buildMatchResult result (vs @ ['''']))
                | None \<Rightarrow> None)))"

type_synonym 'h matcher = "'h Node \<Rightarrow> string \<Rightarrow> string list \<Rightarrow> 'h MatchResult option"

definition matchStatic :: "'h matcher \<Rightarrow> 'h Node \<Rightarrow> string \<Rightarrow> string \<Rightarrow> string list \<Rightarrow> 'h MatchResult option"
  where
  "matchStatic recur n part meth vs =
     (case map_of (staticChildren n) part of None \<Rightarrow> None | Some c \<Rightarrow> recur c meth vs)"

fun matchRegexChildren ::
  "'h matcher \<Rightarrow> 'h Node list \<Rightarrow> string \<Rightarrow> string \<Rightarrow> string list \<Rightarrow> 'h MatchResult option" where
  "matchRegexChildren recur [] part meth vs = None"
| "matchRegexChildren recur (c # cs) part meth vs =
     (if \<not> Segment_Match (nd_segment c) part then matchRegexChildren recur cs part meth vs
      else case recur c meth (vs @ [unescapeCapture part]) of
             Some r \<Rightarrow> Some r
           | None \<Rightarrow> matchRegexChildren recur cs part meth vs)"

definition matchRegex :: "'h matcher \<Rightarrow> 'h Node \<Rightarrow> string \<Rightarrow> string \<Rightarrow> string list \<Rightarrow> 'h MatchResult option"
  where
  "matchRegex recur n = matchRegexChildren recur (regexChildren n)"

definition matchParam :: "'h matcher \<Rightarrow> 'h Node \<Rightarrow> string \<Rightarrow> string \<Rightarrow> string list \<Rightarrow> 'h MatchResult option"
  where
  "matchParam recur n part meth vs =
     (case paramChild n of
        None \<Rightarrow> None | Some c \<Rightarrow> recur c meth (vs @ [unescapeCapture part]))"

definition matchWildcard :: "'h Node \<Rightarrow> string list \<Rightarrow> string \<Rightarrow> string list \<Rightarrow> 'h MatchResult option"
  where
  "matchWildcard n parts meth vs =
     (case wildcardChild n of
        None \<Rightarrow> None
      | Some w \<Rightarrow>
          (case map_of (handlers w) meth of
             None \<Rightarrow> None
           | Some result \<Rightarrow>
               Some (buildMatchResult result (vs @ [unescapeCapture (join_byte (CHR ''/'') parts)]))))"

primrec node_match :: "string list \<Rightarrow> 'h matcher" where
  "node_match [] = matchLeaf"
| "node_match (part # remaining) = (\<lambda>n meth vs.
     case matchStatic (node_match remaining) n part meth vs of
       Some r \<Rightarrow> Some r
     | None \<Rightarrow>
         (case matchRegex (node_match remaining) n part meth vs of
            Some r \<Rightarrow> Some r
          | None \<Rightarrow>
              (case matchParam (node_match remaining) n part meth vs of
                 Some r \<Rightarrow> Some r
               | None \<Rightarrow> matchWildcard n (part # remaining) meth vs)))"

fun scanParts :: "string \<Rightarrow> string list \<Rightarrow> string \<Rightarrow> string list" where
  "scanParts cur parts [] = (if cur \<noteq> [] then parts @ [cur] else parts)"
| "scanParts cur parts (c # cs) =
     (if c = CHR ''/'' then scanParts [] (if cur \<noteq> [] then parts @ [cur] else parts) cs
      else scanParts (cur @ [c]) parts cs)"

definition appendPathParts :: "string list \<Rightarrow> string \<Rightarrow> string list" where
  "appendPathParts parts path = scanParts [] parts path"

definition matchLazy :: "'h Tree \<Rightarrow> string \<Rightarrow> string \<Rightarrow> 'h MatchResult option" where
  "matchLazy t meth path =
     (let path = trim_byte (CHR ''/'') path in
      if path = [] then
        (case map_of (handlers (tr_root t)) meth of
           Some result \<Rightarrow> Some (buildMatchResult result []) | None \<Rightarrow> None)
      else node_match (appendPathParts [] path) (tr_root t) meth [])"

fun buildParams_loop ::
  "Segment list \<Rightarrow> string list \<Rightarrow> (string \<rightharpoonup> string) \<Rightarrow> (string \<rightharpoonup> string)" where
  "buildParams_loop [] values params = params"
| "buildParams_loop (seg # segs) values params =
     (if seg_Type seg = SegmentStatic then buildParams_loop segs values params
      else case values of
             [] \<Rightarrow> buildParams_loop segs [] params
           | v # vs \<Rightarrow> buildParams_loop segs vs (params(seg_Value seg \<mapsto> v)))"

definition buildParams :: "Segment list \<Rightarrow> string list \<Rightarrow> (string \<rightharpoonup> string)" where
  "buildParams segments values = buildParams_loop segments values Map.empty"

definition paramMap :: "'h MatchResult \<Rightarrow> (string \<rightharpoonup> string)" where
  "paramMap m = buildParams (mr_segments m) (mr_matchedValues m)"

definition Tree_Match :: "'h Tree \<Rightarrow> string \<Rightarrow> string \<Rightarrow> 'h MatchResult option" where
  "Tree_Match t meth path =
     map_option (\<lambda>r. r\<lparr>mr_Params := Some (paramMap r)\<rparr>) (matchLazy t meth path)"

subsection \<open>The methods a path is served under\<close>

definition appendHandlerMethods :: "'h Node \<Rightarrow> string list \<Rightarrow> string list" where
  "appendHandlerMethods n methods =
     fold (\<lambda>(meth, _) ms. if meth \<in> set ms then ms else ms @ [meth]) (handlers n) methods"

type_synonym 'h method_walk = "'h Node \<Rightarrow> string list \<Rightarrow> string list"

primrec appendAllowedMethods :: "string list \<Rightarrow> 'h method_walk" where
  "appendAllowedMethods [] = (\<lambda>n methods.
     let methods = appendHandlerMethods n methods in
     case wildcardChild n of None \<Rightarrow> methods | Some w \<Rightarrow> appendHandlerMethods w methods)"
| "appendAllowedMethods (part # remaining) = (\<lambda>n methods.
     let methods = (case map_of (staticChildren n) part of
                      None \<Rightarrow> methods | Some c \<Rightarrow> appendAllowedMethods remaining c methods);
         methods = fold (\<lambda>c ms. if Segment_Match (nd_segment c) part
                               then appendAllowedMethods remaining c ms else ms)
                     (regexChildren n) methods;
         methods = (case paramChild n of
                      None \<Rightarrow> methods | Some c \<Rightarrow> appendAllowedMethods remaining c methods)
     in case wildcardChild n of None \<Rightarrow> methods | Some w \<Rightarrow> appendHandlerMethods w methods)"

definition AllowedMethods :: "'h Tree \<Rightarrow> string \<Rightarrow> string list" where
  "AllowedMethods t path =
     (let path = trim_byte (CHR ''/'') path in
      sort (if path = [] then appendHandlerMethods (tr_root t) []
            else appendAllowedMethods (appendPathParts [] path) (tr_root t) []))"

subsection \<open>The table of static routes\<close>

type_synonym 'h route_table = "string \<rightharpoonup> 'h MatchResult"

definition addHandlers :: "string \<Rightarrow> (string \<times> 'h MatchResult) list \<Rightarrow> 'h route_table \<Rightarrow> 'h route_table"
  where
  "addHandlers path hs compiled =
     fold (\<lambda>(meth, result) m. m(meth @ '' '' @ path \<mapsto> result)) hs compiled"

lemma staticChild_size [termination_simp]:
  "(v, c) \<in> set sc \<Longrightarrow> size c < Suc (size_list (\<lambda>p. Suc (size (snd p))) sc + m)"
  by (induction sc) auto

function collectStaticRoutes :: "'h Node \<Rightarrow> string \<Rightarrow> 'h route_table \<Rightarrow> 'h route_table" where
  "collectStaticRoutes (Node sg sc rc pc wc hs lf) prefx compiled =
     fold (\<lambda>(value, c) m.
             let path = prefx @ value;
                 m = (if isLeaf c then addHandlers path (handlers c) m else m)
             in collectStaticRoutes c (path @ ''/'') m) sc compiled"
  by pat_completeness auto
termination
  by (relation "measure (\<lambda>(n, _, _). size n)") (auto simp: termination_simp)

definition CompileStaticRoutes :: "'h Tree \<Rightarrow> 'h route_table" where
  "CompileStaticRoutes t =
     collectStaticRoutes (tr_root t) ''/'' (addHandlers ''/'' (handlers (tr_root t)) Map.empty)"

end
