(* ===== verification/Route_Spec.thy ===== *)
theory Route_Spec
  imports Route_Tree
begin

text \<open>
  What the routing tree means, and that insertion and matching agree with it: a
  tree holds a partial function from edge lists and methods to results; insertion
  updates it at one point; matching finds a route exactly when some registered
  edge list fits the path.
\<close>

subsection \<open>Edges and lookup\<close>

datatype edge = EStatic string | ERegex string | EParam | EWild

definition edge_of :: "Segment \<Rightarrow> edge" where
  "edge_of s = (case seg_Type s of
     SegmentStatic \<Rightarrow> EStatic (seg_Value s)
   | SegmentRegex \<Rightarrow> ERegex (seg_RawPattern s)
   | SegmentParam \<Rightarrow> EParam
   | SegmentWildcard \<Rightarrow> EWild)"

fun child :: "'h Node \<Rightarrow> edge \<Rightarrow> 'h Node option" where
  "child n (EStatic v) = map_of (staticChildren n) v"
| "child n (ERegex raw) =
     List.find (\<lambda>c. seg_RawPattern (nd_segment c) = raw) (regexChildren n)"
| "child n EParam = paramChild n"
| "child n EWild = wildcardChild n"

primrec node_at :: "edge list \<Rightarrow> 'h Node \<Rightarrow> 'h Node option" where
  "node_at [] n = Some n"
| "node_at (e # es) n = (case child n e of None \<Rightarrow> None | Some c \<Rightarrow> node_at es c)"

definition route_at :: "'h Node \<Rightarrow> edge list \<Rightarrow> string \<Rightarrow> 'h MatchResult option" where
  "route_at n es meth =
     (case node_at es n of None \<Rightarrow> None | Some nd \<Rightarrow> map_of (handlers nd) meth)"

lemma route_at_Nil: "route_at n [] meth = map_of (handlers n) meth"
  by (simp add: route_at_def)

lemma route_at_Cons:
  "route_at n (e # es) meth = (case child n e of None \<Rightarrow> None | Some c \<Rightarrow> route_at c es meth)"
  by (simp add: route_at_def split: option.splits)

lemmas route_at_simps = route_at_Nil route_at_Cons

lemma child_newNode [simp]: "child (newNode seg) e = None"
  by (cases e) (auto simp: newNode_def)

lemma route_at_newNode [simp]: "route_at (newNode seg) es meth = None"
  by (cases es) (auto simp: route_at_simps newNode_def[of seg] child_newNode[unfolded newNode_def])

lemma nd_segment_getOrCreateChild [simp]: "nd_segment (getOrCreateChild seg f n) = nd_segment n"
  by (cases n) (auto split: SegmentType.splits)

lemma nd_segment_storeHandler [simp]: "nd_segment (storeHandler meth result n) = nd_segment n"
  by (cases n) simp

lemma nd_segment_insertAt [simp]: "nd_segment (insertAt segs meth result n) = nd_segment n"
  by (cases segs) simp_all

lemma handlers_getOrCreateChild [simp]: "handlers (getOrCreateChild seg f n) = handlers n"
  by (cases n) (auto split: SegmentType.splits)

lemma find_updateRegexChild:
  assumes "\<And>c. nd_segment (f c) = nd_segment c"
  shows "List.find (\<lambda>c. seg_RawPattern (nd_segment c) = raw) (updateRegexChild seg f cs) =
    (if raw = seg_RawPattern seg
     then Some (f (case List.find (\<lambda>c. seg_RawPattern (nd_segment c) = raw) cs of
                     Some c \<Rightarrow> c | None \<Rightarrow> newNode seg))
     else List.find (\<lambda>c. seg_RawPattern (nd_segment c) = raw) cs)"
  using assms by (induction cs) (auto simp: newNode_def)

lemma child_getOrCreateChild:
  assumes "\<And>c. nd_segment (f c) = nd_segment c"
  shows "child (getOrCreateChild seg f n) e =
    (if e = edge_of seg
     then Some (f (case child n e of Some c \<Rightarrow> c | None \<Rightarrow> newNode seg))
     else child n e)"
  using find_updateRegexChild[OF assms]
  by (cases n; cases e) (auto simp: edge_of_def split: SegmentType.splits)

lemma child_storeHandler [simp]: "child (storeHandler meth result n) e = child n e"
  by (cases n; cases e) auto

lemma handlers_storeHandler [simp]:
  "handlers (storeHandler meth result n) = AList.update meth result (handlers n)"
  by (cases n) simp

text \<open>Insertion updates the lookup at the route's own edges and method, and nowhere else.\<close>

lemma route_at_insertAt:
  "route_at (insertAt segs meth result n) es meth' =
    (if es = map edge_of segs \<and> meth' = meth then Some result else route_at n es meth')"
proof (induction segs arbitrary: n es meth')
  case Nil
  then show ?case by (cases es) (auto simp: route_at_simps)
next
  case (Cons seg segs)
  note IH = Cons.IH
  show ?case
  proof (cases es)
    case Nil
    then show ?thesis by (simp add: route_at_simps)
  next
    case (Cons e es')
    then show ?thesis
      by (auto simp: route_at_simps child_getOrCreateChild IH split: option.splits)
  qed
qed

subsection \<open>The invariant of the tree\<close>

definition local_wf :: "re_compiler \<Rightarrow> 'h Node \<Rightarrow> bool" where
  "local_wf compile n \<longleftrightarrow>
     keys_distinct (staticChildren n) \<and>
     (\<forall>v \<in> fst ` set (staticChildren n). v \<noteq> [] \<and> CHR ''/'' \<notin> set v) \<and>
     distinct (map (\<lambda>c. seg_RawPattern (nd_segment c)) (regexChildren n)) \<and>
     (\<forall>c \<in> set (regexChildren n).
        seg_Type (nd_segment c) = SegmentRegex \<and> segment_wf compile (nd_segment c)) \<and>
     keys_distinct (handlers n) \<and>
     (isLeaf n \<longleftrightarrow> handlers n \<noteq> [])"

definition node_wf :: "re_compiler \<Rightarrow> 'h Node \<Rightarrow> bool" where
  "node_wf compile n \<longleftrightarrow> (\<forall>es nd. node_at es n = Some nd \<longrightarrow> local_wf compile nd)"

lemma node_wf_local: "node_wf compile n \<Longrightarrow> local_wf compile n"
  unfolding node_wf_def by (metis node_at.simps(1))

lemma node_wf_child: "node_wf compile n \<Longrightarrow> child n e = Some c \<Longrightarrow> node_wf compile c"
  unfolding node_wf_def by (metis node_at.simps(2) option.simps(5))

lemma node_wf_newNode: "node_wf compile (newNode seg :: 'a Node)"
proof -
  have "node_at es (newNode seg) = Some nd \<Longrightarrow> nd = newNode seg" for es and nd :: "'a Node"
    by (cases es) auto
  moreover have "local_wf compile (newNode seg :: 'a Node)"
    by (simp add: local_wf_def newNode_def)
  ultimately show ?thesis unfolding node_wf_def by metis
qed

lemma regexChild_child:
  assumes "local_wf compile n" and "c \<in> set (regexChildren n)"
  shows "child n (ERegex (seg_RawPattern (nd_segment c))) = Some c"
proof -
  have "distinct (map (\<lambda>c. seg_RawPattern (nd_segment c)) (regexChildren n))"
    using assms by (simp add: local_wf_def)
  from find_distinct_key[OF this assms(2)] show ?thesis by simp
qed

lemma updateRegexChild_raws:
  assumes "\<And>c. nd_segment (f c) = nd_segment c"
  shows "map (\<lambda>c. seg_RawPattern (nd_segment c)) (updateRegexChild seg f cs) =
    (let raws = map (\<lambda>c. seg_RawPattern (nd_segment c)) cs in
     if seg_RawPattern seg \<in> set raws then raws else raws @ [seg_RawPattern seg])"
  using assms by (induction cs) (auto simp: newNode_def Let_def)

lemma updateRegexChild_segments:
  assumes "\<And>c. nd_segment (f c) = nd_segment c" and "c \<in> set (updateRegexChild seg f cs)"
  shows "nd_segment c = seg \<or> nd_segment c \<in> nd_segment ` set cs"
  using assms by (induction cs) (auto simp: newNode_def split: if_splits)

lemma local_wf_getOrCreateChild:
  assumes wf: "local_wf compile n" and seg: "segment_wf compile seg"
    and f: "\<And>c. nd_segment (f c) = nd_segment c"
  shows "local_wf compile (getOrCreateChild seg f n)"
proof (cases n)
  case (Node sg sc rc pc wc hs lf)
  show ?thesis
  proof (cases "seg_Type seg")
    case SegmentStatic
    then have "seg_Value seg \<noteq> []" and "CHR ''/'' \<notin> set (seg_Value seg)"
      using seg by (simp_all add: segment_wf_def)
    with SegmentStatic Node wf show ?thesis
      by (auto simp: local_wf_def set_update_distinct wf_intros)
  next
    case SegmentRegex
    have "seg_Type (nd_segment c) = SegmentRegex \<and> segment_wf compile (nd_segment c)"
      if "c \<in> set (updateRegexChild seg f rc)" for c
      using updateRegexChild_segments[OF f that] wf seg Node SegmentRegex
      by (auto simp: local_wf_def)
    with Node wf SegmentRegex show ?thesis
      by (auto simp: local_wf_def updateRegexChild_raws[OF f] Let_def)
  qed (use Node wf in \<open>simp_all add: local_wf_def\<close>)
qed

lemma local_wf_storeHandler: "local_wf compile n \<Longrightarrow> local_wf compile (storeHandler meth result n)"
  by (cases n) (auto simp: local_wf_def wf_intros)

lemma node_wf_insertAt:
  "node_wf compile n \<Longrightarrow> \<forall>s \<in> set segs. segment_wf compile s \<Longrightarrow>
    node_wf compile (insertAt segs meth result n)"
proof (induction segs arbitrary: n)
  case Nil
  have "local_wf compile nd" if "node_at es (storeHandler meth result n) = Some nd" for es nd
  proof (cases es)
    case Nil
    with that \<open>node_wf compile n\<close> show ?thesis
      by (auto dest: node_wf_local intro: local_wf_storeHandler)
  next
    case (Cons e es')
    with that have "node_at es n = Some nd" by simp
    with \<open>node_wf compile n\<close> show ?thesis by (auto simp: node_wf_def)
  qed
  then show ?case by (simp add: node_wf_def)
next
  case (Cons seg segs)
  note IH = Cons.IH and wf = Cons.prems(1) and segs = Cons.prems(2)
  let ?n' = "getOrCreateChild seg (insertAt segs meth result) n"
  have child: "node_wf compile c" if "child ?n' e = Some c" for e c
  proof (cases "e = edge_of seg")
    case True
    have "node_wf compile (case child n e of Some c \<Rightarrow> c | None \<Rightarrow> newNode seg)"
      using wf node_wf_newNode by (auto split: option.splits intro: node_wf_child)
    with True that segs IH show ?thesis by (auto simp: child_getOrCreateChild)
  next
    case False
    with that wf show ?thesis by (auto simp: child_getOrCreateChild intro: node_wf_child)
  qed
  have "local_wf compile nd" if "node_at es ?n' = Some nd" for es nd
  proof (cases es)
    case Nil
    with that wf segs show ?thesis by (auto intro: local_wf_getOrCreateChild dest: node_wf_local)
  next
    case (Cons e es')
    with that child show ?thesis by (auto simp: node_wf_def split: option.splits)
  qed
  then show ?case by (simp add: node_wf_def)
qed

subsection \<open>Which edge lists fit a path\<close>

definition regex_accepts :: "re_compiler \<Rightarrow> string \<Rightarrow> string \<Rightarrow> bool" where
  "regex_accepts compile raw part =
     (case compile (''^'' @ raw @ ''$'') of None \<Rightarrow> False | Some re \<Rightarrow> re part)"

fun edges_match :: "re_compiler \<Rightarrow> edge list \<Rightarrow> string list \<Rightarrow> string list \<Rightarrow> bool" where
  "edges_match compile [] parts vals = (parts = [] \<and> vals = [])"
| "edges_match compile (EWild # es) parts vals =
     (es = [] \<and> vals = [unescapeCapture (join_byte (CHR ''/'') parts)])"
| "edges_match compile (EStatic v # es) parts vals =
     (case parts of [] \<Rightarrow> False | p # ps \<Rightarrow> p = v \<and> edges_match compile es ps vals)"
| "edges_match compile (EParam # es) parts vals =
     (case (parts, vals) of
        (p # ps, x # xs) \<Rightarrow> x = unescapeCapture p \<and> edges_match compile es ps xs
      | _ \<Rightarrow> False)"
| "edges_match compile (ERegex raw # es) parts vals =
     (case (parts, vals) of
        (p # ps, x # xs) \<Rightarrow>
          x = unescapeCapture p \<and> regex_accepts compile raw p \<and> edges_match compile es ps xs
      | _ \<Rightarrow> False)"

lemma unescapeCapture_Nil [simp]: "unescapeCapture [] = []"
  by (simp add: unescapeCapture_def)

lemma regexChild_match:
  assumes "local_wf compile n" and "c \<in> set (regexChildren n)"
  shows "Segment_Match (nd_segment c) part =
    regex_accepts compile (seg_RawPattern (nd_segment c)) part"
  using assms by (auto simp: local_wf_def segment_wf_def Segment_Match_def regex_accepts_def)

lemma matchRegexChildren_Some:
  "matchRegexChildren recur cs part meth vs = Some r \<Longrightarrow>
    \<exists>c \<in> set cs. Segment_Match (nd_segment c) part \<and>
      recur c meth (vs @ [unescapeCapture part]) = Some r"
  by (induction cs) (auto split: if_splits option.splits)

lemma matchRegexChildren_None:
  "matchRegexChildren recur cs part meth vs = None \<Longrightarrow> c \<in> set cs \<Longrightarrow>
    Segment_Match (nd_segment c) part \<Longrightarrow> recur c meth (vs @ [unescapeCapture part]) = None"
  by (induction cs) (auto split: if_splits option.splits)

definition finds :: "re_compiler \<Rightarrow> 'h Node \<Rightarrow> string list \<Rightarrow> string \<Rightarrow> string list \<Rightarrow> 'h MatchResult \<Rightarrow> bool"
  where
  "finds compile n parts meth vals reg \<longleftrightarrow>
     (\<exists>es. route_at n es meth = Some reg \<and> edges_match compile es parts vals)"

lemma finds_child:
  assumes "child n e = Some c" and "finds compile c parts meth vals reg"
    and "\<And>es. edges_match compile es parts vals \<Longrightarrow> edges_match compile (e # es) parts' vals'"
  shows "finds compile n parts' meth vals' reg"
  using assms unfolding finds_def by (metis option.simps(5) route_at_Cons)

lemma finds_here: "map_of (handlers n) meth = Some reg \<Longrightarrow> finds compile n [] meth [] reg"
  unfolding finds_def by (intro exI[of _ "[]"]) (simp add: route_at_simps)

lemma finds_wildcard:
  assumes "wildcardChild n = Some w" and "map_of (handlers w) meth = Some reg"
  shows "finds compile n parts meth [unescapeCapture (join_byte (CHR ''/'') parts)] reg"
  unfolding finds_def using assms by (intro exI[of _ "[EWild]"]) (simp add: route_at_simps)

lemma matchWildcard_sound:
  assumes "matchWildcard n parts meth vs = Some r"
  shows "\<exists>vals reg. finds compile n parts meth vals reg \<and> r = buildMatchResult reg (vs @ vals)"
  using assms finds_wildcard by (fastforce simp: matchWildcard_def split: option.splits)

lemma matchLeaf_sound:
  assumes "matchLeaf n meth vs = Some r"
  shows "\<exists>vals reg. finds compile n [] meth vals reg \<and> r = buildMatchResult reg (vs @ vals)"
proof (cases "map_of (handlers n) meth")
  case (Some reg)
  with assms have "r = buildMatchResult reg (vs @ [])" by (simp add: matchLeaf_def)
  with finds_here[OF Some] show ?thesis by blast
next
  case None
  with assms obtain w reg where "wildcardChild n = Some w" and "map_of (handlers w) meth = Some reg"
    and r: "r = buildMatchResult reg (vs @ [''''])"
    by (auto simp: matchLeaf_def split: option.splits)
  from finds_wildcard[OF this(1,2), of compile "[]"] r show ?thesis by auto
qed

lemma node_match_sound:
  "node_wf compile n \<Longrightarrow> node_match parts n meth vs = Some r \<Longrightarrow>
    \<exists>vals reg. finds compile n parts meth vals reg \<and> r = buildMatchResult reg (vs @ vals)"
proof (induction parts arbitrary: n vs)
  case Nil
  then show ?case using matchLeaf_sound by fastforce
next
  case (Cons part parts)
  note wf = Cons.prems(1)
  have step: "\<exists>vals reg. finds compile n (part # parts) meth vals reg \<and>
      r = buildMatchResult reg (vs @ vals)"
    if ch: "child n e = Some c" and m: "node_match parts c meth (vs @ cap) = Some r"
      and ext: "\<And>es vals. edges_match compile es parts vals \<Longrightarrow>
        edges_match compile (e # es) (part # parts) (cap @ vals)" for e c cap
  proof -
    obtain vals reg where "finds compile c parts meth vals reg"
      and r: "r = buildMatchResult reg ((vs @ cap) @ vals)"
      using Cons.IH[OF node_wf_child[OF wf ch] m] by blast
    then have "finds compile n (part # parts) meth (cap @ vals) reg"
      using ext by (intro finds_child[OF ch])
    with r show ?thesis by (metis append.assoc)
  qed
  consider (static) c where "map_of (staticChildren n) part = Some c"
      and "node_match parts c meth vs = Some r"
    | (regex) c where "c \<in> set (regexChildren n)" and "Segment_Match (nd_segment c) part"
      and "node_match parts c meth (vs @ [unescapeCapture part]) = Some r"
    | (param) c where "paramChild n = Some c"
      and "node_match parts c meth (vs @ [unescapeCapture part]) = Some r"
    | (wild) "matchWildcard n (part # parts) meth vs = Some r"
    using Cons.prems(2)
    by (auto simp: matchStatic_def matchRegex_def matchParam_def split: option.splits
        dest!: matchRegexChildren_Some)
  then show ?case
  proof cases
    case static
    then show ?thesis using step[of "EStatic part" c "[]"] by simp
  next
    case regex
    have ch: "child n (ERegex (seg_RawPattern (nd_segment c))) = Some c"
      using wf regex(1) by (blast dest: node_wf_local intro: regexChild_child)
    have "regex_accepts compile (seg_RawPattern (nd_segment c)) part"
      using wf regex(1,2) regexChild_match by (blast dest: node_wf_local)
    then show ?thesis by (intro step[OF ch regex(3)]) simp
  next
    case param
    then show ?thesis using step[of EParam c "[unescapeCapture part]"] by simp
  next
    case wild
    then show ?thesis by (rule matchWildcard_sound)
  qed
qed

lemma node_match_complete:
  "node_wf compile n \<Longrightarrow> finds compile n parts meth vals reg \<Longrightarrow>
    node_match parts n meth vs \<noteq> None"
proof (induction parts arbitrary: n vs vals)
  case Nil
  then obtain es where es: "route_at n es meth = Some reg" "edges_match compile es [] vals"
    unfolding finds_def by blast
  then consider "es = []" | "es = [EWild]"
    by (cases es; cases "hd es") auto
  then show ?case
    using es by cases (auto simp: matchLeaf_def route_at_simps split: option.splits)
next
  case (Cons part parts)
  note wf = Cons.prems(1)
  obtain es where es: "route_at n es meth = Some reg" "edges_match compile es (part # parts) vals"
    using Cons.prems(2) unfolding finds_def by blast
  then obtain e es' where e: "es = e # es'" by (cases es) auto
  with es(1) obtain c where c: "child n e = Some c" and c_route: "route_at c es' meth = Some reg"
    by (auto simp: route_at_simps split: option.splits)
  have below: "node_match parts c meth vs' \<noteq> None" if "edges_match compile es' parts xs" for xs vs'
    using Cons.IH[OF node_wf_child[OF wf c]] c_route that unfolding finds_def by blast
  show ?case
  proof (cases e)
    case (EStatic v)
    with es e below have "node_match parts c meth vs \<noteq> None" and "v = part" by auto
    with c EStatic show ?thesis by (auto simp: matchStatic_def split: option.splits)
  next
    case (ERegex raw)
    with es e below have rec: "node_match parts c meth (vs @ [unescapeCapture part]) \<noteq> None"
      and acc: "regex_accepts compile raw part"
      by (auto split: list.splits)
    have "c \<in> set (regexChildren n)" and "seg_RawPattern (nd_segment c) = raw"
      using c ERegex by (auto simp: find_Some_iff)
    with acc rec have "matchRegex (node_match parts) n part meth vs \<noteq> None"
      using matchRegexChildren_None regexChild_match[OF node_wf_local[OF wf]]
      unfolding matchRegex_def by metis
    then show ?thesis by (auto split: option.splits)
  next
    case EParam
    with es e below have "node_match parts c meth (vs @ [unescapeCapture part]) \<noteq> None"
      by (auto split: list.splits)
    with c EParam show ?thesis by (auto simp: matchParam_def split: option.splits)
  next
    case EWild
    with es e c c_route show ?thesis
      by (auto simp: matchWildcard_def route_at_simps split: option.splits)
  qed
qed

subsection \<open>Splitting a path\<close>

lemma scanParts_split:
  "scanParts cur parts s =
    parts @ filter (\<lambda>p. p \<noteq> []) ((cur @ hd (split_byte (CHR ''/'') s)) # tl (split_byte (CHR ''/'') s))"
proof (induction s arbitrary: cur parts)
  case Nil
  then show ?case by simp
next
  case (Cons c cs)
  obtain w ws where "split_byte (CHR ''/'') cs = w # ws"
    by (meson list.exhaust split_byte_nonempty)
  with Cons show ?case by auto
qed

lemma appendPathParts_split:
  "appendPathParts parts path = parts @ filter (\<lambda>p. p \<noteq> []) (split_byte (CHR ''/'') path)"
  unfolding appendPathParts_def scanParts_split append_Nil
  by (simp only: split_byte_hd_tl[symmetric])

lemma parseParts_filter: "parseParts compile parts = parseParts compile (filter (\<lambda>p. p \<noteq> []) parts)"
  by (induction parts) (auto split: sum.splits)

definition path_parts :: "string \<Rightarrow> string list" where
  "path_parts path = appendPathParts [] (trim_byte (CHR ''/'') path)"

lemma path_parts_nonempty: "p \<in> set (path_parts path) \<Longrightarrow> p \<noteq> [] \<and> CHR ''/'' \<notin> set p"
  using split_byte_free by (fastforce simp: path_parts_def appendPathParts_split)

lemma path_parts_join:
  assumes "\<forall>p \<in> set ps. p \<noteq> [] \<and> CHR ''/'' \<notin> set p"
  shows "path_parts (CHR ''/'' # join_byte (CHR ''/'') ps) = ps"
proof (cases "ps = []")
  case True
  then show ?thesis by (simp add: path_parts_def appendPathParts_def)
next
  case False
  with assms have "trim_byte (CHR ''/'') (join_byte (CHR ''/'') ps) = join_byte (CHR ''/'') ps"
    by (intro trim_join_parts) auto
  moreover have "split_byte (CHR ''/'') (join_byte (CHR ''/'') ps) = ps"
    using assms False by (intro split_join) auto
  ultimately show ?thesis using assms by (simp add: path_parts_def appendPathParts_split)
qed

lemma path_parts_eq_Nil: "trim_byte (CHR ''/'') path = [] \<Longrightarrow> path_parts path = []"
  by (simp add: path_parts_def appendPathParts_def)

lemma trim_byte_hd: "trim_byte c s \<noteq> [] \<Longrightarrow> hd (trim_byte c s) \<noteq> c"
proof -
  let ?t = "dropWhile (\<lambda>x. x = c) s"
  assume ne: "trim_byte c s \<noteq> []"
  then have "?t \<noteq> []" by (metis dropWhile.simps(1) rev.simps(1) trim_byte_def)
  then have "hd ?t \<noteq> c" using hd_dropWhile[of "\<lambda>x. x = c" s] by blast
  obtain us where us: "rev ?t = us @ dropWhile (\<lambda>x. x = c) (rev ?t)"
    using takeWhile_dropWhile_id[of "\<lambda>x. x = c" "rev ?t"] by metis
  then have "?t = trim_byte c s @ rev us" by (metis rev_append rev_rev_ident trim_byte_def)
  with ne \<open>hd ?t \<noteq> c\<close> show ?thesis by (metis hd_append2)
qed

lemma path_parts_Nil_iff: "path_parts path = [] \<longleftrightarrow> trim_byte (CHR ''/'') path = []"
proof
  assume "path_parts path = []"
  show "trim_byte (CHR ''/'') path = []"
  proof (rule ccontr)
    assume ne: "trim_byte (CHR ''/'') path \<noteq> []"
    then obtain x xs where x: "trim_byte (CHR ''/'') path = x # xs" by (cases "trim_byte (CHR ''/'') path") auto
    with trim_byte_hd[OF ne] have "x \<noteq> CHR ''/''" by simp
    with x \<open>path_parts path = []\<close> show False by (simp add: path_parts_def appendPathParts_split)
  qed
qed (rule path_parts_eq_Nil)

lemma ParseSegments_path_parts: "ParseSegments compile path = parseParts compile (path_parts path)"
  using path_parts_Nil_iff[of path] parseParts_filter[of compile "split_byte (CHR ''/'') (trim_byte (CHR ''/'') path)"]
  by (auto simp: ParseSegments_def Let_def path_parts_def appendPathParts_split)

lemma matchLazy_path_parts:
  "matchLazy t meth path =
    (if path_parts path = [] then map_option (\<lambda>r. buildMatchResult r []) (map_of (handlers (tr_root t)) meth)
     else node_match (path_parts path) (tr_root t) meth [])"
  using path_parts_Nil_iff[of path]
  by (auto simp: matchLazy_def Let_def path_parts_def split: option.splits)

end
