(* ===== verification/Route_Methods.thy ===== *)
theory Route_Methods
  imports Route_Spec
begin

text \<open>
  The two views of the tree beside matching: the methods allowed on a path, and the
  table of static routes compiled out of the tree.
\<close>

subsection \<open>Allowed methods\<close>

lemma set_appendHandlerMethods:
  "set (appendHandlerMethods n ms) = set ms \<union> fst ` set (handlers n)"
proof -
  have "set (fold (\<lambda>(m, _) ms. if m \<in> set ms then ms else ms @ [m]) hs ms) = set ms \<union> fst ` set hs"
    for hs :: "(string \<times> 'a MatchResult) list" and ms
    by (induction hs arbitrary: ms) (auto split: if_splits)
  then show ?thesis by (simp add: appendHandlerMethods_def)
qed

lemma fold_invariant_simple: "P s \<Longrightarrow> (\<And>x s. P s \<Longrightarrow> P (f x s)) \<Longrightarrow> P (fold f xs s)"
  by (induction xs arbitrary: s) auto

lemma distinct_appendHandlerMethods: "distinct ms \<Longrightarrow> distinct (appendHandlerMethods n ms)"
  unfolding appendHandlerMethods_def
  by (erule fold_invariant_simple) (auto split: prod.splits)

lemma handler_methods: "fst ` set hs = {m. map_of hs m \<noteq> None}"
  by (metis dom_def dom_map_of_conv_image_fst)

lemma matchRegexChildren_eq_None:
  "matchRegexChildren recur cs part meth vs = None \<longleftrightarrow>
    (\<forall>c \<in> set cs. Segment_Match (nd_segment c) part \<longrightarrow>
      recur c meth (vs @ [unescapeCapture part]) = None)"
  by (induction cs) (auto split: option.splits)

lemma set_fold_collect:
  assumes "\<And>c ms. set (g c ms) = set ms \<union> A c"
  shows "set (fold (\<lambda>c ms. if P c then g c ms else ms) cs ms) = set ms \<union> (\<Union>c \<in> {c \<in> set cs. P c}. A c)"
  using assms by (induction cs arbitrary: ms) auto

lemma set_appendAllowedMethods:
  "set (appendAllowedMethods parts n ms) = set ms \<union> {m. node_match parts n m vs \<noteq> None}"
proof (induction parts arbitrary: n ms vs)
  case Nil
  show ?case
    by (auto simp: set_appendHandlerMethods handler_methods matchLeaf_def Let_def split: option.splits)
next
  case (Cons part parts)
  have regex: "set (fold (\<lambda>c ms. if Segment_Match (nd_segment c) part
        then appendAllowedMethods parts c ms else ms) cs ms) =
      set ms \<union> {m. matchRegexChildren (node_match parts) cs part m vs \<noteq> None}" for cs :: "'a Node list" and ms
    using set_fold_collect[of "appendAllowedMethods parts"
        "\<lambda>c. {m. node_match parts c m (vs @ [unescapeCapture part]) \<noteq> None}", OF Cons.IH]
    by (auto simp: matchRegexChildren_eq_None)
  have child: "set (case oc of None \<Rightarrow> ms | Some c \<Rightarrow> appendAllowedMethods parts c ms) =
      set ms \<union> {m. (case oc of None \<Rightarrow> None | Some c \<Rightarrow> node_match parts c m vs') \<noteq> None}"
    for oc :: "'a Node option" and ms vs'
    using Cons.IH[of _ _ vs'] by (simp split: option.splits)
  have wild: "set (case wildcardChild n of None \<Rightarrow> ms | Some w \<Rightarrow> appendHandlerMethods w ms) =
      set ms \<union> {m. matchWildcard n (part # parts) m vs \<noteq> None}" for ms
    by (auto simp: set_appendHandlerMethods handler_methods matchWildcard_def split: option.splits)
  let ?s = "case map_of (staticChildren n) part of None \<Rightarrow> ms | Some c \<Rightarrow> appendAllowedMethods parts c ms"
  let ?r = "fold (\<lambda>c ms. if Segment_Match (nd_segment c) part
      then appendAllowedMethods parts c ms else ms) (regexChildren n) ?s"
  let ?p = "case paramChild n of None \<Rightarrow> ?r | Some c \<Rightarrow> appendAllowedMethods parts c ?r"
  have "set ?s = set ms \<union> {m. matchStatic (node_match parts) n part m vs \<noteq> None}"
    unfolding matchStatic_def by (rule child)
  then have "set ?r = set ms \<union> {m. matchStatic (node_match parts) n part m vs \<noteq> None}
      \<union> {m. matchRegex (node_match parts) n part m vs \<noteq> None}"
    unfolding regex matchRegex_def by blast
  then have "set ?p = set ms \<union> {m. matchStatic (node_match parts) n part m vs \<noteq> None}
      \<union> {m. matchRegex (node_match parts) n part m vs \<noteq> None}
      \<union> {m. matchParam (node_match parts) n part m vs \<noteq> None}"
    unfolding child[where vs' = "vs @ [unescapeCapture part]"] matchParam_def by blast
  with wild[of ?p] show ?case
    unfolding appendAllowedMethods.simps node_match.simps Let_def by (auto split: option.splits)
qed

lemma distinct_case_option:
  "distinct ms \<Longrightarrow> (\<And>c. distinct (g c ms)) \<Longrightarrow> distinct (case oc of None \<Rightarrow> ms | Some c \<Rightarrow> g c ms)"
  by (cases oc) auto

lemma distinct_appendAllowedMethods: "distinct ms \<Longrightarrow> distinct (appendAllowedMethods parts n ms)"
proof (induction parts arbitrary: n ms)
  case Nil
  then show ?case
    by (auto simp: Let_def intro!: distinct_case_option distinct_appendHandlerMethods)
next
  case (Cons part parts)
  show ?case
    unfolding appendAllowedMethods.simps Let_def
    by (intro distinct_case_option distinct_appendHandlerMethods Cons.IH Cons.prems
        fold_invariant_simple[where P = distinct]) (auto intro: Cons.IH)
qed

lemma AllowedMethods_iff: "m \<in> set (AllowedMethods t path) \<longleftrightarrow> matchLazy t m path \<noteq> None"
  using set_appendAllowedMethods[of _ "tr_root t" "[]" "[]"]
  by (auto simp: AllowedMethods_def matchLazy_def Let_def set_appendHandlerMethods handler_methods
      split: option.splits)

subsection \<open>The compiled table of static routes\<close>

definition route_key :: "string \<Rightarrow> string list \<Rightarrow> string" where
  "route_key meth parts = meth @ '' '' @ CHR ''/'' # join_byte (CHR ''/'') parts"

definition static_route :: "'h Node \<Rightarrow> string \<Rightarrow> string \<Rightarrow> 'h MatchResult \<Rightarrow> bool" where
  "static_route n prefx key r \<longleftrightarrow>
     (\<exists>meth parts. parts \<noteq> [] \<and> key = meth @ '' '' @ prefx @ join_byte (CHR ''/'') parts \<and>
        route_at n (map EStatic parts) meth = Some r)"

lemma fold_table_Some:
  assumes "fold f xs m key = Some r"
    and "\<And>x m. x \<in> set xs \<Longrightarrow> f x m key = Some r \<Longrightarrow> m key = Some r \<or> Q x"
  shows "m key = Some r \<or> (\<exists>x \<in> set xs. Q x)"
  using assms
proof (induction xs arbitrary: m)
  case (Cons x xs)
  then have "f x m key = Some r \<or> (\<exists>x \<in> set xs. Q x)" by simp
  with Cons.prems(2)[of x m] show ?case by auto
qed simp

lemma fold_table_keeps:
  assumes "\<And>x m. x \<in> set xs \<Longrightarrow> m key \<noteq> None \<Longrightarrow> f x m key \<noteq> None" and "m key \<noteq> None"
  shows "fold f xs m key \<noteq> None"
  using assms by (induction xs arbitrary: m) (simp_all del: not_None_eq)

lemma fold_table_adds:
  assumes "\<And>x m. x \<in> set xs \<Longrightarrow> m key \<noteq> None \<Longrightarrow> f x m key \<noteq> None"
    and "x \<in> set xs" and "\<And>m. f x m key \<noteq> None"
  shows "fold f xs m key \<noteq> None"
proof -
  obtain ys zs where xs: "xs = ys @ x # zs" using assms(2) by (meson split_list)
  have "fold f zs (f x (fold f ys m)) key \<noteq> None"
    using assms(1,3) xs by (intro fold_table_keeps) auto
  with xs show ?thesis by simp
qed

lemma addHandlers_Some:
  assumes "addHandlers path hs m key = Some r" and "keys_distinct hs"
  shows "m key = Some r \<or> (\<exists>meth. key = meth @ '' '' @ path \<and> map_of hs meth = Some r)"
proof -
  have "m key = Some r \<or> (\<exists>x \<in> set hs. key = fst x @ '' '' @ path \<and> snd x = r)"
    using assms(1) unfolding addHandlers_def
    by (rule fold_table_Some) (auto split: if_splits prod.splits)
  with assms(2) show ?thesis by (auto simp: map_of_eq_Some_iff_distinct)
qed

lemma addHandlers_keeps: "m key \<noteq> None \<Longrightarrow> addHandlers path hs m key \<noteq> None"
  unfolding addHandlers_def by (rule fold_table_keeps) auto

lemma addHandlers_adds:
  "map_of hs meth \<noteq> None \<Longrightarrow> addHandlers path hs m (meth @ '' '' @ path) \<noteq> None"
proof -
  assume "map_of hs meth \<noteq> None"
  then obtain r where "(meth, r) \<in> set hs" by (auto dest: map_of_SomeD)
  then show ?thesis unfolding addHandlers_def by (rule fold_table_adds[rotated]) auto
qed

definition collect_step :: "string \<Rightarrow> string \<times> 'h Node \<Rightarrow> 'h route_table \<Rightarrow> 'h route_table" where
  "collect_step prefx x m =
     collectStaticRoutes (snd x) (prefx @ fst x @ ''/'')
       (if isLeaf (snd x) then addHandlers (prefx @ fst x) (handlers (snd x)) m else m)"

lemma collectStaticRoutes_fold:
  "collectStaticRoutes n prefx compiled = fold (collect_step prefx) (staticChildren n) compiled"
  by (cases n) (simp add: collect_step_def[abs_def] Let_def split_def)

lemma static_child_smaller: "x \<in> set (staticChildren n) \<Longrightarrow> size (snd x) < size n"
proof -
  have "x \<in> set xs \<Longrightarrow> size (snd x) < Suc (size_list (size_prod (\<lambda>_. 0) size) xs + m)"
    for xs :: "(string \<times> 'a Node) list" and m
    by (induction xs) auto
  then show "x \<in> set (staticChildren n) \<Longrightarrow> size (snd x) < size n"
    by (cases n) (simp add: add.assoc)
qed

lemma collectStaticRoutes_keeps:
  "compiled key \<noteq> None \<Longrightarrow> collectStaticRoutes n prefx compiled key \<noteq> None"
proof (induction "size n" arbitrary: n prefx compiled rule: less_induct)
  case less
  show ?case
    unfolding collectStaticRoutes_fold
  proof (rule fold_table_keeps)
    show "compiled key \<noteq> None" by (rule less.prems)
  next
    fix x and m :: "'a route_table"
    assume "x \<in> set (staticChildren n)" and "m key \<noteq> None"
    then show "collect_step prefx x m key \<noteq> None"
      unfolding collect_step_def
      by (intro less.hyps static_child_smaller) (auto simp: addHandlers_keeps simp del: not_None_eq)
  qed
qed

lemma collect_step_keeps: "m key \<noteq> None \<Longrightarrow> collect_step prefx x m key \<noteq> None"
  unfolding collect_step_def by (intro collectStaticRoutes_keeps) (simp add: addHandlers_keeps del: not_None_eq)

lemma static_child:
  assumes "node_wf compile n" and "x \<in> set (staticChildren n)"
  shows "child n (EStatic (fst x)) = Some (snd x)" and "node_wf compile (snd x)"
proof -
  from node_wf_local[OF assms(1)] assms(2) show "child n (EStatic (fst x)) = Some (snd x)"
    by (cases x) (simp add: local_wf_def map_of_eq_Some_iff_distinct)
  with assms(1) show "node_wf compile (snd x)" by (rule node_wf_child)
qed

lemma static_route_child:
  assumes "child n (EStatic v) = Some c" and "static_route c (prefx @ v @ ''/'') key r"
  shows "static_route n prefx key r"
proof -
  obtain meth parts where "parts \<noteq> []" "key = meth @ '' '' @ (prefx @ v @ ''/'') @ join_byte (CHR ''/'') parts"
    "route_at c (map EStatic parts) meth = Some r"
    using assms(2) unfolding static_route_def by blast
  with assms(1) show ?thesis
    unfolding static_route_def
    by (intro exI[of _ meth] exI[of _ "v # parts"]) (cases parts; auto simp: route_at_simps)
qed

lemma static_route_here:
  assumes "child n (EStatic v) = Some c" and "map_of (handlers c) meth = Some r"
  shows "static_route n prefx (meth @ '' '' @ prefx @ v) r"
  unfolding static_route_def using assms
  by (intro exI[of _ meth] exI[of _ "[v]"]) (auto simp: route_at_simps)

lemma collectStaticRoutes_sound:
  "node_wf compile n \<Longrightarrow> collectStaticRoutes n prefx compiled key = Some r \<Longrightarrow>
    compiled key = Some r \<or> static_route n prefx key r"
proof (induction "size n" arbitrary: n prefx compiled rule: less_induct)
  case less
  note child = static_child[OF less.prems(1)]
  have "compiled key = Some r \<or> (\<exists>x \<in> set (staticChildren n). static_route n prefx key r)"
    using less.prems(2) unfolding collectStaticRoutes_fold
  proof (rule fold_table_Some)
    fix x and m :: "'a route_table"
    assume x: "x \<in> set (staticChildren n)" and "collect_step prefx x m key = Some r"
    from less.hyps[OF static_child_smaller[OF x] child(2)[OF x] this(2)[unfolded collect_step_def]]
    consider "static_route (snd x) (prefx @ fst x @ ''/'') key r" | "m key = Some r"
      | "addHandlers (prefx @ fst x) (handlers (snd x)) m key = Some r"
      by (auto split: if_splits)
    then show "m key = Some r \<or> static_route n prefx key r"
    proof cases
      case 3
      have "keys_distinct (handlers (snd x))"
        using node_wf_local[OF child(2)[OF x]] by (simp add: local_wf_def)
      from addHandlers_Some[OF 3 this] show ?thesis
        using static_route_here[OF child(1)[OF x]] by auto
    qed (use static_route_child[OF child(1)[OF x]] in auto)
  qed
  then show ?case by blast
qed

lemma collectStaticRoutes_complete:
  "node_wf compile n \<Longrightarrow> parts \<noteq> [] \<Longrightarrow> route_at n (map EStatic parts) meth \<noteq> None \<Longrightarrow>
    collectStaticRoutes n prefx compiled (meth @ '' '' @ prefx @ join_byte (CHR ''/'') parts) \<noteq> None"
proof (induction parts arbitrary: n prefx compiled)
  case (Cons v parts)
  let ?key = "meth @ '' '' @ prefx @ join_byte (CHR ''/'') (v # parts)"
  obtain c where c: "child n (EStatic v) = Some c" and route: "route_at c (map EStatic parts) meth \<noteq> None"
    using Cons.prems(3) by (auto simp: route_at_simps simp del: not_None_eq split: option.splits)
  have wf: "node_wf compile c" using Cons.prems(1) c by (rule node_wf_child)
  have "collect_step prefx (v, c) m ?key \<noteq> None" for m
  proof (cases parts)
    case Nil
    with route have h: "map_of (handlers c) meth \<noteq> None" by (simp add: route_at_simps)
    with node_wf_local[OF wf] have "isLeaf c" by (auto simp: local_wf_def)
    with h Nil show ?thesis
      using addHandlers_adds[OF h, of "prefx @ v"]
      by (auto simp: collect_step_def simp del: not_None_eq intro!: collectStaticRoutes_keeps)
  next
    case (Cons w ws)
    with Cons.IH[OF wf _ route, of "prefx @ v @ ''/''"] show ?thesis
      by (auto simp: collect_step_def simp del: not_None_eq)
  qed
  moreover have "(v, c) \<in> set (staticChildren n)" using c by (auto dest: map_of_SomeD)
  ultimately show ?case
    unfolding collectStaticRoutes_fold
    by (intro fold_table_adds[where x = "(v, c)" and f = "collect_step prefx"])
      (rule collect_step_keeps)
qed simp

lemma prefix_free_append:
  "c \<notin> set xs \<Longrightarrow> c \<notin> set ys \<Longrightarrow> xs @ c # us = ys @ c # vs \<longleftrightarrow> xs = ys \<and> us = vs"
proof (induction xs arbitrary: ys)
  case (Cons x xs)
  then show ?case by (cases ys) auto
qed (auto simp: Cons_eq_append_conv)

text \<open>Methods that appear in the tree and hold no blank make the keys of the table unambiguous.\<close>

definition blank_free :: "'h Node \<Rightarrow> bool" where
  "blank_free n \<longleftrightarrow> (\<forall>es meth. route_at n es meth \<noteq> None \<longrightarrow> CHR '' '' \<notin> set meth)"

lemma static_parts_free:
  "node_wf compile n \<Longrightarrow> route_at n (map EStatic parts) meth \<noteq> None \<Longrightarrow>
    \<forall>p \<in> set parts. p \<noteq> [] \<and> CHR ''/'' \<notin> set p"
proof (induction parts arbitrary: n)
  case (Cons v parts)
  then obtain c where c: "child n (EStatic v) = Some c" and "route_at c (map EStatic parts) meth \<noteq> None"
    by (auto simp: route_at_simps simp del: not_None_eq split: option.splits)
  with Cons.IH[OF node_wf_child[OF Cons.prems(1) c]] have "\<forall>p \<in> set parts. p \<noteq> [] \<and> CHR ''/'' \<notin> set p"
    by blast
  moreover have "v \<in> fst ` set (staticChildren n)" using c by (force dest: map_of_SomeD)
  ultimately show ?case using node_wf_local[OF Cons.prems(1)] by (auto simp: local_wf_def)
qed simp

lemma CompileStaticRoutes_sound:
  assumes "node_wf compile (tr_root t)" and "CompileStaticRoutes t key = Some r"
  shows "\<exists>meth parts. key = route_key meth parts \<and>
    route_at (tr_root t) (map EStatic parts) meth = Some r"
proof -
  have "keys_distinct (handlers (tr_root t))"
    using node_wf_local[OF assms(1)] by (simp add: local_wf_def)
  with collectStaticRoutes_sound[OF assms(1) assms(2)[unfolded CompileStaticRoutes_def]]
  consider "static_route (tr_root t) ''/'' key r"
    | meth where "key = meth @ '' '' @ ''/''" and "map_of (handlers (tr_root t)) meth = Some r"
    by (auto dest: addHandlers_Some)
  then show ?thesis
  proof cases
    case 1
    then show ?thesis unfolding static_route_def route_key_def by auto
  next
    case 2
    then show ?thesis
      by (intro exI[of _ meth] exI[of _ "[]"]) (simp add: route_key_def route_at_simps)
  qed
qed

lemma CompileStaticRoutes_complete:
  assumes "node_wf compile (tr_root t)" and "route_at (tr_root t) (map EStatic parts) meth \<noteq> None"
  shows "CompileStaticRoutes t (route_key meth parts) \<noteq> None"
proof (cases "parts = []")
  case True
  then have "map_of (handlers (tr_root t)) meth \<noteq> None" using assms(2) by (simp add: route_at_simps)
  then show ?thesis
    unfolding CompileStaticRoutes_def route_key_def True
    using addHandlers_adds[of "handlers (tr_root t)" meth "''/''"]
    by (intro collectStaticRoutes_keeps) (simp del: not_None_eq)
next
  case False
  show ?thesis
    unfolding CompileStaticRoutes_def route_key_def
    using collectStaticRoutes_complete[OF assms(1) False assms(2), of "''/''"] by simp
qed

lemma CompileStaticRoutes_route:
  assumes wf: "node_wf compile (tr_root t)" and free: "blank_free (tr_root t)"
    and meth: "CHR '' '' \<notin> set meth" and parts: "\<forall>p \<in> set parts. p \<noteq> [] \<and> CHR ''/'' \<notin> set p"
  shows "CompileStaticRoutes t (route_key meth parts) = route_at (tr_root t) (map EStatic parts) meth"
proof (cases "CompileStaticRoutes t (route_key meth parts)")
  case None
  with CompileStaticRoutes_complete[OF wf] show ?thesis by metis
next
  case (Some r)
  from CompileStaticRoutes_sound[OF wf this] obtain meth' parts' where
    key: "route_key meth parts = route_key meth' parts'"
    and route: "route_at (tr_root t) (map EStatic parts') meth' = Some r" by blast
  from route free have "CHR '' '' \<notin> set meth'" unfolding blank_free_def by (metis option.distinct(1))
  with key meth have "meth' = meth" and
    "CHR ''/'' # join_byte (CHR ''/'') parts = CHR ''/'' # join_byte (CHR ''/'') parts'"
    by (auto simp: route_key_def prefix_free_append)
  moreover have "\<forall>p \<in> set parts'. p \<noteq> [] \<and> CHR ''/'' \<notin> set p"
    using static_parts_free[OF wf] route by (metis option.distinct(1))
  ultimately have "parts' = parts" using parts path_parts_join by metis
  with \<open>meth' = meth\<close> Some route show ?thesis by simp
qed

lemma node_match_static:
  "route_at n (map EStatic parts) meth = Some r \<Longrightarrow>
    node_match parts n meth vs = Some (buildMatchResult r vs)"
proof (induction parts arbitrary: n)
  case Nil
  then show ?case by (simp add: matchLeaf_def route_at_simps)
next
  case (Cons v parts)
  then show ?case by (auto simp: route_at_simps matchStatic_def split: option.splits)
qed

lemma AllowedMethods_sorted: "sorted (AllowedMethods t path)" "distinct (AllowedMethods t path)"
  unfolding AllowedMethods_def Let_def
  by (simp_all add: distinct_appendAllowedMethods distinct_appendHandlerMethods)

end
