(* ===== verification/Route_Url.thy ===== *)
theory Route_Url
  imports Route_Spec
begin

text \<open>
  Building a URL from a route and matching it again: the two directions of
  \<open>router/segment.go\<close> and \<open>router/tree.go\<close> are inverse to each other on the
  parameters, with the percent-encoding of \<open>url.PathEscape\<close> in between.
\<close>

definition link_value :: "(string \<rightharpoonup> string) \<Rightarrow> Segment \<Rightarrow> string" where
  "link_value params seg = (case params (seg_Value seg) of None \<Rightarrow> [] | Some v \<Rightarrow> v)"

definition link_text :: "(string \<rightharpoonup> string) \<Rightarrow> Segment \<Rightarrow> string" where
  "link_text params seg =
     (if seg_Type seg = SegmentStatic then seg_Value seg else PathEscape (link_value params seg))"

definition link_names :: "Segment list \<Rightarrow> string set" where
  "link_names segs = set (map seg_Value (filter (\<lambda>s. seg_Type s \<noteq> SegmentStatic) segs))"

definition link_values :: "(string \<rightharpoonup> string) \<Rightarrow> Segment list \<Rightarrow> string list" where
  "link_values params segs = map (link_value params) (filter (\<lambda>s. seg_Type s \<noteq> SegmentStatic) segs)"

text \<open>
  The parameters fill a route: each has a non-empty value, a constrained one is accepted
  in its escaped form, and there is no wildcard.
\<close>

definition fills_segment :: "re_compiler \<Rightarrow> (string \<rightharpoonup> string) \<Rightarrow> Segment \<Rightarrow> bool" where
  "fills_segment compile params s \<longleftrightarrow> (case seg_Type s of
     SegmentStatic \<Rightarrow> True
   | SegmentParam \<Rightarrow> params (seg_Value s) \<noteq> None \<and> link_value params s \<noteq> []
   | SegmentRegex \<Rightarrow> params (seg_Value s) \<noteq> None \<and> link_value params s \<noteq> [] \<and>
       regex_accepts compile (seg_RawPattern s) (PathEscape (link_value params s))
   | SegmentWildcard \<Rightarrow> False)"

definition fills :: "re_compiler \<Rightarrow> (string \<rightharpoonup> string) \<Rightarrow> Segment list \<Rightarrow> bool" where
  "fills compile params segs \<longleftrightarrow> list_all (fills_segment compile params) segs"

lemma unescapeCapture_PathEscape [simp]: "unescapeCapture (PathEscape v) = v"
  by (simp add: unescapeCapture_def)

lemma fills_simps [simp]:
  "fills compile params []"
  "fills compile params (s # segs) \<longleftrightarrow> fills_segment compile params s \<and> fills compile params segs"
  by (simp_all add: fills_def)

lemma fills_segment_value:
  assumes "fills_segment compile params s" and "seg_Type s \<noteq> SegmentStatic"
  shows "params (seg_Value s) = Some (link_value params s)" and "link_value params s \<noteq> []"
    and "seg_Type s \<noteq> SegmentWildcard"
    and "seg_Type s = SegmentRegex \<Longrightarrow>
      regex_accepts compile (seg_RawPattern s) (PathEscape (link_value params s))"
  using assms by (cases "seg_Type s"; simp add: fills_segment_def link_value_def split: option.splits)+

lemma BuildPath_loop_fills:
  "fills compile params segs \<Longrightarrow>
    BuildPath_loop segs params = Inr (concat (map (\<lambda>s. CHR ''/'' # link_text params s) segs))"
proof (induction segs)
  case (Cons s segs)
  then show ?case
    using fills_segment_value[of compile params s]
    by (cases "seg_Type s") (simp_all add: link_text_def)
qed simp

lemma concat_slash_join:
  "ps \<noteq> [] \<Longrightarrow> concat (map (\<lambda>p. CHR ''/'' # f p) ps) = CHR ''/'' # join_byte (CHR ''/'') (map f ps)"
proof (induction ps)
  case (Cons p ps)
  then show ?case by (cases ps) auto
qed simp

lemma BuildPath_fills:
  "fills compile params segs \<Longrightarrow>
    BuildPath segs params = Inr (CHR ''/'' # join_byte (CHR ''/'') (map (link_text params) segs))"
  using BuildPath_loop_fills[of compile params segs] concat_slash_join[of segs "link_text params"]
  by (auto simp: BuildPath_def)

lemma link_text_part:
  assumes "fills compile params segs" and "\<forall>s \<in> set segs. segment_wf compile s" and "s \<in> set segs"
  shows "link_text params s \<noteq> [] \<and> CHR ''/'' \<notin> set (link_text params s)"
proof (cases "seg_Type s = SegmentStatic")
  case True
  from assms(2,3) have "segment_wf compile s" by blast
  with True show ?thesis by (simp add: segment_wf_def link_text_def)
next
  case False
  from assms(1,3) have "fills_segment compile params s" by (simp add: fills_def list_all_iff)
  from fills_segment_value(2)[OF this False] False show ?thesis by (simp add: link_text_def)
qed

lemma edges_match_link:
  "fills compile params segs \<Longrightarrow>
    edges_match compile (map edge_of segs) (map (link_text params) segs) (link_values params segs)"
proof (induction segs)
  case Nil
  then show ?case by (simp add: link_values_def)
next
  case (Cons s segs)
  then show ?case
    using fills_segment_value[of compile params s]
    by (cases "seg_Type s") (simp_all add: edge_of_def link_values_def link_text_def)
qed

lemma edges_match_vals_unique:
  "edges_match compile es parts vals \<Longrightarrow> edges_match compile es parts vals' \<Longrightarrow> vals = vals'"
proof (induction es arbitrary: parts vals vals')
  case (Cons e es)
  from Cons.prems show ?case
    by (cases e; cases parts; cases vals; cases vals') (auto dest: Cons.IH)
qed simp

lemma buildParams_link:
  "fills compile params segs \<Longrightarrow>
    buildParams_loop segs (link_values params segs) m name =
      (if name \<in> link_names segs then params name else m name)"
proof (induction segs arbitrary: m)
  case Nil
  then show ?case by (simp add: link_names_def)
next
  case (Cons s segs)
  then have s: "fills_segment compile params s" and IH: "\<And>m. buildParams_loop segs (link_values params segs) m name =
      (if name \<in> link_names segs then params name else m name)" by simp_all
  show ?case
  proof (cases "seg_Type s = SegmentStatic")
    case True
    then show ?thesis using IH by (auto simp: link_values_def link_names_def)
  next
    case False
    then have "link_names (s # segs) = insert (seg_Value s) (link_names segs)"
      and "link_values params (s # segs) = link_value params s # link_values params segs"
      by (auto simp: link_names_def link_values_def)
    with False fills_segment_value(1)[OF s False] show ?thesis by (simp add: IH)
  qed
qed

lemma BuildPath_finds:
  assumes "ParseSegments compile pattern = Inr segs" and "fills compile params segs"
    and "BuildPath segs params = Inr url" and "route_at n (map edge_of segs) meth = Some reg"
  shows "finds compile n (path_parts url) meth (link_values params segs) reg"
proof -
  have "\<forall>p \<in> set (map (link_text params) segs). p \<noteq> [] \<and> CHR ''/'' \<notin> set p"
    using link_text_part[OF assms(2)] ParseSegments_wf[OF assms(1)] by auto
  from path_parts_join[OF this] assms(3) BuildPath_fills[OF assms(2)]
  have "path_parts url = map (link_text params) segs" by simp
  with edges_match_link[OF assms(2)] assms(4) show ?thesis unfolding finds_def by auto
qed
end
