(* ===== verification/Route_Priority.thy ===== *)
theory Route_Priority
  imports Route_Spec
begin

text \<open>
  Which of several fitting routes the tree matcher returns: the first one in the order
  static, regex (in order of registration), parameter, wildcard, compared edge by edge
  from the root, with backtracking out of dead ends.
\<close>

definition rank :: "'h Node \<Rightarrow> edge \<Rightarrow> nat" where
  "rank n e = (case e of
     EStatic _ \<Rightarrow> 0
   | ERegex raw \<Rightarrow>
       Suc (length (takeWhile (\<lambda>c. seg_RawPattern (nd_segment c) \<noteq> raw) (regexChildren n)))
   | EParam \<Rightarrow> Suc (length (regexChildren n))
   | EWild \<Rightarrow> Suc (Suc (length (regexChildren n))))"

fun prefers :: "'h Node \<Rightarrow> edge list \<Rightarrow> edge list \<Rightarrow> bool" where
  "prefers n [] es' = (es' \<noteq> [])"
| "prefers n (e # es) [] = False"
| "prefers n (e # es) (e' # es') =
     (if e = e' then (case child n e of None \<Rightarrow> False | Some c \<Rightarrow> prefers c es es')
      else rank n e < rank n e')"

definition fitting :: "re_compiler \<Rightarrow> 'h Node \<Rightarrow> string list \<Rightarrow> string \<Rightarrow> edge list \<Rightarrow> bool" where
  "fitting compile n parts meth es \<longleftrightarrow>
     route_at n es meth \<noteq> None \<and> (\<exists>vals. edges_match compile es parts vals)"

definition best :: "re_compiler \<Rightarrow> 'h Node \<Rightarrow> string list \<Rightarrow> string \<Rightarrow> edge list \<Rightarrow> string list \<Rightarrow> 'h MatchResult \<Rightarrow> bool"
  where
  "best compile n parts meth es vals reg \<longleftrightarrow>
     route_at n es meth = Some reg \<and> edges_match compile es parts vals \<and>
     (\<forall>es'. fitting compile n parts meth es' \<longrightarrow> es' = es \<or> prefers n es es')"

lemma fitting_Cons:
  assumes "fitting compile n (part # parts) meth es"
  obtains e es' c where "es = e # es'" and "child n e = Some c" and
    "e = EWild \<and> es' = [] \<or> e \<noteq> EWild \<and> fitting compile c parts meth es'" and
    "\<And>v. e = EStatic v \<Longrightarrow> v = part" and
    "\<And>raw. e = ERegex raw \<Longrightarrow> regex_accepts compile raw part"
proof -
  obtain vals where vals: "edges_match compile es (part # parts) vals" and route: "route_at n es meth \<noteq> None"
    using assms unfolding fitting_def by blast
  then obtain e es' where es: "es = e # es'" by (cases es) auto
  with route obtain c where c: "child n e = Some c" and "route_at c es' meth \<noteq> None"
    by (auto simp: route_at_simps simp del: not_None_eq split: option.splits)
  moreover from vals es have "e \<noteq> EWild \<longrightarrow> (\<exists>xs. edges_match compile es' parts xs)"
    by (cases e) (auto split: list.splits)
  moreover from vals es have "e = EWild \<longrightarrow> es' = []" and "\<And>v. e = EStatic v \<Longrightarrow> v = part"
    and "\<And>raw. e = ERegex raw \<Longrightarrow> regex_accepts compile raw part"
    by (auto split: list.splits)
  ultimately show thesis using es by (intro that[of e es' c]) (auto simp: fitting_def)
qed

lemma not_fitting:
  assumes "node_wf compile c" and "node_match parts c meth vs = None"
  shows "\<not> fitting compile c parts meth es"
proof
  assume "fitting compile c parts meth es"
  then obtain vals reg where "finds compile c parts meth vals reg"
    unfolding fitting_def finds_def by blast
  with node_match_complete[OF assms(1)] assms(2) show False by blast
qed

lemma matchRegexChildren_first:
  "matchRegexChildren recur cs part meth vs = Some r \<Longrightarrow>
    \<exists>xs c ys. cs = xs @ c # ys \<and> Segment_Match (nd_segment c) part \<and>
      recur c meth (vs @ [unescapeCapture part]) = Some r \<and>
      (\<forall>x \<in> set xs. Segment_Match (nd_segment x) part \<longrightarrow>
        recur x meth (vs @ [unescapeCapture part]) = None)"
proof (induction cs)
  case (Cons c cs)
  show ?case
  proof (cases "Segment_Match (nd_segment c) part \<and> recur c meth (vs @ [unescapeCapture part]) \<noteq> None")
    case True
    with Cons.prems show ?thesis by (intro exI[of _ "[]"]) auto
  next
    case False
    with Cons obtain xs c' ys where "cs = xs @ c' # ys" "Segment_Match (nd_segment c') part"
      "recur c' meth (vs @ [unescapeCapture part]) = Some r"
      "\<forall>x \<in> set xs. Segment_Match (nd_segment x) part \<longrightarrow> recur x meth (vs @ [unescapeCapture part]) = None"
      by (auto split: if_splits)
    with False show ?thesis by (intro exI[of _ "c # xs"]) auto
  qed
qed simp

lemma best_child:
  assumes ch: "child n e = Some c" and best: "best compile c parts meth es vals reg" and "e \<noteq> EWild"
    and ext: "edges_match compile (e # es) (part # parts) (cap @ vals)"
    and others: "\<And>e' es' c'. fitting compile n (part # parts) meth (e' # es') \<Longrightarrow> e' \<noteq> e \<Longrightarrow>
      child n e' = Some c' \<Longrightarrow> rank n e < rank n e'"
  shows "best compile n (part # parts) meth (e # es) (cap @ vals) reg"
proof -
  have "es' = e # es \<or> prefers n (e # es) es'" if fit: "fitting compile n (part # parts) meth es'" for es'
    using fit
  proof (rule fitting_Cons)
    fix e' es'' c'
    assume es': "es' = e' # es''" "child n e' = Some c'"
      "e' = EWild \<and> es'' = [] \<or> e' \<noteq> EWild \<and> fitting compile c' parts meth es''"
    show ?thesis
    proof (cases "e' = e")
      case True
      with es' ch \<open>e \<noteq> EWild\<close> best show ?thesis by (auto simp: best_def)
    next
      case False
      with others[OF fit[unfolded es'(1)] False es'(2)] es' show ?thesis by auto
    qed
  qed
  with assms show ?thesis by (auto simp: best_def route_at_simps)
qed

lemma rank_regex:
  assumes "local_wf compile n" and "regexChildren n = xs @ c # ys"
  shows "rank n (ERegex (seg_RawPattern (nd_segment c))) = Suc (length xs)"
proof -
  have "distinct (map (\<lambda>c. seg_RawPattern (nd_segment c)) (xs @ c # ys))"
    using assms by (simp add: local_wf_def)
  then have "seg_RawPattern (nd_segment c) \<notin> (\<lambda>c. seg_RawPattern (nd_segment c)) ` set xs" by auto
  then have "seg_RawPattern (nd_segment x) \<noteq> seg_RawPattern (nd_segment c)" if "x \<in> set xs" for x
    using that by (metis image_eqI)
  then show ?thesis by (simp add: rank_def assms(2) takeWhile_tail)
qed

lemma static_dead:
  assumes "node_wf compile n" and "matchStatic (node_match parts) n part meth vs = None"
  shows "\<not> fitting compile n (part # parts) meth (EStatic v # es)"
proof
  assume "fitting compile n (part # parts) meth (EStatic v # es)"
  then show False
  proof (rule fitting_Cons)
    fix e es' c
    assume "EStatic v # es = e # es'" "child n e = Some c" "\<And>v. e = EStatic v \<Longrightarrow> v = part"
      "e = EWild \<and> es' = [] \<or> e \<noteq> EWild \<and> fitting compile c parts meth es'"
    with not_fitting[OF node_wf_child[OF assms(1), of "EStatic part" c]] assms(2) show False
      by (auto simp: matchStatic_def)
  qed
qed

lemma regex_dead:
  assumes wf: "node_wf compile n" and "child n (ERegex raw) = Some c"
    and "Segment_Match (nd_segment c) part \<Longrightarrow> node_match parts c meth vs = None"
  shows "\<not> fitting compile n (part # parts) meth (ERegex raw # es)"
proof
  assume "fitting compile n (part # parts) meth (ERegex raw # es)"
  then show False
  proof (rule fitting_Cons)
    fix e es' c'
    assume "ERegex raw # es = e # es'" "child n e = Some c'" "\<And>raw. e = ERegex raw \<Longrightarrow> regex_accepts compile raw part"
      "e = EWild \<and> es' = [] \<or> e \<noteq> EWild \<and> fitting compile c' parts meth es'"
    then have "c' = c" "regex_accepts compile raw part" "fitting compile c parts meth es'"
      using assms(2) by auto
    moreover have "c \<in> set (regexChildren n)" "seg_RawPattern (nd_segment c) = raw"
      using assms(2) by (auto simp: find_Some_iff)
    ultimately have "Segment_Match (nd_segment c) part"
      using regexChild_match[OF node_wf_local[OF wf]] by simp
    with assms(3) not_fitting[OF node_wf_child[OF wf assms(2)]] \<open>fitting compile c parts meth es'\<close>
    show False by blast
  qed
qed

lemma param_dead:
  assumes "node_wf compile n" and "matchParam (node_match parts) n part meth vs = None"
  shows "\<not> fitting compile n (part # parts) meth (EParam # es)"
proof
  assume "fitting compile n (part # parts) meth (EParam # es)"
  then show False
  proof (rule fitting_Cons)
    fix e es' c
    assume "EParam # es = e # es'" "child n e = Some c"
      "e = EWild \<and> es' = [] \<or> e \<noteq> EWild \<and> fitting compile c parts meth es'"
    with not_fitting[OF node_wf_child[OF assms(1), of EParam c]] assms(2) show False
      by (auto simp: matchParam_def)
  qed
qed

lemma regex_all_dead:
  assumes wf: "node_wf compile n" and "matchRegex (node_match parts) n part meth vs = None"
    and "child n (ERegex raw) = Some c"
  shows "\<not> fitting compile n (part # parts) meth (ERegex raw # es)"
proof (rule regex_dead[OF wf assms(3)])
  assume "Segment_Match (nd_segment c) part"
  moreover have "c \<in> set (regexChildren n)" using assms(3) by (auto simp: find_Some_iff)
  ultimately show "node_match parts c meth (vs @ [unescapeCapture part]) = None"
    using matchRegexChildren_None assms(2) unfolding matchRegex_def by metis
qed

lemma fitting_child: "fitting compile n parts meth (e # es) \<Longrightarrow> child n e \<noteq> None"
  by (auto simp: fitting_def route_at_simps split: option.splits)

lemma best_leaf:
  assumes "matchLeaf n meth vs = Some r"
  shows "\<exists>es vals reg. best compile n [] meth es vals reg \<and> r = buildMatchResult reg (vs @ vals)"
proof -
  have shape: "es = [] \<or> es = [EWild]" if "fitting compile n [] meth es" for es
    using that by (cases es; cases "hd es") (auto simp: fitting_def)
  show ?thesis
  proof (cases "map_of (handlers n) meth")
    case (Some reg)
    then have "best compile n [] meth [] [] reg" using shape by (auto simp: best_def route_at_simps)
    moreover have "r = buildMatchResult reg (vs @ [])" using Some assms by (simp add: matchLeaf_def)
    ultimately show ?thesis by blast
  next
    case None
    then obtain w reg where w: "wildcardChild n = Some w" "map_of (handlers w) meth = Some reg"
      and r: "r = buildMatchResult reg (vs @ [''''])"
      using assms by (auto simp: matchLeaf_def split: option.splits)
    have "\<not> fitting compile n [] meth []" using None by (simp add: fitting_def route_at_simps)
    with w shape have "best compile n [] meth [EWild] [''''] reg"
      by (auto simp: best_def route_at_simps)
    with r show ?thesis by blast
  qed
qed

definition matched :: "re_compiler \<Rightarrow> 'h Node \<Rightarrow> string list \<Rightarrow> string \<Rightarrow> string list \<Rightarrow> 'h MatchResult \<Rightarrow> bool"
  where
  "matched compile n parts meth vs r \<longleftrightarrow>
     (\<exists>es vals reg. best compile n parts meth es vals reg \<and> r = buildMatchResult reg (vs @ vals))"

lemma matched_child:
  assumes "child n e = Some c" and "e \<noteq> EWild" and "matched compile c parts meth (vs @ cap) r"
    and "\<And>es vals. edges_match compile es parts vals \<Longrightarrow>
      edges_match compile (e # es) (part # parts) (cap @ vals)"
    and "\<And>e' es' c'. fitting compile n (part # parts) meth (e' # es') \<Longrightarrow> e' \<noteq> e \<Longrightarrow>
      child n e' = Some c' \<Longrightarrow> rank n e < rank n e'"
  shows "matched compile n (part # parts) meth vs r"
proof -
  obtain es vals reg where b: "best compile c parts meth es vals reg"
    and r: "r = buildMatchResult reg ((vs @ cap) @ vals)"
    using assms(3) unfolding matched_def by blast
  then have ext: "edges_match compile (e # es) (part # parts) (cap @ vals)"
    using assms(4) by (simp add: best_def)
  have "best compile n (part # parts) meth (e # es) (cap @ vals) reg"
    by (rule best_child[OF assms(1) b assms(2) ext]) (rule assms(5))
  moreover have "r = buildMatchResult reg (vs @ cap @ vals)" using r by simp
  ultimately show ?thesis unfolding matched_def by blast
qed

lemma split_later:
  "xs @ c # ys = us @ d # ws \<Longrightarrow> d \<notin> set xs \<Longrightarrow> d \<noteq> c \<Longrightarrow> length xs < length us"
proof (induction xs arbitrary: us)
  case Nil
  then show ?case by (cases us) auto
next
  case (Cons x xs)
  then show ?case by (cases us) auto
qed

lemma static_first:
  assumes "fitting compile n (part # parts) meth (e # es)" and "e \<noteq> EStatic part"
  shows "rank n (EStatic part) < rank n e"
  using assms by (cases e) (auto simp: rank_def fitting_def)

lemma regex_first:
  assumes wf: "node_wf compile n" and static: "matchStatic (node_match parts) n part meth vs = None"
    and cs: "regexChildren n = xs @ c # ys"
    and dead: "\<And>x. x \<in> set xs \<Longrightarrow> Segment_Match (nd_segment x) part \<Longrightarrow>
      node_match parts x meth vs' = None"
    and fit: "fitting compile n (part # parts) meth (e # es)"
    and ch: "child n e = Some c'" and ne: "e \<noteq> ERegex (seg_RawPattern (nd_segment c))"
  shows "rank n (ERegex (seg_RawPattern (nd_segment c))) < rank n e"
proof (cases e)
  case (ERegex raw)
  have "c' \<in> set (regexChildren n)" using ch ERegex by (auto simp: find_Some_iff)
  then obtain us ws where us: "regexChildren n = us @ c' # ws" by (meson split_list)
  have raw: "seg_RawPattern (nd_segment c') = raw" using ch ERegex by (auto simp: find_Some_iff)
  then have "c' \<noteq> c" using ne ERegex by auto
  have "c' \<notin> set xs"
    using regex_dead[OF wf, of raw c'] ch ERegex fit dead by blast
  then have "length xs < length us" using split_later us cs \<open>c' \<noteq> c\<close> by metis
  moreover have "rank n e = Suc (length us)"
    using rank_regex[OF node_wf_local[OF wf] us] ERegex raw by simp
  ultimately show ?thesis using rank_regex[OF node_wf_local[OF wf] cs] by simp
qed (use static_dead[OF wf static] fit rank_regex[OF node_wf_local[OF wf] cs] cs in
    \<open>auto simp: rank_def\<close>)

lemma matched_regex:
  assumes wf: "node_wf compile n" and static: "matchStatic (node_match parts) n part meth vs = None"
    and r: "matchRegex (node_match parts) n part meth vs = Some r"
    and IH: "\<And>c. node_wf compile c \<Longrightarrow> node_match parts c meth (vs @ [unescapeCapture part]) = Some r \<Longrightarrow>
      matched compile c parts meth (vs @ [unescapeCapture part]) r"
  shows "matched compile n (part # parts) meth vs r"
proof -
  from matchRegexChildren_first[OF r[unfolded matchRegex_def]] obtain xs c ys where
    cs: "regexChildren n = xs @ c # ys" and acc: "Segment_Match (nd_segment c) part"
    and m: "node_match parts c meth (vs @ [unescapeCapture part]) = Some r"
    and dead: "\<And>x. x \<in> set xs \<Longrightarrow> Segment_Match (nd_segment x) part \<Longrightarrow>
      node_match parts x meth (vs @ [unescapeCapture part]) = None" by blast
  then have c: "c \<in> set (regexChildren n)" by simp
  note child = regexChild_child[OF node_wf_local[OF wf] c]
  show ?thesis
  proof (rule matched_child[OF child _ IH[OF node_wf_child[OF wf child] m]])
    show "edges_match compile (ERegex (seg_RawPattern (nd_segment c)) # es) (part # parts)
        ([unescapeCapture part] @ vals)" if "edges_match compile es parts vals" for es vals
      using that acc regexChild_match[OF node_wf_local[OF wf] c] by simp
  qed (use regex_first[OF wf static cs dead] in auto)
qed

lemma matched_param:
  assumes wf: "node_wf compile n" and static: "matchStatic (node_match parts) n part meth vs = None"
    and regex: "matchRegex (node_match parts) n part meth vs = None"
    and ch: "paramChild n = Some c" and m: "matched compile c parts meth (vs @ [unescapeCapture part]) r"
  shows "matched compile n (part # parts) meth vs r"
proof (rule matched_child[OF _ _ m])
  fix e es c'
  assume fit: "fitting compile n (part # parts) meth (e # es)" "e \<noteq> EParam" "child n e = Some c'"
  then show "rank n EParam < rank n e"
    using static_dead[OF wf static] regex_all_dead[OF wf regex] by (cases e) (auto simp: rank_def)
qed (use ch in auto)

lemma matched_wildcard:
  assumes wf: "node_wf compile n" and static: "matchStatic (node_match parts) n part meth vs = None"
    and regex: "matchRegex (node_match parts) n part meth vs = None"
    and param: "matchParam (node_match parts) n part meth vs = None"
    and r: "matchWildcard n (part # parts) meth vs = Some r"
  shows "matched compile n (part # parts) meth vs r"
proof -
  let ?vals = "[unescapeCapture (join_byte (CHR ''/'') (part # parts))]"
  obtain w reg where "wildcardChild n = Some w" "map_of (handlers w) meth = Some reg"
    and r': "r = buildMatchResult reg (vs @ ?vals)"
    using r by (auto simp: matchWildcard_def split: option.splits)
  moreover have "es = [EWild]" if fit: "fitting compile n (part # parts) meth es" for es
    using fit
  proof (rule fitting_Cons)
    fix e es' c
    assume "es = e # es'" "child n e = Some c"
      "e = EWild \<and> es' = [] \<or> e \<noteq> EWild \<and> fitting compile c parts meth es'"
    with fit show ?thesis
      using static_dead[OF wf static] regex_all_dead[OF wf regex] param_dead[OF wf param] by (cases e) auto
  qed
  ultimately have "best compile n (part # parts) meth [EWild] ?vals reg"
    by (auto simp: best_def route_at_simps)
  with r' show ?thesis unfolding matched_def by blast
qed

lemma node_match_best:
  "node_wf compile n \<Longrightarrow> node_match parts n meth vs = Some r \<Longrightarrow> matched compile n parts meth vs r"
proof (induction parts arbitrary: n vs)
  case Nil
  then show ?case using best_leaf unfolding matched_def by fastforce
next
  case (Cons part parts)
  note wf = Cons.prems(1) and node_match = Cons.prems(2)
  consider (static) c where "map_of (staticChildren n) part = Some c" "node_match parts c meth vs = Some r"
    | (regex) "matchStatic (node_match parts) n part meth vs = None"
      "matchRegex (node_match parts) n part meth vs = Some r"
    | (param) c where "matchStatic (node_match parts) n part meth vs = None"
      "matchRegex (node_match parts) n part meth vs = None" "paramChild n = Some c"
      "node_match parts c meth (vs @ [unescapeCapture part]) = Some r"
    | (wild) "matchStatic (node_match parts) n part meth vs = None"
      "matchRegex (node_match parts) n part meth vs = None"
      "matchParam (node_match parts) n part meth vs = None"
      "matchWildcard n (part # parts) meth vs = Some r"
    using node_match by (auto simp: matchStatic_def matchParam_def split: option.splits)
  then show ?case
  proof cases
    case static
    with Cons.IH[of c vs] node_wf_child[OF wf, of "EStatic part"] static_first show ?thesis
      by (intro matched_child[of n "EStatic part" c compile parts meth vs "[]"]) auto
  next
    case regex
    then show ?thesis using matched_regex[OF wf] Cons.IH by blast
  next
    case param
    with Cons.IH[of c] node_wf_child[OF wf, of EParam] matched_param[OF wf] show ?thesis by simp
  next
    case wild
    then show ?thesis by (rule matched_wildcard[OF wf])
  qed
qed

end
