(* ===== verification/Router.thy ===== *)
theory Router
  imports Route_Methods Route_Url Route_Priority
begin

text \<open>
  The router around the tree (\<open>router/velocity_router.go\<close>, \<open>router/group.go\<close>,
  \<open>router/resource.go\<close>, \<open>router/url.go\<close>) and the middleware pipeline it builds
  (\<open>pipeline/pipeline.go\<close>): groups and resources collect route definitions; the
  first request commits them to the tree, wrapped in their middleware; every later
  request is matched against the compiled table and the tree.

  A handler is a function on the request context that returns the changed context and
  an error. A group's parent pointer is the list of its ancestors, nearest first; a
  pointer to a group or to a route is the list of child indices that leads to it.
\<close>

subsection \<open>Pipelines\<close>

type_synonym ('t, 'r) Stage = "'t \<Rightarrow> ('t \<Rightarrow> 'r) \<Rightarrow> 'r"

record ('t, 'r) Pipeline =
  pl_passable :: 't
  pl_pipes :: "('t, 'r) Stage list"

definition Pipeline_Send :: "('t, 'r) Pipeline \<Rightarrow> 't \<Rightarrow> ('t, 'r) Pipeline" where
  "Pipeline_Send p passable = p\<lparr>pl_passable := passable\<rparr>"

definition Pipeline_Through :: "('t, 'r) Pipeline \<Rightarrow> ('t, 'r) Stage list \<Rightarrow> ('t, 'r) Pipeline" where
  "Pipeline_Through p stages = p\<lparr>pl_pipes := stages\<rparr>"

definition Pipeline_Add :: "('t, 'r) Pipeline \<Rightarrow> ('t, 'r) Stage list \<Rightarrow> ('t, 'r) Pipeline" where
  "Pipeline_Add p stages = p\<lparr>pl_pipes := pl_pipes p @ stages\<rparr>"

fun Build_loop :: "('t, 'r) Stage list \<Rightarrow> ('t \<Rightarrow> 'r) \<Rightarrow> 't \<Rightarrow> 'r" where
  "Build_loop [] h = h"
| "Build_loop (current # earlier) h = Build_loop earlier (\<lambda>passable. current passable h)"

definition Pipeline_Build :: "('t, 'r) Pipeline \<Rightarrow> ('t \<Rightarrow> 'r) \<Rightarrow> 't \<Rightarrow> 'r" where
  "Pipeline_Build p destination = Build_loop (rev (pl_pipes p)) destination"

definition Pipeline_Then :: "('t, 'r) Pipeline \<Rightarrow> ('t \<Rightarrow> 'r) \<Rightarrow> 'r" where
  "Pipeline_Then p destination = Pipeline_Build p destination (pl_passable p)"

subsection \<open>Handlers and middleware\<close>

record Request =
  rq_Method :: string
  rq_EscapedPath :: string

record Context = ctx_Request :: Request

datatype handler_error =
    HTTPError nat string "(string \<times> string) list"
  | OtherError string

type_synonym 'x HandlerFunc = "'x Context_scheme \<Rightarrow> 'x Context_scheme \<times> handler_error option"
type_synonym 'x MiddlewareFunc = "'x HandlerFunc \<Rightarrow> 'x HandlerFunc"

definition applyMiddlewareChain :: "'x HandlerFunc \<Rightarrow> 'x MiddlewareFunc list \<Rightarrow> 'x HandlerFunc" where
  "applyMiddlewareChain handler middlewares =
     (if middlewares = [] then handler
      else Pipeline_Build
        (Pipeline_Through \<lparr>pl_passable = undefined, pl_pipes = []\<rparr>
           (map (\<lambda>mw c next. mw (\<lambda>ctx. next ctx) c) middlewares))
        (\<lambda>ctx. handler ctx))"

subsection \<open>Route and group definitions\<close>

record 'x RouteDefinition =
  rd_Method :: string
  rd_Path :: string
  rd_Handler :: "'x HandlerFunc"
  rd_Middlewares :: "'x MiddlewareFunc list"
  rd_Name :: string

datatype 'x GroupDefinition =
  GroupDefinition (gd_prefix: string) (gd_middlewares: "'x MiddlewareFunc list")
    (gd_routes: "'x RouteDefinition list") (gd_children: "'x GroupDefinition list")

type_synonym 'x ancestors = "(string \<times> 'x MiddlewareFunc list) list"

definition NewGroupDefinition :: "string \<Rightarrow> 'x GroupDefinition" where
  "NewGroupDefinition prefx = GroupDefinition prefx [] [] []"

definition new_route :: "string \<Rightarrow> string \<Rightarrow> 'x HandlerFunc \<Rightarrow> 'x RouteDefinition" where
  "new_route meth path handler =
     \<lparr>rd_Method = meth, rd_Path = path, rd_Handler = handler, rd_Middlewares = [], rd_Name = []\<rparr>"

fun AddRoute :: "string \<Rightarrow> string \<Rightarrow> 'x HandlerFunc \<Rightarrow> 'x GroupDefinition \<Rightarrow> 'x GroupDefinition" where
  "AddRoute meth path handler (GroupDefinition p mws routes children) =
     GroupDefinition p mws (routes @ [new_route meth path handler]) children"

fun AddChild :: "string \<Rightarrow> 'x GroupDefinition \<Rightarrow> 'x GroupDefinition" where
  "AddChild prefx (GroupDefinition p mws routes children) =
     GroupDefinition p mws routes (children @ [NewGroupDefinition prefx])"

fun Group_Use :: "'x MiddlewareFunc list \<Rightarrow> 'x GroupDefinition \<Rightarrow> 'x GroupDefinition" where
  "Group_Use ms (GroupDefinition p mws routes children) = GroupDefinition p (mws @ ms) routes children"

fun FullPrefix :: "string \<Rightarrow> 'x ancestors \<Rightarrow> string" where
  "FullPrefix prefx [] = prefx"
| "FullPrefix prefx ((p, _) # ancestors) =
     (let parentPrefix = FullPrefix p ancestors in
      if parentPrefix = [] then prefx
      else if prefx = [] then parentPrefix
      else parentPrefix @ prefx)"

fun collectInheritedMiddlewares :: "'x ancestors \<Rightarrow> 'x MiddlewareFunc list" where
  "collectInheritedMiddlewares [] = []"
| "collectInheritedMiddlewares ((_, mws) # ancestors) = collectInheritedMiddlewares ancestors @ mws"

subsection \<open>Committing a group to the tree\<close>

type_synonym 'x RouteTree = "'x HandlerFunc Tree"

fun commitRoutes ::
  "re_compiler \<Rightarrow> string \<Rightarrow> 'x MiddlewareFunc list \<Rightarrow> 'x RouteDefinition list \<Rightarrow> 'x RouteTree \<Rightarrow>
   'x RouteTree \<times> route_error option" where
  "commitRoutes compile fullPrefix mws [] t = (t, None)"
| "commitRoutes compile fullPrefix mws (route # routes) t =
     (let fullPath = fullPrefix @ rd_Path route;
          allMiddlewares = mws @ rd_Middlewares route;
          finalHandler = applyMiddlewareChain (rd_Handler route) allMiddlewares
      in case InsertWithName compile t (rd_Method route) fullPath finalHandler (rd_Name route) of
           (t, Some e) \<Rightarrow> (t, Some e)
         | (t, None) \<Rightarrow> commitRoutes compile fullPrefix mws routes t)"

fun CommitToTree ::
  "re_compiler \<Rightarrow> 'x MiddlewareFunc list \<Rightarrow> 'x ancestors \<Rightarrow> 'x GroupDefinition \<Rightarrow> 'x RouteTree \<Rightarrow>
   'x RouteTree \<times> route_error option"
and commitChildren ::
  "re_compiler \<Rightarrow> 'x MiddlewareFunc list \<Rightarrow> 'x ancestors \<Rightarrow> 'x GroupDefinition list \<Rightarrow> 'x RouteTree \<Rightarrow>
   'x RouteTree \<times> route_error option" where
  "CommitToTree compile globalMiddlewares ancestors (GroupDefinition p mws routes children) t =
     (let inheritedMiddlewares = collectInheritedMiddlewares ancestors in
      case commitRoutes compile (FullPrefix p ancestors)
             (globalMiddlewares @ inheritedMiddlewares @ mws) routes t of
        (t, Some e) \<Rightarrow> (t, Some e)
      | (t, None) \<Rightarrow> commitChildren compile globalMiddlewares ((p, mws) # ancestors) children t)"
| "commitChildren compile globalMiddlewares ancestors [] t = (t, None)"
| "commitChildren compile globalMiddlewares ancestors (grp # children) t =
     (case CommitToTree compile globalMiddlewares ancestors grp t of
        (t, Some e) \<Rightarrow> (t, Some e)
      | (t, None) \<Rightarrow> commitChildren compile globalMiddlewares ancestors children t)"

subsection \<open>Resources\<close>

text \<open>
  A controller is what reflection finds on it: for a method name whether its signature
  is that of a handler, and the handler built from it.
\<close>

record ResourceConfig =
  rc_Action :: string
  rc_HasParam :: bool
  rc_HttpMethod :: string
  rc_PathSuffix :: string

type_synonym 'x controller = "string \<rightharpoonup> bool \<times> 'x HandlerFunc"

record 'x resourceWrapper =
  rw_path :: string
  rw_controller :: "'x controller"
  rw_methods :: "(string \<times> bool) list"
  rw_registered :: bool

definition resource_config :: "string \<Rightarrow> bool \<Rightarrow> string \<Rightarrow> string \<Rightarrow> ResourceConfig" where
  "resource_config action param verb sfx =
     \<lparr>rc_Action = action, rc_HasParam = param, rc_HttpMethod = verb, rc_PathSuffix = sfx\<rparr>"

definition DefaultResourceConfig :: "ResourceConfig list" where
  "DefaultResourceConfig =
     [resource_config ''Index'' False ''GET'' '''',
      resource_config ''Create'' False ''GET'' ''/create'',
      resource_config ''Store'' False ''POST'' '''',
      resource_config ''Show'' True ''GET'' ''/{id}'',
      resource_config ''Edit'' True ''GET'' ''/{id}/edit'',
      resource_config ''Update'' True ''PUT'' ''/{id}'',
      resource_config ''Update'' True ''PATCH'' ''/{id}'',
      resource_config ''Destroy'' True ''DELETE'' ''/{id}'']"

definition resource_enabled :: "(string \<times> bool) list \<Rightarrow> string \<Rightarrow> bool" where
  "resource_enabled methods action = (map_of methods (ToLower action) = Some True)"

definition registerResource ::
  "re_compiler \<Rightarrow> string \<Rightarrow> 'x controller \<Rightarrow> (string \<times> bool) list \<Rightarrow> 'x MiddlewareFunc list \<Rightarrow>
   ResourceConfig \<Rightarrow> 'x RouteTree \<Rightarrow> 'x RouteTree" where
  "registerResource compile basePath controller methods globalMiddlewares config t =
     (if \<not> resource_enabled methods (rc_Action config) then t
      else case controller (rc_Action config) of
             None \<Rightarrow> t
           | Some (valid, handler) \<Rightarrow>
               if \<not> valid then t
               else fst (Insert compile t (rc_HttpMethod config) (basePath @ rc_PathSuffix config)
                           (applyMiddlewareChain handler globalMiddlewares)))"

definition registerResourceRoutes ::
  "re_compiler \<Rightarrow> string \<Rightarrow> 'x controller \<Rightarrow> (string \<times> bool) list \<Rightarrow> 'x MiddlewareFunc list \<Rightarrow>
   'x RouteTree \<Rightarrow> 'x RouteTree" where
  "registerResourceRoutes compile basePath controller methods globalMiddlewares t =
     fold (registerResource compile basePath controller methods globalMiddlewares) DefaultResourceConfig t"

definition registerWithMiddlewares ::
  "re_compiler \<Rightarrow> 'x MiddlewareFunc list \<Rightarrow> 'x resourceWrapper \<Rightarrow> 'x RouteTree \<Rightarrow>
   'x resourceWrapper \<times> 'x RouteTree" where
  "registerWithMiddlewares compile middlewares rr t =
     (if rw_registered rr then (rr, t)
      else (rr\<lparr>rw_registered := True\<rparr>,
            registerResourceRoutes compile (rw_path rr) (rw_controller rr) (rw_methods rr) middlewares t))"

definition resource_methods :: "(string \<times> bool) list" where
  "resource_methods =
     map (\<lambda>m. (m, True)) [''index'', ''create'', ''store'', ''show'', ''edit'', ''update'', ''destroy'']"

definition resource_Only :: "string list \<Rightarrow> 'x resourceWrapper \<Rightarrow> 'x resourceWrapper" where
  "resource_Only methods rr =
     rr\<lparr>rw_methods := fold (\<lambda>m. AList.update m True) methods (map (\<lambda>(k, _). (k, False)) (rw_methods rr))\<rparr>"

definition resource_Except :: "string list \<Rightarrow> 'x resourceWrapper \<Rightarrow> 'x resourceWrapper" where
  "resource_Except methods rr =
     rr\<lparr>rw_methods := fold (\<lambda>m. AList.update m False) methods (rw_methods rr)\<rparr>"

subsection \<open>The router\<close>

record 'x Router =
  rt_tree :: "'x RouteTree"
  rt_prefix :: string
  rt_middlewares :: "'x MiddlewareFunc list"
  rt_namedRoutes :: "string \<rightharpoonup> 'x HandlerFunc MatchResult"
  rt_staticEnabled :: bool
  rt_staticFallbackOnly :: bool
  rt_compiledRoutes :: "'x HandlerFunc route_table option"
  rt_rootGroup :: "'x GroupDefinition"
  rt_resources :: "'x resourceWrapper list"
  rt_committed :: bool
  rt_frozen :: bool
  rt_unmatchedHandler :: "'x HandlerFunc option"
  rt_staticHandler :: "'x HandlerFunc option"

definition NewV2 :: "'x Router" where
  "NewV2 = \<lparr>rt_tree = NewTree, rt_prefix = [], rt_middlewares = [], rt_namedRoutes = Map.empty,
     rt_staticEnabled = False, rt_staticFallbackOnly = False, rt_compiledRoutes = None,
     rt_rootGroup = NewGroupDefinition [], rt_resources = [], rt_committed = False,
     rt_frozen = False, rt_unmatchedHandler = None, rt_staticHandler = None\<rparr>"

datatype registration_error = NilHandler string string | NilMiddleware nat

definition Router_buildPath :: "'x Router \<Rightarrow> string \<Rightarrow> string" where
  "Router_buildPath r path = (if rt_prefix r \<noteq> [] then rt_prefix r @ path else path)"

definition Router_addRoute ::
  "string \<Rightarrow> string \<Rightarrow> 'x HandlerFunc option \<Rightarrow> 'x Router \<Rightarrow> registration_error + 'x Router" where
  "Router_addRoute meth path handler r =
     (case handler of
        None \<Rightarrow> Inl (NilHandler meth path)
      | Some h \<Rightarrow> Inr (r\<lparr>rt_rootGroup := AddRoute meth (Router_buildPath r path) h (rt_rootGroup r)\<rparr>))"

fun Router_Match ::
  "string list \<Rightarrow> string \<Rightarrow> 'x HandlerFunc option \<Rightarrow> 'x Router \<Rightarrow> registration_error + 'x Router" where
  "Router_Match [] path handler r = Inr r"
| "Router_Match (meth # methods) path handler r =
     (case Router_addRoute meth path handler r of
        Inl e \<Rightarrow> Inl e | Inr r \<Rightarrow> Router_Match methods path handler r)"

definition Router_Group :: "string \<Rightarrow> 'x Router \<Rightarrow> 'x Router" where
  "Router_Group prefx r = r\<lparr>rt_rootGroup := AddChild prefx (rt_rootGroup r)\<rparr>"

fun checkMiddlewares :: "nat \<Rightarrow> 'x MiddlewareFunc option list \<Rightarrow> registration_error + 'x MiddlewareFunc list" where
  "checkMiddlewares i [] = Inr []"
| "checkMiddlewares i (None # _) = Inl (NilMiddleware i)"
| "checkMiddlewares i (Some mw # mws) =
     (case checkMiddlewares (Suc i) mws of Inl e \<Rightarrow> Inl e | Inr ms \<Rightarrow> Inr (mw # ms))"

definition Router_Use :: "'x MiddlewareFunc option list \<Rightarrow> 'x Router \<Rightarrow> registration_error + 'x Router" where
  "Router_Use mws r = (case checkMiddlewares 0 mws of
     Inl e \<Rightarrow> Inl e | Inr ms \<Rightarrow> Inr (r\<lparr>rt_middlewares := rt_middlewares r @ ms\<rparr>))"

definition Router_UseFirst :: "'x MiddlewareFunc option list \<Rightarrow> 'x Router \<Rightarrow> registration_error + 'x Router" where
  "Router_UseFirst mws r = (case checkMiddlewares 0 mws of
     Inl e \<Rightarrow> Inl e | Inr ms \<Rightarrow> Inr (r\<lparr>rt_middlewares := ms @ rt_middlewares r\<rparr>))"

definition Router_Prefix :: "string \<Rightarrow> 'x Router \<Rightarrow> 'x Router" where
  "Router_Prefix prefx r = r\<lparr>rt_prefix := prefx\<rparr>"

definition Router_Resource :: "string \<Rightarrow> 'x controller \<Rightarrow> 'x Router \<Rightarrow> 'x Router" where
  "Router_Resource path controller r =
     r\<lparr>rt_resources := rt_resources r @
        [\<lparr>rw_path = path, rw_controller = controller, rw_methods = resource_methods,
          rw_registered = False\<rparr>]\<rparr>"

subsection \<open>Group routers\<close>

type_synonym group_ref = "nat list"

primrec updateGroup ::
  "group_ref \<Rightarrow> ('x GroupDefinition \<Rightarrow> 'x GroupDefinition) \<Rightarrow> 'x GroupDefinition \<Rightarrow> 'x GroupDefinition" where
  "updateGroup [] f g = f g"
| "updateGroup (i # is) f g =
     (case g of GroupDefinition p mws routes children \<Rightarrow>
        GroupDefinition p mws routes
          (if i < length children then children[i := updateGroup is f (children ! i)] else children))"

primrec groupPrefix :: "group_ref \<Rightarrow> 'x ancestors \<Rightarrow> 'x GroupDefinition \<Rightarrow> string" where
  "groupPrefix [] ancestors g = FullPrefix (gd_prefix g) ancestors"
| "groupPrefix (i # is) ancestors g =
     (if i < length (gd_children g)
      then groupPrefix is ((gd_prefix g, gd_middlewares g) # ancestors) (gd_children g ! i)
      else [])"

definition group_addRoute ::
  "group_ref \<Rightarrow> string \<Rightarrow> string \<Rightarrow> 'x HandlerFunc option \<Rightarrow> 'x Router \<Rightarrow> registration_error + 'x Router" where
  "group_addRoute ref meth path handler r =
     (case handler of
        None \<Rightarrow> Inl (NilHandler meth path)
      | Some h \<Rightarrow> Inr (r\<lparr>rt_rootGroup := updateGroup ref (AddRoute meth path h) (rt_rootGroup r)\<rparr>))"

definition group_Group :: "group_ref \<Rightarrow> string \<Rightarrow> 'x Router \<Rightarrow> 'x Router" where
  "group_Group ref prefx r = r\<lparr>rt_rootGroup := updateGroup ref (AddChild prefx) (rt_rootGroup r)\<rparr>"

definition group_Use :: "group_ref \<Rightarrow> 'x MiddlewareFunc list \<Rightarrow> 'x Router \<Rightarrow> 'x Router" where
  "group_Use ref mws r = r\<lparr>rt_rootGroup := updateGroup ref (Group_Use mws) (rt_rootGroup r)\<rparr>"

definition group_Prefix :: "string \<Rightarrow> 'x Router \<Rightarrow> 'x Router" where
  "group_Prefix prefx r = r"

definition group_Resource :: "group_ref \<Rightarrow> string \<Rightarrow> 'x controller \<Rightarrow> 'x Router \<Rightarrow> 'x Router" where
  "group_Resource ref path controller r =
     Router_Resource (groupPrefix ref [] (rt_rootGroup r) @ path) controller r"

fun updateRoute ::
  "nat \<Rightarrow> ('x RouteDefinition \<Rightarrow> 'x RouteDefinition) \<Rightarrow> 'x GroupDefinition \<Rightarrow> 'x GroupDefinition" where
  "updateRoute i f (GroupDefinition p mws routes children) =
     GroupDefinition p mws (if i < length routes then routes[i := f (routes ! i)] else routes) children"

definition routeConfig_Name :: "group_ref \<Rightarrow> nat \<Rightarrow> string \<Rightarrow> 'x Router \<Rightarrow> 'x Router" where
  "routeConfig_Name ref i name r =
     r\<lparr>rt_rootGroup := updateGroup ref (updateRoute i (\<lambda>rd. rd\<lparr>rd_Name := name\<rparr>)) (rt_rootGroup r)\<rparr>"

definition routeConfig_Use :: "group_ref \<Rightarrow> nat \<Rightarrow> 'x MiddlewareFunc list \<Rightarrow> 'x Router \<Rightarrow> 'x Router" where
  "routeConfig_Use ref i mws r =
     r\<lparr>rt_rootGroup := updateGroup ref
        (updateRoute i (\<lambda>rd. rd\<lparr>rd_Middlewares := rd_Middlewares rd @ mws\<rparr>)) (rt_rootGroup r)\<rparr>"

subsection \<open>Requests no route serves\<close>

definition unmatchedHTTPError :: "string list \<Rightarrow> handler_error" where
  "unmatchedHTTPError allowed =
     (if allowed = [] then HTTPError 404 ''Not Found'' []
      else HTTPError 405 ''Method Not Allowed'' [(''Allow'', join_str '', '' allowed)])"

definition unmatchedError :: "'h Tree \<Rightarrow> Request \<Rightarrow> handler_error" where
  "unmatchedError t req =
     (let allowed = AllowedMethods t (rq_EscapedPath req);
          allowed = (if rq_Method req \<in> set allowed \<or> ''ANY'' \<in> set allowed then [] else allowed)
      in unmatchedHTTPError allowed)"

definition unmatchedTerminal :: "'x RouteTree \<Rightarrow> 'x HandlerFunc" where
  "unmatchedTerminal t = (\<lambda>c. (c, Some (unmatchedError t (ctx_Request c))))"

subsection \<open>Committing\<close>

text \<open>
  An error of the group commit is discarded, so an invalid pattern ends the commit of
  the groups but not of the router; a name registered twice is a panic and leaves the
  router uncommitted, with the tree changed up to that point. \<open>serveStatic\<close> stands for
  the file server.
\<close>

definition registerResources ::
  "re_compiler \<Rightarrow> 'x MiddlewareFunc list \<Rightarrow> 'x resourceWrapper list \<Rightarrow> 'x RouteTree \<Rightarrow>
   'x resourceWrapper list \<times> 'x RouteTree" where
  "registerResources compile middlewares resources t =
     fold (\<lambda>rr (acc, t). let (rr, t) = registerWithMiddlewares compile middlewares rr t in (acc @ [rr], t))
       resources ([], t)"

definition commitOnce :: "re_compiler \<Rightarrow> 'x HandlerFunc \<Rightarrow> 'x Router \<Rightarrow> 'x Router \<times> route_error option" where
  "commitOnce compile serveStatic r =
     (if rt_committed r then (r, None)
      else
        let (t, err) = CommitToTree compile (rt_middlewares r) [] (rt_rootGroup r) (rt_tree r) in
        case err of
          Some (NameRegistered name) \<Rightarrow> (r\<lparr>rt_tree := t\<rparr>, Some (NameRegistered name))
        | _ \<Rightarrow>
            let (resources, t) = registerResources compile (rt_middlewares r) (rt_resources r) t in
            (r\<lparr>rt_tree := t, rt_resources := resources, rt_namedRoutes := tr_namedRoutes t,
               rt_compiledRoutes := Some (CompileStaticRoutes t),
               rt_unmatchedHandler := Some (applyMiddlewareChain (unmatchedTerminal t) (rt_middlewares r)),
               rt_staticHandler := Some (applyMiddlewareChain serveStatic (rt_middlewares r)),
               rt_frozen := True, rt_committed := True\<rparr>, None))"

definition ClearCompiledRoutes :: "'x Router \<Rightarrow> 'x Router" where
  "ClearCompiledRoutes r = r\<lparr>rt_compiledRoutes := None\<rparr>"

definition ClearRoutes :: "'x Router \<Rightarrow> 'x Router" where
  "ClearRoutes r = r\<lparr>rt_committed := False, rt_tree := NewTree, rt_namedRoutes := Map.empty,
     rt_rootGroup := NewGroupDefinition [], rt_resources := [], rt_compiledRoutes := None,
     rt_unmatchedHandler := None, rt_staticHandler := None, rt_frozen := False\<rparr>"

subsection \<open>Serving a request\<close>

definition matchRoute :: "'x Router \<Rightarrow> Request \<Rightarrow> 'x HandlerFunc MatchResult option" where
  "matchRoute r req =
     (let path = rq_EscapedPath req;
          fast = (case rt_compiledRoutes r of
                    None \<Rightarrow> None
                  | Some compiled \<Rightarrow>
                      (case compiled (rq_Method req @ '' '' @ path) of
                         Some m \<Rightarrow> Some m
                       | None \<Rightarrow> compiled (''ANY '' @ path)))
      in case fast of
           Some m \<Rightarrow> Some m
         | None \<Rightarrow>
             (case matchLazy (rt_tree r) (rq_Method req) path of
                Some m \<Rightarrow> Some m
              | None \<Rightarrow> matchLazy (rt_tree r) ''ANY'' path))"

definition RouteURL :: "'x Router \<Rightarrow> string \<Rightarrow> (string \<rightharpoonup> string) \<Rightarrow> route_error + string" where
  "RouteURL r name params =
     (if \<not> rt_frozen r then Inl (RouteNotFound name)
      else case rt_namedRoutes r name of
             None \<Rightarrow> Inl (RouteNotFound name)
           | Some result \<Rightarrow> BuildPath (mr_segments result) params)"

datatype 'x dispatch = DispatchStatic | DispatchRoute "'x HandlerFunc MatchResult" | DispatchUnmatched

definition dispatchRequest :: "('x Router \<Rightarrow> Request \<Rightarrow> bool) \<Rightarrow> 'x Router \<Rightarrow> Request \<Rightarrow> 'x dispatch" where
  "dispatchRequest staticProbe r req =
     (if rt_staticEnabled r \<and> \<not> rt_staticFallbackOnly r \<and> staticProbe r req then DispatchStatic
      else case matchRoute r req of
             None \<Rightarrow>
               if rt_staticEnabled r \<and> rt_staticFallbackOnly r \<and> staticProbe r req then DispatchStatic
               else DispatchUnmatched
           | Some result \<Rightarrow> DispatchRoute result)"

end
