(* ===== verification/Router_Lemmas.thy ===== *)
theory Router_Lemmas
  imports Router
begin

text \<open>
  The router's lemmas: the middleware chain as a fold, a group commit as a sequence of
  insertions, and what a sequence of insertions leaves in the tree.
\<close>

subsection \<open>Chains\<close>

lemma Build_loop_append: "Build_loop (xs @ ys) h = Build_loop ys (Build_loop xs h)"
  by (induction xs arbitrary: h) auto

lemma applyMiddlewareChain_Nil [simp]: "applyMiddlewareChain h [] = h"
  by (simp add: applyMiddlewareChain_def)

lemma applyMiddlewareChain_Cons [simp]:
  "applyMiddlewareChain h (mw # mws) = mw (applyMiddlewareChain h mws)"
  by (auto simp: applyMiddlewareChain_def Pipeline_Through_def Pipeline_Build_def Build_loop_append)

lemma applyMiddlewareChain_foldr: "applyMiddlewareChain h mws = foldr (\<lambda>mw h. mw h) mws h"
  by (induction mws) auto

lemma applyMiddlewareChain_append:
  "applyMiddlewareChain h (as @ bs) = applyMiddlewareChain (applyMiddlewareChain h bs) as"
  by (simp add: applyMiddlewareChain_foldr)

subsection \<open>Sequences of insertions\<close>

type_synonym 'h registration = "string \<times> string \<times> 'h \<times> string"

fun insertAll :: "re_compiler \<Rightarrow> 'h registration list \<Rightarrow> 'h Tree \<Rightarrow> 'h Tree \<times> route_error option" where
  "insertAll compile [] t = (t, None)"
| "insertAll compile ((meth, path, handler, name) # regs) t =
     (case InsertWithName compile t meth path handler name of
        (t, Some e) \<Rightarrow> (t, Some e)
      | (t, None) \<Rightarrow> insertAll compile regs t)"

lemma insertAll_append:
  "insertAll compile (as @ bs) t =
    (case insertAll compile as t of (t, Some e) \<Rightarrow> (t, Some e) | (t, None) \<Rightarrow> insertAll compile bs t)"
  by (induction compile as t rule: insertAll.induct) (auto split: prod.splits option.splits)

primrec routes_of ::
  "string \<Rightarrow> 'x MiddlewareFunc list \<Rightarrow> 'x GroupDefinition \<Rightarrow> 'x HandlerFunc registration list" where
  "routes_of prefx outer (GroupDefinition p mws routes children) =
     map (\<lambda>rd. (rd_Method rd, (prefx @ p) @ rd_Path rd,
                applyMiddlewareChain (rd_Handler rd) (outer @ mws @ rd_Middlewares rd), rd_Name rd)) routes @
     concat (map (routes_of (prefx @ p) (outer @ mws)) children)"

lemma FullPrefix_concat: "FullPrefix p ancestors = concat (rev (map fst ancestors)) @ p"
  by (induction p ancestors rule: FullPrefix.induct) (auto simp: Let_def)

lemma collectInherited_concat: "collectInheritedMiddlewares ancestors = concat (rev (map snd ancestors))"
  by (induction ancestors rule: collectInheritedMiddlewares.induct) auto

lemma commitRoutes_insertAll:
  "commitRoutes compile fullPrefix mws routes t =
    insertAll compile (map (\<lambda>rd. (rd_Method rd, fullPrefix @ rd_Path rd,
      applyMiddlewareChain (rd_Handler rd) (mws @ rd_Middlewares rd), rd_Name rd)) routes) t"
  by (induction routes arbitrary: t) (auto simp: Let_def split: prod.splits option.splits)

lemma CommitToTree_insertAll:
  "CommitToTree compile globals ancestors g t =
     insertAll compile
       (routes_of (concat (rev (map fst ancestors))) (globals @ concat (rev (map snd ancestors))) g) t"
  "commitChildren compile globals ancestors gs t =
     insertAll compile
       (concat (map (routes_of (concat (rev (map fst ancestors)))
          (globals @ concat (rev (map snd ancestors)))) gs)) t"
proof (induction compile globals ancestors g t and compile globals ancestors gs t
    rule: CommitToTree_commitChildren.induct)
  case (1 compile globals ancestors p mws routes children t)
  then show ?case
    by (simp add: Let_def commitRoutes_insertAll FullPrefix_concat collectInherited_concat insertAll_append
        split: prod.splits option.splits)
next
  case (3 compile globals ancestors g gs t)
  then show ?case by (simp add: insertAll_append split: prod.splits option.splits)
qed simp

subsection \<open>What insertions leave in the tree\<close>

lemma InsertWithName_root:
  "tr_root (fst (InsertWithName compile t meth path handler name)) =
    (case ParseSegments compile path of
       Inl _ \<Rightarrow> tr_root t
     | Inr segs \<Rightarrow> insertAt segs meth (registered handler name path segs) (tr_root t))"
  by (auto simp: InsertWithName_def Let_def split: sum.splits)

lemma node_wf_InsertWithName:
  "node_wf compile (tr_root t) \<Longrightarrow>
    node_wf compile (tr_root (fst (InsertWithName compile t meth path handler name)))"
  by (auto simp: InsertWithName_root split: sum.splits intro!: node_wf_insertAt dest: ParseSegments_wf)

lemma insertAll_invariant:
  assumes "P t" and "\<And>t meth path handler name. (meth, path, handler, name) \<in> set regs \<Longrightarrow> P t \<Longrightarrow>
      P (fst (InsertWithName compile t meth path handler name))"
  shows "P (fst (insertAll compile regs t))"
  using assms
proof (induction compile regs t rule: insertAll.induct)
  case (2 compile meth path handler name regs t)
  obtain t' e where t': "InsertWithName compile t meth path handler name = (t', e)" by fastforce
  with "2.prems"(2)[OF _ "2.prems"(1), of meth path handler name] have "P t'" by simp
  with t' "2.IH"[OF t'[symmetric]] "2.prems"(2) show ?case by (cases e) auto
qed simp

lemma node_wf_NewTree: "node_wf compile (tr_root NewTree)"
  unfolding NewTree_def by (simp add: node_wf_newNode)

lemma node_wf_insertAll:
  "node_wf compile (tr_root t) \<Longrightarrow> node_wf compile (tr_root (fst (insertAll compile regs t)))"
  by (rule insertAll_invariant[where P = "\<lambda>t. node_wf compile (tr_root t)"])
    (auto intro: node_wf_InsertWithName)

definition all_routes :: "(string \<Rightarrow> 'h MatchResult \<Rightarrow> bool) \<Rightarrow> 'h Tree \<Rightarrow> bool" where
  "all_routes P t \<longleftrightarrow> (\<forall>es meth reg. route_at (tr_root t) es meth = Some reg \<longrightarrow> P meth reg)"

lemma all_routes_NewTree: "all_routes P NewTree"
  by (simp add: all_routes_def NewTree_def)

lemma all_routes_mono: "all_routes P t \<Longrightarrow> (\<And>meth reg. P meth reg \<Longrightarrow> Q meth reg) \<Longrightarrow> all_routes Q t"
  by (auto simp: all_routes_def)

lemma all_routes_InsertWithName:
  assumes "all_routes P t" and "\<And>segs. P meth (registered handler name path segs)"
  shows "all_routes P (fst (InsertWithName compile t meth path handler name))"
  using assms
  by (auto simp: all_routes_def InsertWithName_root route_at_insertAt split: sum.splits if_splits)

lemma all_routes_insertAll:
  assumes "all_routes P t"
    and "\<And>meth path handler name segs. (meth, path, handler, name) \<in> set regs \<Longrightarrow>
      P meth (registered handler name path segs)"
  shows "all_routes P (fst (insertAll compile regs t))"
  using assms by (intro insertAll_invariant[where P = "all_routes P"] all_routes_InsertWithName)

subsection \<open>Committing the router\<close>

definition wrapped :: "'x MiddlewareFunc list \<Rightarrow> 'x HandlerFunc \<Rightarrow> bool" where
  "wrapped globals h \<longleftrightarrow> (\<exists>inner. h = applyMiddlewareChain inner globals)"

lemma wrapped_chain: "wrapped globals (applyMiddlewareChain h (globals @ mws))"
  unfolding wrapped_def applyMiddlewareChain_append by blast

lemma routes_of_wrapped:
  "(meth, path, handler, name) \<in> set (routes_of prefx (globals @ mws) g) \<Longrightarrow> wrapped globals handler"
proof (induction g arbitrary: prefx mws)
  case (GroupDefinition p ms routes children)
  then show ?case
    using wrapped_chain[of globals] by (fastforce simp: append.assoc)
qed

lemma registerResource_invariant:
  assumes "P t" and "\<And>t meth path handler. P t \<Longrightarrow>
      P (fst (Insert compile t meth path (applyMiddlewareChain handler mws)))"
  shows "P (registerResource compile basePath controller methods mws config t)"
  using assms by (auto simp: registerResource_def split: option.splits)

lemma registerResources_invariant:
  assumes "P t" and "\<And>t meth path handler. P t \<Longrightarrow>
      P (fst (Insert compile t meth path (applyMiddlewareChain handler mws)))"
  shows "P (snd (registerResources compile mws resources t))"
proof -
  have "P (registerResourceRoutes compile basePath controller methods mws t)" if "P t"
    for basePath controller methods t
    unfolding registerResourceRoutes_def
    by (rule fold_invariant_simple[where P = P, OF that])
      (rule registerResource_invariant[where P = P and compile = compile and mws = mws, OF _ assms(2)])
  then have step: "P (snd (registerWithMiddlewares compile mws rr t))" if "P t" for rr t
    using that by (simp add: registerWithMiddlewares_def)
  have "P (snd (fold (\<lambda>rr (acc, t). let (rr, t) = registerWithMiddlewares compile mws rr t
      in (acc @ [rr], t)) resources (acc, t)))" if "P t" for acc t
    using that
  proof (induction resources arbitrary: acc t)
    case (Cons rr rest)
    then show ?case using step[OF Cons.prems, of rr] by (auto simp: split_def Let_def)
  qed simp
  with assms(1) show ?thesis unfolding registerResources_def by blast
qed

definition committed_tree :: "re_compiler \<Rightarrow> 'x Router \<Rightarrow> 'x RouteTree" where
  "committed_tree compile r =
     snd (registerResources compile (rt_middlewares r) (rt_resources r)
       (fst (insertAll compile (routes_of [] (rt_middlewares r) (rt_rootGroup r)) (rt_tree r))))"

lemma commitOnce_fields:
  assumes "commitOnce compile serveStatic r = (r', None)" and "\<not> rt_committed r"
  shows "rt_tree r' = committed_tree compile r"
    and "rt_namedRoutes r' = tr_namedRoutes (committed_tree compile r)"
    and "rt_compiledRoutes r' = Some (CompileStaticRoutes (committed_tree compile r))"
    and "rt_unmatchedHandler r' =
      Some (applyMiddlewareChain (unmatchedTerminal (committed_tree compile r)) (rt_middlewares r))"
    and "rt_staticHandler r' = Some (applyMiddlewareChain serveStatic (rt_middlewares r))"
    and "rt_frozen r'" and "rt_committed r'" and "rt_middlewares r' = rt_middlewares r"
  using assms
  by (auto simp: commitOnce_def committed_tree_def CommitToTree_insertAll Let_def split_def
      split: option.splits route_error.splits)

lemma committed_tree_invariant:
  assumes "P (rt_tree r)" and "\<And>t meth path handler name. P t \<Longrightarrow> wrapped (rt_middlewares r) handler \<Longrightarrow>
      P (fst (InsertWithName compile t meth path handler name))"
  shows "P (committed_tree compile r)"
  unfolding committed_tree_def
proof (rule registerResources_invariant[where P = P])
  show "P (fst (insertAll compile (routes_of [] (rt_middlewares r) (rt_rootGroup r)) (rt_tree r)))"
  proof (rule insertAll_invariant[where P = P, OF assms(1)])
    fix t meth path handler name
    assume "(meth, path, handler, name) \<in> set (routes_of [] (rt_middlewares r) (rt_rootGroup r))" and "P t"
    with assms(2) routes_of_wrapped[of meth path handler name "[]" "rt_middlewares r" "[]"]
    show "P (fst (InsertWithName compile t meth path handler name))" by simp
  qed
  show "P (fst (Insert compile t meth path (applyMiddlewareChain handler (rt_middlewares r))))"
    if "P t" for t meth path handler
    using that assms(2) wrapped_chain[of "rt_middlewares r" handler "[]"] by (simp add: Insert_def)
qed

lemma node_wf_committed_tree:
  "node_wf compile (tr_root (rt_tree r)) \<Longrightarrow> node_wf compile (tr_root (committed_tree compile r))"
  by (rule committed_tree_invariant[where P = "\<lambda>t. node_wf compile (tr_root t)"])
    (auto intro: node_wf_InsertWithName)

lemma wrapped_committed_tree:
  assumes "all_routes (\<lambda>_ reg. wrapped (rt_middlewares r) (mr_Handler reg)) (rt_tree r)"
  shows "all_routes (\<lambda>_ reg. wrapped (rt_middlewares r) (mr_Handler reg)) (committed_tree compile r)"
  using assms
  by (rule committed_tree_invariant) (auto intro!: all_routes_InsertWithName simp: registered_def)

subsection \<open>Matching in the router\<close>

lemma mr_Handler_buildMatchResult [simp]: "mr_Handler (buildMatchResult reg vals) = mr_Handler reg"
  by (simp add: buildMatchResult_def)

lemma matchLazy_route:
  assumes "node_wf compile (tr_root t)" and "matchLazy t meth path = Some r"
  shows "\<exists>es reg vals. route_at (tr_root t) es meth = Some reg \<and> r = buildMatchResult reg vals"
proof (cases "path_parts path = []")
  case True
  with assms(2) show ?thesis
    by (auto simp: matchLazy_path_parts route_at_simps split: option.splits intro!: exI[of _ "[]"])
next
  case False
  with assms node_match_sound[OF assms(1)] show ?thesis
    unfolding matchLazy_path_parts finds_def by fastforce
qed

lemma matchRoute_route:
  assumes "node_wf compile (tr_root (rt_tree r))"
    and "rt_compiledRoutes r = None \<or> rt_compiledRoutes r = Some (CompileStaticRoutes (rt_tree r))"
    and "matchRoute r req = Some m"
  shows "\<exists>es meth reg. route_at (tr_root (rt_tree r)) es meth = Some reg \<and> mr_Handler m = mr_Handler reg"
proof -
  consider (tree) meth where "matchLazy (rt_tree r) meth (rq_EscapedPath req) = Some m"
    | (table) key where "CompileStaticRoutes (rt_tree r) key = Some m"
    using assms(2,3) by (auto simp: matchRoute_def Let_def split: option.splits)
  then show ?thesis
  proof cases
    case tree
    from matchLazy_route[OF assms(1) this] show ?thesis by fastforce
  next
    case table
    from CompileStaticRoutes_sound[OF assms(1) this] show ?thesis by blast
  qed
qed

definition clean_path :: "string \<Rightarrow> bool" where
  "clean_path path \<longleftrightarrow> path = CHR ''/'' # join_byte (CHR ''/'') (path_parts path)"

definition served :: "'h MatchResult \<Rightarrow> 'h \<times> string \<times> string \<times> (string \<rightharpoonup> string)" where
  "served m = (mr_Handler m, mr_Name m, mr_Path m, paramMap m)"

definition tree_match :: "'h Tree \<Rightarrow> Request \<Rightarrow> 'h MatchResult option" where
  "tree_match t req =
     (case matchLazy t (rq_Method req) (rq_EscapedPath req) of
        Some m \<Rightarrow> Some m | None \<Rightarrow> matchLazy t ''ANY'' (rq_EscapedPath req))"

definition shadowed_by_any :: "'h Tree \<Rightarrow> Request \<Rightarrow> bool" where
  "shadowed_by_any t req \<longleftrightarrow>
     (let parts = map EStatic (path_parts (rq_EscapedPath req)) in
      route_at (tr_root t) parts ''ANY'' \<noteq> None \<and> route_at (tr_root t) parts (rq_Method req) = None \<and>
      matchLazy t (rq_Method req) (rq_EscapedPath req) \<noteq> None)"

lemma CompileStaticRoutes_clean:
  assumes "node_wf compile (tr_root t)" and "all_routes (\<lambda>meth _. CHR '' '' \<notin> set meth) t"
    and "CHR '' '' \<notin> set meth" and "clean_path path"
  shows "CompileStaticRoutes t (meth @ '' '' @ path) =
    route_at (tr_root t) (map EStatic (path_parts path)) meth"
proof -
  have "blank_free (tr_root t)" using assms(2) by (auto simp: blank_free_def all_routes_def)
  from CompileStaticRoutes_route[OF assms(1) this assms(3), of "path_parts path"] path_parts_nonempty
  have "CompileStaticRoutes t (route_key meth (path_parts path)) =
      route_at (tr_root t) (map EStatic (path_parts path)) meth" by blast
  then show ?thesis using assms(4) unfolding route_key_def clean_path_def by simp
qed

lemma matchLazy_static:
  assumes "route_at (tr_root t) (map EStatic (path_parts path)) meth = Some reg"
  shows "matchLazy t meth path = Some (buildMatchResult reg [])"
  using assms node_match_static[OF assms, of "[]"]
  by (cases "path_parts path = []") (simp_all add: matchLazy_path_parts route_at_simps)

lemma buildParams_loop_Nil: "buildParams_loop segs [] m = m"
  by (induction segs arbitrary: m) auto

lemma served_static: "mr_matchedValues reg = [] \<Longrightarrow> served (buildMatchResult reg []) = served reg"
  by (simp add: served_def buildMatchResult_def paramMap_def)

end
