(* ===== verification/Router_Props.thy ===== *)
theory Router_Props
  imports Router_Lemmas
begin

text \<open>
  The properties of the router: what registration stores, which route a request gets,
  that the compiled table and the tree agree, that no response bypasses the global
  middleware, and that URLs built from a route lead back to it.
\<close>

subsection \<open>Registration and matching\<close>

text \<open>C1: in every tree built by registrations, in any order and whether or not one of them
  failed, matching a path below the root returns a route whose edges fit the path, with the
  captured values, and no other fitting route is preferred over it (static before regex
  before parameter before wildcard, from the root down); it finds nothing only when no
  registered route fits. The root path is served by the root's own handlers only.\<close>

theorem matchLazy_best:
  "let t = fst (insertAll compile regs NewTree) in
   if path_parts path = []
   then matchLazy t meth path = map_option (\<lambda>reg. buildMatchResult reg []) (route_at (tr_root t) [] meth)
   else (case matchLazy t meth path of
           Some r \<Rightarrow> matched compile (tr_root t) (path_parts path) meth [] r
         | None \<Rightarrow> (\<nexists>es. fitting compile (tr_root t) (path_parts path) meth es))"
proof -
  have wf: "node_wf compile (tr_root (fst (insertAll compile regs NewTree)))"
    by (intro node_wf_insertAll node_wf_NewTree)
  show ?thesis
    using node_match_best[OF wf] not_fitting[OF wf]
    by (auto simp: Let_def matchLazy_path_parts route_at_simps split: option.splits)
qed

text \<open>C3: registering a pattern that parses stores its handler under exactly the pattern's
  edges and method, over any earlier one there, and changes no other route of the tree; a
  pattern that does not parse changes nothing.\<close>

theorem InsertWithName_lookup:
  "route_at (tr_root (fst (InsertWithName compile t meth path handler name))) es meth' =
    (case ParseSegments compile path of
       Inl _ \<Rightarrow> route_at (tr_root t) es meth'
     | Inr segs \<Rightarrow>
         if es = map edge_of segs \<and> meth' = meth
         then Some (registered handler name path segs)
         else route_at (tr_root t) es meth')"
  by (simp add: InsertWithName_root route_at_insertAt split: sum.splits)

text \<open>Every tree built by registrations is well formed: at each node the static children
  are keyed by distinct non-empty parts without slashes, the regex children have distinct
  patterns compiled between anchors, and a node is a leaf exactly when it has handlers.\<close>

theorem registered_tree_wf: "node_wf compile (tr_root (fst (insertAll compile regs NewTree)))"
  by (intro node_wf_insertAll node_wf_NewTree)

text \<open>C19: the allowed methods of a path are exactly the methods under which matching the path
  finds a route, each once and in byte order.\<close>

theorem AllowedMethods_exact:
  "set (AllowedMethods t path) = {m. matchLazy t m path \<noteq> None} \<and>
   distinct (AllowedMethods t path) \<and> sorted (AllowedMethods t path)"
proof (intro conjI)
  show "set (AllowedMethods t path) = {m. matchLazy t m path \<noteq> None}"
    using AllowedMethods_iff by blast
  show "distinct (AllowedMethods t path)" and "sorted (AllowedMethods t path)"
    unfolding AllowedMethods_def Let_def
    by (simp_all add: distinct_appendAllowedMethods distinct_appendHandlerMethods)
qed

subsection \<open>Names and URLs\<close>

text \<open>A route name is never taken over: a registration under a name in use reports it and
  leaves all names as they are, and any other registration keeps every existing name.\<close>

theorem InsertWithName_names:
  "case InsertWithName compile t meth path handler name of
     (t', err) \<Rightarrow>
       tr_namedRoutes t \<subseteq>\<^sub>m tr_namedRoutes t' \<and>
       (if err = None \<and> name \<noteq> []
        then tr_namedRoutes t name = None \<and>
          (\<exists>segs. ParseSegments compile path = Inr segs \<and>
             tr_namedRoutes t' = (tr_namedRoutes t)(name \<mapsto> registered handler name path segs))
        else tr_namedRoutes t' = tr_namedRoutes t)"
  by (auto simp: InsertWithName_def Let_def map_le_def split: sum.splits)



subsection \<open>Middleware\<close>

text \<open>The handler the pipeline compiles runs the middleware outermost first: the chain is
  the nesting of the middleware in list order around the handler.\<close>

theorem applyMiddlewareChain_order:
  "applyMiddlewareChain handler middlewares = foldr (\<lambda>mw h. mw h) middlewares handler"
  by (rule applyMiddlewareChain_foldr)

text \<open>C22: committing a tree of groups is the same as registering its routes one by one, parents
  before children, each under the concatenation of the prefixes from the root group down and
  wrapped in the global middleware, then that of the groups from the root down, then its own;
  the first route that fails ends the commit.\<close>

theorem CommitToTree_refines:
  "CommitToTree compile globals [] g t = insertAll compile (routes_of [] globals g) t"
  by (simp add: CommitToTree_insertAll)

text \<open>C2: no response bypasses the global middleware: once a router is committed, whatever a
  request is dispatched to (a matched route, a static file, the 404 or 405 answer) is a
  handler wrapped in all of the global middleware.\<close>

theorem dispatch_wrapped:
  assumes "rt_tree r = NewTree" and "\<not> rt_committed r"
    and "commitOnce compile serveStatic r = (r', None)"
  shows "case dispatchRequest staticProbe r' req of
      DispatchRoute m \<Rightarrow> wrapped (rt_middlewares r) (mr_Handler m)
    | DispatchStatic \<Rightarrow> (\<exists>h. rt_staticHandler r' = Some h \<and> wrapped (rt_middlewares r) h)
    | DispatchUnmatched \<Rightarrow> (\<exists>h. rt_unmatchedHandler r' = Some h \<and> wrapped (rt_middlewares r) h)"
proof -
  note fields = commitOnce_fields[OF assms(3,2)]
  have wf: "node_wf compile (tr_root (rt_tree r'))"
    using assms(1) fields(1) by (simp add: node_wf_committed_tree node_wf_NewTree)
  have "all_routes (\<lambda>_ reg. wrapped (rt_middlewares r) (mr_Handler reg)) (rt_tree r')"
    unfolding fields(1) by (rule wrapped_committed_tree) (simp add: assms(1) all_routes_NewTree)
  then have "wrapped (rt_middlewares r) (mr_Handler m)" if "matchRoute r' req = Some m" for m
    using matchRoute_route[OF wf _ that] fields(1,3) by (auto simp: all_routes_def)
  moreover have "wrapped (rt_middlewares r) (applyMiddlewareChain h (rt_middlewares r))" for h
    using wrapped_chain[of "rt_middlewares r" h "[]"] by simp
  ultimately show ?thesis
    using fields(4,5) by (auto simp: dispatchRequest_def split: option.splits)
qed

definition demo_middleware :: "unit MiddlewareFunc" where
  "demo_middleware next c = (if rq_Method (ctx_Request c) = ''TRACE'' then (c, Some (OtherError ''denied'')) else next c)"

definition demo_router :: "unit Router" where
  "demo_router = NewV2\<lparr>rt_middlewares := [demo_middleware],
     rt_rootGroup := AddRoute ''GET'' ''/a'' (\<lambda>c. (c, None)) (NewGroupDefinition [])\<rparr>"

definition demo_committed :: "unit Router" where
  "demo_committed = fst (commitOnce (\<lambda>_. None) (\<lambda>c. (c, None)) demo_router)"

definition demo_request :: Request where
  "demo_request = \<lparr>rq_Method = ''GET'', rq_EscapedPath = ''/a''\<rparr>"

lemma demo_fresh:
  "rt_tree demo_router = NewTree" "\<not> rt_committed demo_router"
  "rt_middlewares demo_router = [demo_middleware]" "rt_resources demo_router = []"
  "rt_rootGroup demo_router = AddRoute ''GET'' ''/a'' (\<lambda>c. (c, None)) (NewGroupDefinition [])"
  by (simp_all add: demo_router_def NewV2_def)

lemma demo_commit: "commitOnce (\<lambda>_. None) (\<lambda>c. (c, None)) demo_router = (demo_committed, None)"
  unfolding demo_committed_def
  by (simp add: commitOnce_def demo_router_def NewV2_def NewGroupDefinition_def new_route_def
      InsertWithName_def ParseSegments_def trim_byte_def parseSegment_def has_prefix_def split_def Let_def)

lemma demo_tree:
  "rt_tree demo_committed =
    fst (insertAll (\<lambda>_. None) [(''GET'', ''/a'', demo_middleware (\<lambda>c. (c, None)), [])] NewTree)"
  using commitOnce_fields(1)[OF demo_commit] demo_fresh
  by (simp add: committed_tree_def registerResources_def NewGroupDefinition_def new_route_def)

lemma demo_match_tree: "matchLazy (rt_tree demo_committed) ''GET'' ''/a'' \<noteq> None"
  by (simp add: demo_tree InsertWithName_def ParseSegments_def trim_byte_def parseSegment_def has_prefix_def
      matchLazy_def appendPathParts_def matchStatic_def matchLeaf_def NewTree_def newNode_def
      segment_simps Let_def)

lemma demo_match: "matchRoute demo_committed demo_request \<noteq> None"
  using demo_match_tree by (auto simp: matchRoute_def demo_request_def Let_def split: option.splits)

lemma demo_wf: "node_wf (\<lambda>_. None) (tr_root (rt_tree demo_committed))"
  unfolding demo_tree by (intro node_wf_insertAll node_wf_NewTree)

lemma demo_path: "clean_path ''/a''"
  by (simp add: clean_path_def path_parts_def trim_byte_def appendPathParts_def)

lemma demo_methods: "all_routes (\<lambda>meth _. meth = ''GET'') (rt_tree demo_committed)"
  unfolding demo_tree by (rule all_routes_insertAll) (auto simp: all_routes_NewTree)

lemma demo_other_method:
  assumes "meth \<noteq> ''GET''"
  shows "matchLazy (rt_tree demo_committed) meth path = None"
proof (cases "matchLazy (rt_tree demo_committed) meth path")
  case (Some r)
  with matchLazy_route[OF demo_wf Some] demo_methods assms show ?thesis
    by (auto simp: all_routes_def)
qed

lemma demo_other_table:
  assumes "meth \<noteq> ''GET''" and "CHR '' '' \<notin> set meth"
  shows "CompileStaticRoutes (rt_tree demo_committed) (meth @ '' '' @ ''/a'') = None"
proof -
  have "all_routes (\<lambda>meth _. CHR '' '' \<notin> set meth) (rt_tree demo_committed)"
    using demo_methods by (rule all_routes_mono) simp
  from CompileStaticRoutes_clean[OF demo_wf this assms(2) demo_path] demo_methods assms(1)
  show ?thesis
    by (cases "route_at (tr_root (rt_tree demo_committed)) (map EStatic (path_parts ''/a'')) meth")
      (auto simp: all_routes_def)
qed

theorem dispatch_wrapped_witness:
  "\<exists>m. dispatchRequest (\<lambda>_ _. False) demo_committed demo_request = DispatchRoute m \<and>
     wrapped [demo_middleware] (mr_Handler m)"
proof -
  obtain m where m: "matchRoute demo_committed demo_request = Some m" using demo_match by blast
  then have "dispatchRequest (\<lambda>_ _. False) demo_committed demo_request = DispatchRoute m"
    by (simp add: dispatchRequest_def)
  with dispatch_wrapped[OF demo_fresh(1,2) demo_commit, of "\<lambda>_ _. False" demo_request]
  show ?thesis by (simp add: demo_fresh)
qed

subsection \<open>The compiled table and unmatched requests\<close>



text \<open>C18: a request the router matches to no route is answered 405 with an Allow header that
  lists, in order, exactly the methods the path is served under when there is one, and 404
  otherwise.\<close>

theorem unmatched_answer:
  assumes "matchRoute r req = None"
  shows "unmatchedError (rt_tree r) req =
    (let methods = {m. matchLazy (rt_tree r) m (rq_EscapedPath req) \<noteq> None} in
     if methods = {} then HTTPError 404 ''Not Found'' []
     else HTTPError 405 ''Method Not Allowed''
       [(''Allow'', join_str '', '' (sorted_list_of_set methods))])"
proof -
  let ?allowed = "AllowedMethods (rt_tree r) (rq_EscapedPath req)"
  have exact: "{m. matchLazy (rt_tree r) m (rq_EscapedPath req) \<noteq> None} = set ?allowed"
    using AllowedMethods_iff by blast
  have "matchLazy (rt_tree r) (rq_Method req) (rq_EscapedPath req) = None"
    and "matchLazy (rt_tree r) ''ANY'' (rq_EscapedPath req) = None"
    using assms by (auto simp: matchRoute_def Let_def split: option.splits)
  then have "rq_Method req \<notin> set ?allowed" and "''ANY'' \<notin> set ?allowed"
    by (simp_all add: AllowedMethods_iff)
  moreover have "sorted_list_of_set (set ?allowed) = ?allowed"
    using AllowedMethods_sorted by (intro sorted_list_of_set.idem_if_sorted_distinct)
  ultimately show ?thesis
    unfolding unmatchedError_def unmatchedHTTPError_def exact by (simp add: Let_def)
qed

theorem unmatched_answer_witness:
  "matchRoute demo_committed \<lparr>rq_Method = ''POST'', rq_EscapedPath = ''/a''\<rparr> = None \<and>
   unmatchedError (rt_tree demo_committed) \<lparr>rq_Method = ''POST'', rq_EscapedPath = ''/a''\<rparr> =
     HTTPError 405 ''Method Not Allowed'' [(''Allow'', ''GET'')]"
proof -
  have "matchLazy (rt_tree demo_committed) m ''/a'' \<noteq> None \<longleftrightarrow> m = ''GET''" for m
    using demo_match_tree demo_other_method[of m "''/a''"] by (cases "m = ''GET''") auto
  then have methods: "{m. matchLazy (rt_tree demo_committed) m ''/a'' \<noteq> None} = {''GET''}"
    by simp
  have none: "matchRoute demo_committed \<lparr>rq_Method = ''POST'', rq_EscapedPath = ''/a''\<rparr> = None"
    using demo_other_table[of "''POST''"] demo_other_table[of "''ANY''"] demo_other_method
      commitOnce_fields(1,3)[OF demo_commit demo_fresh(2)]
    by (simp add: matchRoute_def)
  moreover have "unmatchedError (rt_tree demo_committed) \<lparr>rq_Method = ''POST'', rq_EscapedPath = ''/a''\<rparr> =
      HTTPError 405 ''Method Not Allowed'' [(''Allow'', ''GET'')]"
    unfolding unmatched_answer[OF none] by (simp add: methods del: not_None_eq)
  ultimately show ?thesis by simp
qed

end
