(* ===== verification/Cache_Memory.thy ===== *)
theory Cache_Memory
  imports Prelude "HOL-Library.Word"
begin

text \<open>
  The in-memory cache store (\<open>cache/drivers/memory.go\<close>) and the helpers every store
  shares (\<open>cache/drivers/helpers.go\<close>).

  Each operation runs under the store's mutex and is one function from store to store.
  The clock reading \<open>now\<close> is an argument. Two parameters stand for what the code does
  not fix: \<open>iter\<close> is the order in which the runtime iterates over a map (some
  permutation of the entries), \<open>msize\<close> the length of the serialised value (\<open>None\<close>
  when serialising fails, which may run the value's own code). The access clock is a
  natural number. A value is what the store's type switches tell apart; a float is
  mantissa and binary exponent.
\<close>

subsection \<open>Values, items, stores\<close>

datatype cache_value =
    CString string
  | CInt64 "64 word"
  | CInt "64 word"
  | CFloat64 int int
  | CSet "string list"
  | COther nat

datatype cache_error = ValueTooLarge nat int | CannotMeasure | NotNumeric

record cacheItem =
  ci_value :: cache_value
  ci_expiration :: "instant option"
  ci_lastAccess :: nat

type_synonym cache_items = "(string, cacheItem) gomap"

record MemoryStore =
  ms_items :: cache_items
  ms_prefix :: string
  ms_accessSeq :: nat
  ms_maxEntries :: int
  ms_maxValueBytes :: int

definition DefaultMaxEntries :: int where
  "DefaultMaxEntries = 1000000"

definition evictionSampleSize :: nat where
  "evictionSampleSize = 16"

definition NewMemoryStore :: "string \<Rightarrow> MemoryStore" where
  "NewMemoryStore prefx = \<lparr>ms_items = [], ms_prefix = prefx, ms_accessSeq = 0,
     ms_maxEntries = DefaultMaxEntries, ms_maxValueBytes = 0\<rparr>"

definition WithMaxEntries :: "int \<Rightarrow> MemoryStore \<Rightarrow> MemoryStore" where
  "WithMaxEntries n s =
     s\<lparr>ms_maxEntries := (if n > 0 then n else if n < 0 then 0 else DefaultMaxEntries)\<rparr>"

definition WithMaxValueBytes :: "int \<Rightarrow> MemoryStore \<Rightarrow> MemoryStore" where
  "WithMaxValueBytes n s = s\<lparr>ms_maxValueBytes := (if n > 0 then n else 0)\<rparr>"

definition PrefixKey :: "string \<Rightarrow> string \<Rightarrow> string" where
  "PrefixKey prefx key = (if prefx = [] then key else prefx @ '':'' @ key)"

definition prefixedKey :: "MemoryStore \<Rightarrow> string \<Rightarrow> string" where
  "prefixedKey s key = PrefixKey (ms_prefix s) key"

type_synonym msize_fn = "cache_value \<Rightarrow> nat option"

definition checkValueSize :: "msize_fn \<Rightarrow> MemoryStore \<Rightarrow> cache_value \<Rightarrow> cache_error option" where
  "checkValueSize msize s value =
     (if ms_maxValueBytes s \<le> 0 then None
      else case msize value of
             None \<Rightarrow> Some CannotMeasure
           | Some n \<Rightarrow>
               if int n > ms_maxValueBytes s then Some (ValueTooLarge n (ms_maxValueBytes s)) else None)"

subsection \<open>Expiry, recency, eviction\<close>

definition expirationFor :: "instant \<Rightarrow> duration \<Rightarrow> instant option" where
  "expirationFor now ttl = (if ttl \<le> 0 then None else Some (now + ttl))"

text \<open>The two tests for expiry the code uses: reads and sweeps wait until the clock is past the
  deadline, conditional writes treat an entry as gone at the deadline.\<close>

definition past :: "instant \<Rightarrow> cacheItem \<Rightarrow> bool" where
  "past now item = (case ci_expiration item of None \<Rightarrow> False | Some e \<Rightarrow> now > e)"

definition live :: "instant \<Rightarrow> cacheItem \<Rightarrow> bool" where
  "live now item = (case ci_expiration item of None \<Rightarrow> True | Some e \<Rightarrow> now < e)"

definition touch :: "MemoryStore \<Rightarrow> cacheItem \<Rightarrow> MemoryStore \<times> cacheItem" where
  "touch s item =
     (if ms_maxEntries s > 0
      then (s\<lparr>ms_accessSeq := ms_accessSeq s + 1\<rparr>, item\<lparr>ci_lastAccess := ms_accessSeq s + 1\<rparr>)
      else (s, item))"

definition set_item :: "string \<Rightarrow> cacheItem \<Rightarrow> MemoryStore \<Rightarrow> MemoryStore" where
  "set_item key item s = s\<lparr>ms_items := AList.update key item (ms_items s)\<rparr>"

definition removeLocked :: "string \<Rightarrow> MemoryStore \<Rightarrow> MemoryStore" where
  "removeLocked key s = s\<lparr>ms_items := AList.delete key (ms_items s)\<rparr>"

text \<open>The loop over the sampled entries: the first entry past its deadline ends it.\<close>

fun chooseVictim :: "instant \<Rightarrow> nat \<Rightarrow> (string \<times> nat) option \<Rightarrow> cache_items \<Rightarrow> string option" where
  "chooseVictim now examined best [] = map_option fst best"
| "chooseVictim now examined best ((key, item) # rest) =
     (if past now item then Some key
      else
        let best = (case best of
                      None \<Rightarrow> Some (key, ci_lastAccess item)
                    | Some (k, seq) \<Rightarrow>
                        if ci_lastAccess item < seq then Some (key, ci_lastAccess item) else Some (k, seq))
        in if examined + 1 \<ge> evictionSampleSize then map_option fst best
           else chooseVictim now (examined + 1) best rest)"

type_synonym iter_fn = "cache_items \<Rightarrow> cache_items"

definition evictSampledLocked :: "iter_fn \<Rightarrow> instant \<Rightarrow> MemoryStore \<Rightarrow> MemoryStore \<times> bool" where
  "evictSampledLocked iter now s =
     (case chooseVictim now 0 None (iter (ms_items s)) of
        None \<Rightarrow> (s, False)
      | Some key \<Rightarrow> (removeLocked key s, True))"

text \<open>The eviction loop of \<open>setLocked\<close>; as many rounds as there are entries are enough.\<close>

fun evictLoop :: "nat \<Rightarrow> iter_fn \<Rightarrow> instant \<Rightarrow> MemoryStore \<Rightarrow> MemoryStore" where
  "evictLoop 0 iter now s = s"
| "evictLoop (Suc n) iter now s =
     (if int (length (ms_items s)) \<ge> ms_maxEntries s then
        (case evictSampledLocked iter now s of
           (s, True) \<Rightarrow> evictLoop n iter now s
         | (s, False) \<Rightarrow> s)
      else s)"

definition setLocked ::
  "iter_fn \<Rightarrow> instant \<Rightarrow> string \<Rightarrow> cache_value \<Rightarrow> instant option \<Rightarrow> MemoryStore \<Rightarrow> MemoryStore" where
  "setLocked iter now key value expiration s =
     (case map_of (ms_items s) key of
        Some item \<Rightarrow>
          (let (s, item) = touch s (item\<lparr>ci_value := value, ci_expiration := expiration\<rparr>)
           in set_item key item s)
      | None \<Rightarrow>
          (let s = (if ms_maxEntries s > 0 then evictLoop (length (ms_items s)) iter now s else s);
               (s, item) = touch s \<lparr>ci_value = value, ci_expiration = expiration, ci_lastAccess = 0\<rparr>
           in set_item key item s))"

definition cleanupExpired :: "instant \<Rightarrow> MemoryStore \<Rightarrow> MemoryStore" where
  "cleanupExpired now s = s\<lparr>ms_items := filter (\<lambda>(_, item). \<not> past now item) (ms_items s)\<rparr>"

subsection \<open>Reads\<close>

definition GetCtx :: "instant \<Rightarrow> string \<Rightarrow> MemoryStore \<Rightarrow> MemoryStore \<times> cache_value option" where
  "GetCtx now key s =
     (case map_of (ms_items s) (prefixedKey s key) of
        None \<Rightarrow> (s, None)
      | Some item \<Rightarrow>
          if past now item then (s, None)
          else (let (s', item) = touch s item
                in (set_item (prefixedKey s key) item s', Some (ci_value item))))"

definition GetStringCtx :: "instant \<Rightarrow> string \<Rightarrow> MemoryStore \<Rightarrow> MemoryStore \<times> string option" where
  "GetStringCtx now key s =
     (case GetCtx now key s of
        (s, Some (CString str)) \<Rightarrow> (s, Some str)
      | (s, _) \<Rightarrow> (s, None))"

definition HasCtx :: "instant \<Rightarrow> string \<Rightarrow> MemoryStore \<Rightarrow> MemoryStore \<times> bool" where
  "HasCtx now key s = (let (s, v) = GetCtx now key s in (s, v \<noteq> None))"

fun ManyCtx ::
  "instant \<Rightarrow> string list \<Rightarrow> (string \<times> cache_value) list \<Rightarrow> MemoryStore \<Rightarrow>
   MemoryStore \<times> (string \<times> cache_value) list" where
  "ManyCtx now [] result s = (s, result)"
| "ManyCtx now (key # keys) result s =
     (case map_of (ms_items s) (prefixedKey s key) of
        None \<Rightarrow> ManyCtx now keys result s
      | Some item \<Rightarrow>
          if live now item then
            (let (s', item) = touch s item
             in ManyCtx now keys (AList.update key (ci_value item) result) (set_item (prefixedKey s key) item s'))
          else ManyCtx now keys result s)"

subsection \<open>Writes\<close>

definition PutCtx ::
  "msize_fn \<Rightarrow> iter_fn \<Rightarrow> instant \<Rightarrow> string \<Rightarrow> cache_value \<Rightarrow> duration \<Rightarrow> MemoryStore \<Rightarrow>
   MemoryStore \<times> cache_error option" where
  "PutCtx msize iter now key value ttl s =
     (case checkValueSize msize s value of
        Some e \<Rightarrow> (s, Some e)
      | None \<Rightarrow> (setLocked iter now (prefixedKey s key) value (expirationFor now ttl) s, None))"

definition ForeverCtx ::
  "msize_fn \<Rightarrow> iter_fn \<Rightarrow> instant \<Rightarrow> string \<Rightarrow> cache_value \<Rightarrow> MemoryStore \<Rightarrow> MemoryStore \<times> cache_error option"
  where
  "ForeverCtx msize iter now key value s =
     (case checkValueSize msize s value of
        Some e \<Rightarrow> (s, Some e)
      | None \<Rightarrow> (setLocked iter now (prefixedKey s key) value None s, None))"

definition AddCtx ::
  "msize_fn \<Rightarrow> iter_fn \<Rightarrow> instant \<Rightarrow> string \<Rightarrow> cache_value \<Rightarrow> duration \<Rightarrow> MemoryStore \<Rightarrow>
   MemoryStore \<times> (cache_error + bool)" where
  "AddCtx msize iter now key value ttl s =
     (case checkValueSize msize s value of
        Some e \<Rightarrow> (s, Inl e)
      | None \<Rightarrow>
          let prefixed = prefixedKey s key in
          if (case map_of (ms_items s) prefixed of None \<Rightarrow> False | Some item \<Rightarrow> live now item)
          then (s, Inr False)
          else (setLocked iter now prefixed value (expirationFor now ttl) s, Inr True))"

definition ForgetCtx :: "string \<Rightarrow> MemoryStore \<Rightarrow> MemoryStore" where
  "ForgetCtx key s =
     (let prefixed = prefixedKey s key in
      case map_of (ms_items s) prefixed of None \<Rightarrow> s | Some item \<Rightarrow> removeLocked prefixed s)"

definition FlushCtx :: "MemoryStore \<Rightarrow> MemoryStore" where
  "FlushCtx s = s\<lparr>ms_items := []\<rparr>"

fun PutManyLoop ::
  "iter_fn \<Rightarrow> instant \<Rightarrow> duration \<Rightarrow> (string \<times> cache_value) list \<Rightarrow> MemoryStore \<Rightarrow> MemoryStore" where
  "PutManyLoop iter now ttl [] s = s"
| "PutManyLoop iter now ttl ((key, value) # rest) s =
     PutManyLoop iter now ttl rest (setLocked iter now (prefixedKey s key) value (expirationFor now ttl) s)"

fun firstOversized :: "msize_fn \<Rightarrow> MemoryStore \<Rightarrow> (string \<times> cache_value) list \<Rightarrow> cache_error option" where
  "firstOversized msize s [] = None"
| "firstOversized msize s ((_, value) # rest) =
     (case checkValueSize msize s value of Some e \<Rightarrow> Some e | None \<Rightarrow> firstOversized msize s rest)"

definition PutManyCtx ::
  "msize_fn \<Rightarrow> iter_fn \<Rightarrow> instant \<Rightarrow> (string \<times> cache_value) list \<Rightarrow> duration \<Rightarrow> MemoryStore \<Rightarrow>
   MemoryStore \<times> cache_error option" where
  "PutManyCtx msize iter now items ttl s =
     (case firstOversized msize s items of
        Some e \<Rightarrow> (s, Some e)
      | None \<Rightarrow> (PutManyLoop iter now ttl items s, None))"

subsection \<open>Counters\<close>

definition int64_of_float :: "int \<Rightarrow> int \<Rightarrow> 64 word" where
  "int64_of_float m e =
     word_of_int (if e \<ge> 0 then m * 2 ^ nat e else sgn m * (\<bar>m\<bar> div 2 ^ nat (- e)))"

definition numeric :: "cache_value \<Rightarrow> 64 word option" where
  "numeric v = (case v of
     CInt64 n \<Rightarrow> Some n | CInt n \<Rightarrow> Some n | CFloat64 m e \<Rightarrow> Some (int64_of_float m e) | _ \<Rightarrow> None)"

definition IncrementCtx ::
  "iter_fn \<Rightarrow> instant \<Rightarrow> string \<Rightarrow> 64 word \<Rightarrow> MemoryStore \<Rightarrow> MemoryStore \<times> (cache_error + 64 word)" where
  "IncrementCtx iter now key value s =
     (let prefixed = prefixedKey s key in
      case map_of (ms_items s) prefixed of
        Some item \<Rightarrow>
          if live now item then
            (case numeric (ci_value item) of
               None \<Rightarrow> (s, Inl NotNumeric)
             | Some current \<Rightarrow>
                 (setLocked iter now prefixed (CInt64 (current + value)) (ci_expiration item) s,
                  Inr (current + value)))
          else (setLocked iter now prefixed (CInt64 value) None s, Inr value)
      | None \<Rightarrow> (setLocked iter now prefixed (CInt64 value) None s, Inr value))"

definition DecrementCtx ::
  "iter_fn \<Rightarrow> instant \<Rightarrow> string \<Rightarrow> 64 word \<Rightarrow> MemoryStore \<Rightarrow> MemoryStore \<times> (cache_error + 64 word)" where
  "DecrementCtx iter now key value s = IncrementCtx iter now key (- value) s"

subsection \<open>Conditional writes\<close>

definition deep_equal :: "cache_value \<Rightarrow> cache_value \<Rightarrow> bool" where
  "deep_equal a b = (case (a, b) of (CSet xs, CSet ys) \<Rightarrow> set xs = set ys | _ \<Rightarrow> a = b)"

definition ReplaceCtx ::
  "msize_fn \<Rightarrow> iter_fn \<Rightarrow> instant \<Rightarrow> string \<Rightarrow> cache_value \<Rightarrow> duration \<Rightarrow> MemoryStore \<Rightarrow>
   MemoryStore \<times> (cache_error + bool)" where
  "ReplaceCtx msize iter now key value ttl s =
     (case checkValueSize msize s value of
        Some e \<Rightarrow> (s, Inl e)
      | None \<Rightarrow>
          let prefixed = prefixedKey s key in
          if (case map_of (ms_items s) prefixed of None \<Rightarrow> True | Some item \<Rightarrow> \<not> live now item)
          then (s, Inr False)
          else (setLocked iter now prefixed value (expirationFor now ttl) s, Inr True))"

definition CompareAndSwapCtx ::
  "msize_fn \<Rightarrow> iter_fn \<Rightarrow> instant \<Rightarrow> string \<Rightarrow> cache_value \<Rightarrow> cache_value \<Rightarrow> duration \<Rightarrow> MemoryStore \<Rightarrow>
   MemoryStore \<times> (cache_error + bool)" where
  "CompareAndSwapCtx msize iter now key expected value ttl s =
     (case checkValueSize msize s value of
        Some e \<Rightarrow> (s, Inl e)
      | None \<Rightarrow>
          let prefixed = prefixedKey s key in
          case map_of (ms_items s) prefixed of
            None \<Rightarrow> (s, Inr False)
          | Some existing \<Rightarrow>
              if \<not> live now existing then (s, Inr False)
              else if \<not> deep_equal (ci_value existing) expected then (s, Inr False)
              else (setLocked iter now prefixed value (expirationFor now ttl) s, Inr True))"

definition CompareAndDeleteCtx ::
  "instant \<Rightarrow> string \<Rightarrow> cache_value \<Rightarrow> MemoryStore \<Rightarrow> MemoryStore \<times> bool" where
  "CompareAndDeleteCtx now key expected s =
     (let prefixed = prefixedKey s key in
      case map_of (ms_items s) prefixed of
        None \<Rightarrow> (s, False)
      | Some existing \<Rightarrow>
          if \<not> live now existing then (s, False)
          else if \<not> deep_equal (ci_value existing) expected then (s, False)
          else (removeLocked prefixed s, True))"

subsection \<open>Sets\<close>

definition liveSetLocked :: "instant \<Rightarrow> string \<Rightarrow> MemoryStore \<Rightarrow> string list option" where
  "liveSetLocked now prefixed s =
     (case map_of (ms_items s) prefixed of
        None \<Rightarrow> None
      | Some item \<Rightarrow>
          if \<not> live now item then None
          else (case ci_value item of CSet members \<Rightarrow> Some members | _ \<Rightarrow> None))"

definition SetAddCtx :: "iter_fn \<Rightarrow> instant \<Rightarrow> string \<Rightarrow> duration \<Rightarrow> string list \<Rightarrow> MemoryStore \<Rightarrow> MemoryStore" where
  "SetAddCtx iter now key ttl members s =
     (if members = [] then s
      else
        let prefixed = prefixedKey s key;
            expiration = expirationFor now ttl
        in case liveSetLocked now prefixed s of
             None \<Rightarrow> setLocked iter now prefixed (CSet (fold List.insert members [])) expiration s
           | Some old \<Rightarrow>
               let current = (case map_of (ms_items s) prefixed of
                                Some item \<Rightarrow> ci_expiration item | None \<Rightarrow> None);
                   expiration = (case current of
                                   None \<Rightarrow> None
                                 | Some c \<Rightarrow>
                                     (case expiration of
                                        Some e \<Rightarrow> if c > e then Some c else Some e
                                      | None \<Rightarrow> None))
               in setLocked iter now prefixed (CSet (fold List.insert members old)) expiration s)"

definition SetRemoveCtx :: "instant \<Rightarrow> string \<Rightarrow> string list \<Rightarrow> MemoryStore \<Rightarrow> MemoryStore" where
  "SetRemoveCtx now key members s =
     (if members = [] then s
      else
        let prefixed = prefixedKey s key in
        case liveSetLocked now prefixed s of
          None \<Rightarrow> s
        | Some old \<Rightarrow>
            let next = filter (\<lambda>m. m \<notin> set members) old in
            if next = [] then removeLocked prefixed s
            else (case map_of (ms_items s) prefixed of
                    None \<Rightarrow> s
                  | Some item \<Rightarrow> set_item prefixed (item\<lparr>ci_value := CSet next\<rparr>) s))"

definition SetMembersCtx :: "instant \<Rightarrow> string \<Rightarrow> MemoryStore \<Rightarrow> string list" where
  "SetMembersCtx now key s =
     (case liveSetLocked now (prefixedKey s key) s of None \<Rightarrow> [] | Some members \<Rightarrow> members)"

subsection \<open>Remember\<close>

text \<open>
  The helpers take the store's operations as arguments, as the interfaces \<open>CacheGetter\<close>
  and \<open>CachePutter\<close> do; the callback's value and whether it ran are part of the result.
\<close>

definition RememberFrom ::
  "('s \<Rightarrow> 's \<times> 'v option) \<Rightarrow> ('v \<Rightarrow> 's \<Rightarrow> 's \<times> 'e option) \<Rightarrow> 'v \<Rightarrow> 's \<Rightarrow> 's \<times> ('e + 'v) \<times> bool" where
  "RememberFrom get put callback s =
     (case get s of
        (s, Some val) \<Rightarrow> (s, Inr val, False)
      | (s, None) \<Rightarrow>
          (case put callback s of
             (s, Some e) \<Rightarrow> (s, Inl e, True)
           | (s, None) \<Rightarrow> (s, Inr callback, True)))"

definition RememberFromE ::
  "('s \<Rightarrow> 's \<times> 'v option) \<Rightarrow> ('v \<Rightarrow> 's \<Rightarrow> 's \<times> 'e option) \<Rightarrow> 'e + 'v \<Rightarrow> 's \<Rightarrow> 's \<times> ('e + 'v) \<times> bool" where
  "RememberFromE get put callback s =
     (case get s of
        (s, Some val) \<Rightarrow> (s, Inr val, False)
      | (s, None) \<Rightarrow>
          (case callback of
             Inl e \<Rightarrow> (s, Inl e, True)
           | Inr value \<Rightarrow>
               (case put value s of
                  (s, Some e) \<Rightarrow> (s, Inl e, True)
                | (s, None) \<Rightarrow> (s, Inr value, True))))"

definition Remember ::
  "msize_fn \<Rightarrow> iter_fn \<Rightarrow> instant \<Rightarrow> string \<Rightarrow> duration \<Rightarrow> cache_value \<Rightarrow> MemoryStore \<Rightarrow>
   MemoryStore \<times> (cache_error + cache_value) \<times> bool" where
  "Remember msize iter now key ttl callback =
     RememberFrom (GetCtx now key) (\<lambda>v. PutCtx msize iter now key v ttl) callback"

definition RememberForever ::
  "msize_fn \<Rightarrow> iter_fn \<Rightarrow> instant \<Rightarrow> string \<Rightarrow> cache_value \<Rightarrow> MemoryStore \<Rightarrow>
   MemoryStore \<times> (cache_error + cache_value) \<times> bool" where
  "RememberForever msize iter now key callback =
     RememberFrom (GetCtx now key) (\<lambda>v. ForeverCtx msize iter now key v) callback"

end
