(* ===== verification/Cache_Lemmas.thy ===== *)
theory Cache_Lemmas
  imports Cache_Memory "HOL-Library.Multiset"
begin

text \<open>
  The invariant of the memory store and what its operations do to the entries: at most
  one entry leaves the store per insertion, and only when the store is full.
\<close>

subsection \<open>The invariant\<close>

definition iteration :: "iter_fn \<Rightarrow> bool" where
  "iteration iter \<longleftrightarrow> (\<forall>items. mset (iter items) = mset items)"

definition stamps :: "cache_items \<Rightarrow> nat list" where
  "stamps items = map (\<lambda>(_, item). ci_lastAccess item) items"

definition store_ok :: "MemoryStore \<Rightarrow> bool" where
  "store_ok s \<longleftrightarrow>
     keys_distinct (ms_items s) \<and> ms_maxEntries s \<ge> 0 \<and>
     (ms_maxEntries s > 0 \<longrightarrow>
        int (length (ms_items s)) \<le> ms_maxEntries s \<and> distinct (stamps (ms_items s)) \<and>
        (\<forall>n \<in> set (stamps (ms_items s)). n \<le> ms_accessSeq s))"

definition same_config :: "MemoryStore \<Rightarrow> MemoryStore \<Rightarrow> bool" where
  "same_config s s' \<longleftrightarrow> ms_prefix s' = ms_prefix s \<and> ms_maxEntries s' = ms_maxEntries s \<and>
     ms_maxValueBytes s' = ms_maxValueBytes s"

lemma same_config_refl [simp]: "same_config s s"
  by (simp add: same_config_def)

lemma same_config_trans [trans]: "same_config a b \<Longrightarrow> same_config b c \<Longrightarrow> same_config a c"
  by (simp add: same_config_def)

lemma removeLocked_simps [simp]:
  "ms_items (removeLocked k s) = AList.delete k (ms_items s)"
  "ms_accessSeq (removeLocked k s) = ms_accessSeq s"
  "same_config s (removeLocked k s)" "ms_maxEntries (removeLocked k s) = ms_maxEntries s"
  by (simp_all add: removeLocked_def same_config_def)

lemma set_item_simps [simp]:
  "ms_items (set_item k item s) = AList.update k item (ms_items s)"
  "ms_accessSeq (set_item k item s) = ms_accessSeq s"
  "same_config s (set_item k item s)" "ms_maxEntries (set_item k item s) = ms_maxEntries s"
  "prefixedKey (set_item k item s) = prefixedKey s"
  by (auto simp: set_item_def same_config_def prefixedKey_def)

lemma stamps_delete: "set (stamps (AList.delete k xs)) \<subseteq> set (stamps xs)"
  by (induction xs) (auto simp: stamps_def)

lemma distinct_stamps_filter: "distinct (stamps xs) \<Longrightarrow> distinct (stamps (filter P xs))"
  unfolding stamps_def by (rule distinct_map_filter)

lemma stamps_filter: "set (stamps (filter P xs)) \<subseteq> set (stamps xs)"
  by (auto simp: stamps_def)

lemma delete_filter: "AList.delete k xs = filter (\<lambda>(k', _). k \<noteq> k') xs"
  by (simp add: AList.delete_eq)

lemma store_ok_sub:
  assumes "store_ok s"
  shows "store_ok (s\<lparr>ms_items := filter P (ms_items s)\<rparr>)"
proof -
  have "int (length (filter P (ms_items s))) \<le> int (length (ms_items s))" by simp
  then have "int (length (filter P (ms_items s))) \<le> ms_maxEntries s" if "ms_maxEntries s > 0"
    using assms that unfolding store_ok_def by linarith
  with assms stamps_filter[of P "ms_items s"] show ?thesis
    by (auto simp: store_ok_def wf_intros distinct_stamps_filter)
qed

lemma store_ok_removeLocked: "store_ok s \<Longrightarrow> store_ok (removeLocked k s)"
  unfolding removeLocked_def delete_filter by (rule store_ok_sub)

lemma stamps_update:
  "keys_distinct xs \<Longrightarrow> set (stamps (AList.update k item xs)) \<subseteq> insert (ci_lastAccess item) (set (stamps xs))"
  by (auto simp: stamps_def set_update_distinct)

lemma distinct_stamps_update:
  assumes "distinct (stamps xs)" and "ci_lastAccess item \<notin> set (stamps xs)"
  shows "distinct (stamps (AList.update k item xs))"
  using assms
proof (induction xs)
  case (Cons x xs)
  obtain k' item' where x: "x = (k', item')" by fastforce
  have "set (stamps (AList.update k item xs)) \<subseteq> insert (ci_lastAccess item) (set (stamps xs))" for xs
    by (induction xs) (auto simp: stamps_def)
  with Cons x show ?case by (fastforce simp: stamps_def)
qed (simp add: stamps_def)

text \<open>Writing a freshly stamped item under a key that is present, or while there is room.\<close>

lemma store_ok_write:
  assumes ok: "store_ok s" and t: "touch s item = (s', item')"
    and room: "ms_maxEntries s > 0 \<Longrightarrow> map_of (ms_items s) k = None \<Longrightarrow>
      int (length (ms_items s)) < ms_maxEntries s"
  shows "store_ok (set_item k item' s')"
proof (cases "ms_maxEntries s > 0")
  case True
  then have s': "s' = s\<lparr>ms_accessSeq := ms_accessSeq s + 1\<rparr>" and stamp: "ci_lastAccess item' = ms_accessSeq s + 1"
    using t by (auto simp: touch_def)
  have fresh: "ci_lastAccess item' \<notin> set (stamps (ms_items s))"
    using ok True stamp by (auto simp: store_ok_def)
  have "int (length (AList.update k item' (ms_items s))) \<le> ms_maxEntries s"
    using ok True room by (cases "map_of (ms_items s) k") (auto simp: store_ok_def length_update)
  moreover have "\<forall>n \<in> set (stamps (AList.update k item' (ms_items s))). n \<le> ms_accessSeq s + 1"
    using stamps_update[of "ms_items s" k item'] ok True stamp by (fastforce simp: store_ok_def)
  ultimately show ?thesis
    using ok True fresh by (simp add: store_ok_def s' wf_intros distinct_stamps_update)
next
  case False
  with t ok show ?thesis by (auto simp: store_ok_def touch_def wf_intros)
qed

lemma touch_simps:
  assumes "touch s item = (s', item')"
  shows "ms_items s' = ms_items s" and "same_config s s'" and "ci_value item' = ci_value item"
    and "ci_expiration item' = ci_expiration item" and "prefixedKey s' = prefixedKey s"
  using assms by (auto simp: touch_def same_config_def prefixedKey_def split: if_splits)

subsection \<open>Eviction\<close>

lemma chooseVictim_Some:
  "chooseVictim now n best xs = Some k \<Longrightarrow> k \<in> fst ` set xs \<or> (\<exists>seq. best = Some (k, seq))"
  by (induction now n best xs rule: chooseVictim.induct)
    (fastforce simp: Let_def split: if_splits option.splits)+

lemma chooseVictim_not_None: "best \<noteq> None \<or> xs \<noteq> [] \<Longrightarrow> chooseVictim now n best xs \<noteq> None"
  by (induction now n best xs rule: chooseVictim.induct)
    (auto simp: Let_def split: if_splits option.splits)

lemma evictSampledLocked_removes:
  assumes "iteration iter" and "ms_items s \<noteq> []"
  obtains k where "k \<in> fst ` set (ms_items s)"
    and "chooseVictim now 0 None (iter (ms_items s)) = Some k"
    and "evictSampledLocked iter now s = (removeLocked k s, True)"
proof -
  have "mset (iter (ms_items s)) = mset (ms_items s)" using assms(1) by (simp add: iteration_def)
  then have same: "set (iter (ms_items s)) = set (ms_items s)" by (rule mset_eq_setD)
  with assms(2) have "iter (ms_items s) \<noteq> []" by fastforce
  with chooseVictim_not_None[of None "iter (ms_items s)" now 0]
  obtain k where k: "chooseVictim now 0 None (iter (ms_items s)) = Some k" by blast
  with chooseVictim_Some[OF k] same show thesis
    by (intro that[of k]) (auto simp: evictSampledLocked_def)
qed

lemma evictLoop_room:
  "int (length (ms_items s)) < ms_maxEntries s \<Longrightarrow> evictLoop n iter now s = s"
  by (cases n) auto

lemma evictLoop_full:
  assumes ok: "store_ok s" and it: "iteration iter"
    and full: "int (length (ms_items s)) = ms_maxEntries s" and pos: "ms_maxEntries s > 0"
  obtains k where "k \<in> fst ` set (ms_items s)"
    and "chooseVictim now 0 None (iter (ms_items s)) = Some k"
    and "evictLoop (length (ms_items s)) iter now s = removeLocked k s"
    and "int (length (ms_items (removeLocked k s))) < ms_maxEntries s"
proof -
  from full pos have "ms_items s \<noteq> []" by auto
  from evictSampledLocked_removes[OF it this, of now] obtain k where
    k: "k \<in> fst ` set (ms_items s)" "chooseVictim now 0 None (iter (ms_items s)) = Some k"
      "evictSampledLocked iter now s = (removeLocked k s, True)" by blast
  have "keys_distinct (ms_items s)" using ok by (simp add: store_ok_def)
  moreover obtain v where "map_of (ms_items s) k = Some v"
    using k(1) by (metis domD dom_map_of_conv_image_fst)
  ultimately have "length (ms_items (removeLocked k s)) < length (ms_items s)"
    using length_delete_distinct by fastforce
  then have shorter: "int (length (ms_items (removeLocked k s))) < ms_maxEntries s" using full by simp
  obtain n where n: "length (ms_items s) = Suc n" using \<open>ms_items s \<noteq> []\<close> by (cases "ms_items s") auto
  have "evictLoop (Suc n) iter now s = evictLoop n iter now (removeLocked k s)"
    using full k(3) by simp
  also have "\<dots> = removeLocked k s" using shorter by (intro evictLoop_room) simp
  finally have "evictLoop (length (ms_items s)) iter now s = removeLocked k s" using n by simp
  with k shorter that show thesis by blast
qed

subsection \<open>The entries of a store\<close>

text \<open>What a store holds, without recency: the value and deadline under a prefixed key.\<close>

definition entry :: "MemoryStore \<Rightarrow> string \<rightharpoonup> cache_value \<times> instant option" where
  "entry s k = map_option (\<lambda>item. (ci_value item, ci_expiration item)) (map_of (ms_items s) k)"

definition victim_of :: "iter_fn \<Rightarrow> instant \<Rightarrow> string \<Rightarrow> MemoryStore \<Rightarrow> string option" where
  "victim_of iter now key s =
     (if map_of (ms_items s) key = None \<and> ms_maxEntries s > 0 \<and>
         int (length (ms_items s)) \<ge> ms_maxEntries s
      then chooseVictim now 0 None (iter (ms_items s)) else None)"

definition evicted :: "iter_fn \<Rightarrow> instant \<Rightarrow> string \<Rightarrow> MemoryStore \<Rightarrow> MemoryStore" where
  "evicted iter now key s =
     (case victim_of iter now key s of None \<Rightarrow> s | Some k \<Rightarrow> removeLocked k s)"

lemma entry_None_iff: "entry s k = None \<longleftrightarrow> map_of (ms_items s) k = None"
  by (simp add: entry_def)

lemma entry_SomeD:
  "entry s k = Some (v, e) \<Longrightarrow> \<exists>item. map_of (ms_items s) k = Some item \<and> ci_value item = v \<and> ci_expiration item = e"
  by (auto simp: entry_def)

lemma entry_set_item:
  "entry (set_item k item s) = (entry s)(k \<mapsto> (ci_value item, ci_expiration item))"
  by (auto simp: entry_def)

lemma entry_removeLocked: "entry (removeLocked k s) = (entry s)(k := None)"
  by (auto simp: entry_def)

lemma entry_items: "ms_items s' = ms_items s \<Longrightarrow> entry s' = entry s"
  by (simp add: entry_def fun_eq_iff)

lemma setLocked_replace:
  assumes "map_of (ms_items s) key = Some item"
  shows "setLocked iter now key value expiration s =
    (case touch s (item\<lparr>ci_value := value, ci_expiration := expiration\<rparr>) of (s', item') \<Rightarrow> set_item key item' s')"
  using assms by (simp add: setLocked_def)

lemma evicted_spec:
  assumes "map_of (ms_items s) key = None" and "store_ok s" and "iteration iter"
  shows "(if ms_maxEntries s > 0 then evictLoop (length (ms_items s)) iter now s else s) = evicted iter now key s"
      (is ?loop)
    and "store_ok (evicted iter now key s)" (is ?ok) and "same_config s (evicted iter now key s)" (is ?config)
    and "ms_maxEntries s > 0 \<Longrightarrow> int (length (ms_items (evicted iter now key s))) < ms_maxEntries s"
      (is "_ \<Longrightarrow> ?room")
proof -
  have "?loop \<and> ?ok \<and> ?config \<and> (ms_maxEntries s > 0 \<longrightarrow> ?room)"
  proof (cases "ms_maxEntries s > 0 \<and> int (length (ms_items s)) = ms_maxEntries s")
    case True
    then obtain k where k: "chooseVictim now 0 None (iter (ms_items s)) = Some k"
      "evictLoop (length (ms_items s)) iter now s = removeLocked k s"
      "int (length (ms_items (removeLocked k s))) < ms_maxEntries s"
      using evictLoop_full[OF assms(2,3), of now] by blast
    then have "evicted iter now key s = removeLocked k s"
      using True assms(1) by (simp add: evicted_def victim_of_def)
    with True k assms(1,2) show ?thesis by (simp add: store_ok_removeLocked)
  next
    case False
    with assms(2) have room: "ms_maxEntries s > 0 \<Longrightarrow> int (length (ms_items s)) < ms_maxEntries s"
      by (auto simp: store_ok_def)
    then have "evicted iter now key s = s" by (auto simp: evicted_def victim_of_def)
    with room assms(1,2) show ?thesis by (simp add: evictLoop_room)
  qed
  then show ?loop and ?ok and ?config and "ms_maxEntries s > 0 \<Longrightarrow> ?room" by blast+
qed

lemma setLocked_insert:
  assumes "map_of (ms_items s) key = None" and "store_ok s" and "iteration iter"
  shows "setLocked iter now key value expiration s =
    (case touch (evicted iter now key s) \<lparr>ci_value = value, ci_expiration = expiration, ci_lastAccess = 0\<rparr> of
       (s', item') \<Rightarrow> set_item key item' s')"
  unfolding setLocked_def evicted_spec(1)[OF assms] using assms(1) by simp

lemma entry_evicted:
  "entry (evicted iter now key s) k = (if victim_of iter now key s = Some k then None else entry s k)"
  by (auto simp: evicted_def entry_removeLocked split: option.splits)

lemma setLocked_spec:
  assumes ok: "store_ok s" and it: "iteration iter"
  shows "store_ok (setLocked iter now key value expiration s)" (is ?ok)
    and "same_config s (setLocked iter now key value expiration s)" (is ?config)
    and "entry (setLocked iter now key value expiration s) k =
      (if k = key then Some (value, expiration)
       else if victim_of iter now key s = Some k then None else entry s k)" (is ?entry)
proof -
  have "?ok \<and> ?config \<and> ?entry"
  proof (cases "map_of (ms_items s) key")
    case (Some item)
    obtain s' item' where t: "touch s (item\<lparr>ci_value := value, ci_expiration := expiration\<rparr>) = (s', item')"
      by fastforce
    note t' = touch_simps[OF t]
    have "victim_of iter now key s = None" using Some by (simp add: victim_of_def)
    with Some t t' ok show ?thesis
      using store_ok_write[OF ok t, of key] entry_items[OF t'(1)] same_config_trans[OF t'(2)]
      by (auto simp: setLocked_replace[OF Some] entry_set_item)
  next
    case None
    let ?s0 = "evicted iter now key s"
    note ev = evicted_spec[OF None ok it, where now = now]
    obtain s' item' where
      t: "touch ?s0 \<lparr>ci_value = value, ci_expiration = expiration, ci_lastAccess = 0\<rparr> = (s', item')" by fastforce
    note t' = touch_simps[OF t]
    have "ms_maxEntries ?s0 = ms_maxEntries s" using ev(3) by (simp add: same_config_def)
    then have "store_ok (set_item key item' s')" using store_ok_write[OF ev(2) t] ev(4) by simp
    moreover have "same_config s (set_item key item' s')"
      using same_config_trans[OF same_config_trans[OF ev(3) t'(2)]] by simp
    ultimately show ?thesis
      using t t' entry_items[OF t'(1)]
      by (simp add: setLocked_insert[OF None ok it] entry_set_item entry_evicted)
  qed
  then show ?ok and ?config and ?entry by blast+
qed

lemma setLocked_entry_key [simp]:
  "store_ok s \<Longrightarrow> iteration iter \<Longrightarrow>
    entry (setLocked iter now key value expiration s) key = Some (value, expiration)"
  by (simp add: setLocked_spec)

lemma victim_of_key: "store_ok s \<Longrightarrow> iteration iter \<Longrightarrow> victim_of iter now key s \<noteq> Some key"
proof
  assume "store_ok s" "iteration iter" "victim_of iter now key s = Some key"
  then have "chooseVictim now 0 None (iter (ms_items s)) = Some key" "map_of (ms_items s) key = None"
    by (auto simp: victim_of_def split: if_splits)
  then have "key \<in> fst ` set (iter (ms_items s))" using chooseVictim_Some by fastforce
  moreover have "set (iter (ms_items s)) = set (ms_items s)"
    using \<open>iteration iter\<close> by (metis iteration_def mset_eq_setD)
  ultimately show False using \<open>map_of (ms_items s) key = None\<close> by (simp add: map_of_eq_None_iff)
qed

end
