(* ===== verification/Cache_Props.thy ===== *)
theory Cache_Props
  imports Cache_Lemmas
begin

text \<open>
  Properties of the memory store: it stays within its capacity under every sequence of
  operations, a value written is read back until its deadline, insertion displaces the
  least recently used entry only, and the conditional operations are exact. The locale
  \<open>cache_store\<close> is the contract the \<open>Remember\<close> helpers rely on.
\<close>

subsection \<open>Sequences of operations\<close>

datatype cache_op =
    OpGet string
  | OpMany "string list"
  | OpPut string cache_value duration
  | OpForever string cache_value
  | OpAdd string cache_value duration
  | OpForget string
  | OpFlush
  | OpIncrement string "64 word"
  | OpReplace string cache_value duration
  | OpCompareAndSwap string cache_value cache_value duration
  | OpCompareAndDelete string cache_value
  | OpSetAdd string duration "string list"
  | OpSetRemove string "string list"
  | OpPutMany "(string \<times> cache_value) list" duration
  | OpCleanup

fun cache_step :: "msize_fn \<Rightarrow> iter_fn \<Rightarrow> instant \<Rightarrow> cache_op \<Rightarrow> MemoryStore \<Rightarrow> MemoryStore" where
  "cache_step msize iter now (OpGet k) s = fst (GetCtx now k s)"
| "cache_step msize iter now (OpMany ks) s = fst (ManyCtx now ks [] s)"
| "cache_step msize iter now (OpPut k v ttl) s = fst (PutCtx msize iter now k v ttl s)"
| "cache_step msize iter now (OpForever k v) s = fst (ForeverCtx msize iter now k v s)"
| "cache_step msize iter now (OpAdd k v ttl) s = fst (AddCtx msize iter now k v ttl s)"
| "cache_step msize iter now (OpForget k) s = ForgetCtx k s"
| "cache_step msize iter now OpFlush s = FlushCtx s"
| "cache_step msize iter now (OpIncrement k n) s = fst (IncrementCtx iter now k n s)"
| "cache_step msize iter now (OpReplace k v ttl) s = fst (ReplaceCtx msize iter now k v ttl s)"
| "cache_step msize iter now (OpCompareAndSwap k e v ttl) s = fst (CompareAndSwapCtx msize iter now k e v ttl s)"
| "cache_step msize iter now (OpCompareAndDelete k e) s = fst (CompareAndDeleteCtx now k e s)"
| "cache_step msize iter now (OpSetAdd k ttl ms) s = SetAddCtx iter now k ttl ms s"
| "cache_step msize iter now (OpSetRemove k ms) s = SetRemoveCtx now k ms s"
| "cache_step msize iter now (OpPutMany items ttl) s = fst (PutManyCtx msize iter now items ttl s)"
| "cache_step msize iter now OpCleanup s = cleanupExpired now s"

definition cache_run :: "msize_fn \<Rightarrow> (iter_fn \<times> instant \<times> cache_op) list \<Rightarrow> MemoryStore \<Rightarrow> MemoryStore" where
  "cache_run msize steps s = fold (\<lambda>(iter, now, op). cache_step msize iter now op) steps s"

definition ok_after :: "MemoryStore \<Rightarrow> MemoryStore \<Rightarrow> bool" where
  "ok_after s s' \<longleftrightarrow> store_ok s' \<and> same_config s s'"

lemma ok_after_refl: "store_ok s \<Longrightarrow> ok_after s s"
  by (simp add: ok_after_def)

lemma ok_after_setLocked:
  "store_ok s \<Longrightarrow> iteration iter \<Longrightarrow> ok_after s (setLocked iter now k v e s)"
  by (simp add: ok_after_def setLocked_spec)

lemma ok_after_removeLocked: "store_ok s \<Longrightarrow> ok_after s (removeLocked k s)"
  by (simp add: ok_after_def store_ok_removeLocked)

lemma ok_after_hit:
  assumes "store_ok s" and "map_of (ms_items s) k = Some item" and "touch s item = (s', item')"
  shows "ok_after s (set_item k item' s')"
  using store_ok_write[OF assms(1,3), of k] same_config_trans[OF touch_simps(2)[OF assms(3)]] assms(2)
  by (simp add: ok_after_def)

lemma stamps_update_same:
  "map_of xs k = Some item \<Longrightarrow> ci_lastAccess item' = ci_lastAccess item \<Longrightarrow>
    stamps (AList.update k item' xs) = stamps xs"
  by (induction xs) (auto simp: stamps_def split: if_splits)

lemma ok_after_set_value:
  assumes "store_ok s" and "map_of (ms_items s) k = Some item" and "ci_lastAccess item' = ci_lastAccess item"
  shows "ok_after s (set_item k item' s)"
proof -
  have "stamps (AList.update k item' (ms_items s)) = stamps (ms_items s)"
    using assms(2,3) by (rule stamps_update_same)
  with assms(1,2) show ?thesis
    by (auto simp: ok_after_def store_ok_def wf_intros length_update)
qed

lemma ok_after_trans: "ok_after a b \<Longrightarrow> ok_after b c \<Longrightarrow> ok_after a c"
  by (auto simp: ok_after_def intro: same_config_trans)

lemma ok_after_GetCtx: "store_ok s \<Longrightarrow> ok_after s (fst (GetCtx now k s))"
  by (auto simp: GetCtx_def ok_after_refl split: option.splits prod.splits intro: ok_after_hit)

lemma ok_after_ManyCtx: "store_ok s \<Longrightarrow> ok_after s (fst (ManyCtx now ks result s))"
proof (induction now ks result s rule: ManyCtx.induct)
  case (2 now key keys result s)
  show ?case
  proof (cases "map_of (ms_items s) (prefixedKey s key)")
    case (Some item)
    obtain s' item' where t: "touch s item = (s', item')" by fastforce
    note hit = ok_after_hit[OF "2.prems" Some t]
    from 2 Some t show ?thesis
      using ok_after_trans[OF hit] hit by (auto simp: ok_after_def)
  next
    case None
    with 2 show ?thesis by simp
  qed
qed (simp add: ok_after_refl)

lemma ok_after_PutManyLoop:
  "store_ok s \<Longrightarrow> iteration iter \<Longrightarrow> ok_after s (PutManyLoop iter now ttl items s)"
proof (induction iter now ttl items s rule: PutManyLoop.induct)
  case (2 iter now ttl k v rest s)
  then show ?case
    using ok_after_setLocked[OF "2.prems"] ok_after_trans by (fastforce simp: ok_after_def)
qed (simp add: ok_after_refl)

lemma ok_after_cleanupExpired: "store_ok s \<Longrightarrow> ok_after s (cleanupExpired now s)"
  unfolding cleanupExpired_def ok_after_def by (simp add: store_ok_sub same_config_def)

lemma ok_after_step: "store_ok s \<Longrightarrow> iteration iter \<Longrightarrow> ok_after s (cache_step msize iter now op s)"
proof (cases op)
  case (OpFlush)
  then show "store_ok s \<Longrightarrow> ok_after s (cache_step msize iter now op s)"
    by (simp add: FlushCtx_def ok_after_def store_ok_def same_config_def stamps_def)
next
  case (OpSetRemove k ms)
  then show "store_ok s \<Longrightarrow> ok_after s (cache_step msize iter now op s)"
    by (auto simp: SetRemoveCtx_def Let_def ok_after_refl ok_after_removeLocked split: option.splits
        intro!: ok_after_set_value)
qed (auto simp: ok_after_GetCtx ok_after_ManyCtx ok_after_refl ok_after_setLocked ok_after_removeLocked
    ok_after_PutManyLoop ok_after_cleanupExpired
    PutCtx_def ForeverCtx_def AddCtx_def ForgetCtx_def IncrementCtx_def ReplaceCtx_def CompareAndSwapCtx_def
    CompareAndDeleteCtx_def SetAddCtx_def PutManyCtx_def Let_def split: option.splits)

lemma cache_run_ok:
  "store_ok s \<Longrightarrow> \<forall>(iter, _, _) \<in> set steps. iteration iter \<Longrightarrow> ok_after s (cache_run msize steps s)"
proof (induction steps arbitrary: s)
  case (Cons step steps)
  obtain iter now op where step: "step = (iter, now, op)" by (cases step)
  with Cons.prems have first: "ok_after s (cache_step msize iter now op s)" by (auto intro: ok_after_step)
  with Cons.IH[of "cache_step msize iter now op s"] Cons.prems(2) step show ?case
    using ok_after_trans[OF first] by (simp add: cache_run_def ok_after_def)
qed (simp add: cache_run_def ok_after_refl)

lemma store_ok_new: "store_ok (WithMaxEntries n (NewMemoryStore prefx))"
  by (simp add: store_ok_def WithMaxEntries_def NewMemoryStore_def DefaultMaxEntries_def stamps_def)

text \<open>C11: a store made with any entry cap stays within it under every sequence of operations,
  whatever the clock readings, the map iteration orders and the serialised sizes are, and keeps
  one entry per key; in particular the default store never holds more than a million entries.\<close>

theorem cache_capacity:
  assumes "\<forall>(iter, _, _) \<in> set steps. iteration iter"
  shows "let s = cache_run msize steps (WithMaxEntries n (NewMemoryStore prefx)) in
    keys_distinct (ms_items s) \<and>
    (n \<ge> 0 \<longrightarrow> int (length (ms_items s)) \<le> (if n = 0 then 1000000 else n))"
proof -
  let ?s0 = "WithMaxEntries n (NewMemoryStore prefx)"
  have "ok_after ?s0 (cache_run msize steps ?s0)" using store_ok_new assms by (rule cache_run_ok)
  then show ?thesis
    by (auto simp: ok_after_def store_ok_def same_config_def WithMaxEntries_def DefaultMaxEntries_def Let_def)
qed

theorem cache_capacity_witness:
  "let s = cache_run (\<lambda>_. Some 1) [(\<lambda>xs. xs, 5, OpPut ''a'' (CString ''x'') 10), (rev, 6, OpForever ''b'' (CInt 3))]
       (WithMaxEntries 1 (NewMemoryStore ''app'')) in
   keys_distinct (ms_items s) \<and> int (length (ms_items s)) \<le> 1"
  using cache_capacity[of "[(\<lambda>xs. xs, 5, OpPut ''a'' (CString ''x'') 10), (rev, 6, OpForever ''b'' (CInt 3))]"
      "\<lambda>_. Some 1" 1 "''app''"]
  by (simp add: iteration_def)

subsection \<open>Reading what was written\<close>

lemma GetCtx_result:
  "snd (GetCtx now key s) =
    (case entry s (prefixedKey s key) of
       None \<Rightarrow> None
     | Some (v, e) \<Rightarrow> (case e of None \<Rightarrow> Some v | Some t \<Rightarrow> if now > t then None else Some v))"
  by (auto simp: GetCtx_def entry_def past_def touch_simps split: option.splits prod.splits)

lemma same_config_prefixedKey: "same_config s s' \<Longrightarrow> prefixedKey s' = prefixedKey s"
  by (auto simp: same_config_def prefixedKey_def)

lemma PutCtx_Some:
  assumes "PutCtx msize iter now key v ttl s = (s', None)"
  shows "s' = setLocked iter now (prefixedKey s key) v (expirationFor now ttl) s"
  using assms by (auto simp: PutCtx_def split: option.splits)

lemma Get_after_Put:
  assumes "store_ok s" and "iteration iter" and "PutCtx msize iter now key v ttl s = (s', None)"
  shows "snd (GetCtx now' key s') = (if ttl \<le> 0 \<or> now' \<le> now + ttl then Some v else None)"
proof -
  note s' = PutCtx_Some[OF assms(3)] and spec = setLocked_spec[OF assms(1,2)]
  have "prefixedKey s' = prefixedKey s" using spec(2) s' same_config_prefixedKey by simp
  with s' assms(1,2) show ?thesis by (auto simp: GetCtx_result expirationFor_def)
qed

text \<open>C23: a value that was put is what reads of its key return until its time to live has passed,
  and for ever when the time to live is not positive; every other key keeps its entry, except that
  one entry may be evicted, and only when the key is new and the store is full.\<close>

theorem Put_Get:
  assumes "store_ok s" and "iteration iter" and "PutCtx msize iter now key v ttl s = (s', None)"
  shows "snd (GetCtx now' key s') = (if ttl \<le> 0 \<or> now' \<le> now + ttl then Some v else None) \<and>
    (\<exists>victim. (\<forall>k. k \<noteq> prefixedKey s key \<longrightarrow> entry s' k = (if victim = Some k then None else entry s k)) \<and>
       (victim \<noteq> None \<longrightarrow> entry s (prefixedKey s key) = None \<and>
          int (length (ms_items s)) = ms_maxEntries s))"
proof (intro conjI exI[of _ "victim_of iter now (prefixedKey s key) s"])
  note s' = PutCtx_Some[OF assms(3)] and spec = setLocked_spec[OF assms(1,2)]
  show "snd (GetCtx now' key s') = (if ttl \<le> 0 \<or> now' \<le> now + ttl then Some v else None)"
    using assms by (rule Get_after_Put)
  show "\<forall>k. k \<noteq> prefixedKey s key \<longrightarrow>
      entry s' k = (if victim_of iter now (prefixedKey s key) s = Some k then None else entry s k)"
    using s' spec(3) by simp
  show "victim_of iter now (prefixedKey s key) s \<noteq> None \<longrightarrow> entry s (prefixedKey s key) = None \<and>
      int (length (ms_items s)) = ms_maxEntries s"
    using assms(1) by (auto simp: victim_of_def entry_None_iff store_ok_def)
qed

theorem Put_Get_witness:
  "let s' = fst (PutCtx (\<lambda>_. None) (\<lambda>xs. xs) 5 ''a'' (CString ''x'') 10 (NewMemoryStore ''app'')) in
   snd (GetCtx 15 ''a'' s') = Some (CString ''x'') \<and> snd (GetCtx 16 ''a'' s') = None"
proof -
  let ?s' = "fst (PutCtx (\<lambda>_. None) (\<lambda>xs. xs) 5 ''a'' (CString ''x'') 10 (NewMemoryStore ''app''))"
  have ok: "store_ok (NewMemoryStore ''app'')"
    by (simp add: store_ok_def NewMemoryStore_def DefaultMaxEntries_def stamps_def)
  have it: "iteration (\<lambda>xs. xs)" by (simp add: iteration_def)
  have put: "PutCtx (\<lambda>_. None) (\<lambda>xs. xs) 5 ''a'' (CString ''x'') 10 (NewMemoryStore ''app'') = (?s', None)"
    by (simp add: PutCtx_def checkValueSize_def NewMemoryStore_def)
  from Put_Get[OF ok it put, of 15] Put_Get[OF ok it put, of 16] show ?thesis by (simp add: Let_def)
qed

subsection \<open>Least recently used\<close>

definition candidates :: "(string \<times> nat) option \<Rightarrow> cache_items \<Rightarrow> (string \<times> nat) set" where
  "candidates best items = set_option best \<union> (\<lambda>(k, item). (k, ci_lastAccess item)) ` set items"

definition oldest :: "string \<Rightarrow> (string \<times> nat) set \<Rightarrow> bool" where
  "oldest k S \<longleftrightarrow> (\<exists>stamp. (k, stamp) \<in> S \<and> (\<forall>other \<in> snd ` S. stamp \<le> other))"

lemma oldest_insert: "oldest k (insert (a, x) S) \<Longrightarrow> x \<le> y \<Longrightarrow> oldest k (insert (a, x) (insert (b, y) S))"
  unfolding oldest_def by (metis image_insert insertCI insertE insert_iff order_trans snd_conv)

lemma oldest_keep:
  assumes "oldest k (candidates
      (case best of None \<Rightarrow> Some (key, ci_lastAccess item)
       | Some (k, seq) \<Rightarrow> if ci_lastAccess item < seq then Some (key, ci_lastAccess item) else Some (k, seq)) rest)"
  shows "oldest k (candidates best ((key, item) # rest))"
proof (cases best)
  case None
  with assms show ?thesis by (simp add: candidates_def)
next
  case (Some b)
  obtain k0 s0 where "b = (k0, s0)" by fastforce
  with assms Some oldest_insert[of k key "ci_lastAccess item" "(\<lambda>(k, item). (k, ci_lastAccess item)) ` set rest" s0 k0]
    oldest_insert[of k k0 s0 "(\<lambda>(k, item). (k, ci_lastAccess item)) ` set rest" "ci_lastAccess item" key]
  show ?thesis by (auto simp: candidates_def insert_commute split: if_splits)
qed

lemma chooseVictim_min:
  assumes "chooseVictim now n best xs = Some k" and "n + length xs \<le> evictionSampleSize"
    and "\<And>key item. (key, item) \<in> set xs \<Longrightarrow> \<not> past now item"
  shows "oldest k (candidates best xs)"
  using assms
proof (induction now n best xs rule: chooseVictim.induct)
  case (2 now n best key item rest)
  let ?best = "case best of None \<Rightarrow> Some (key, ci_lastAccess item)
    | Some (k, seq) \<Rightarrow> if ci_lastAccess item < seq then Some (key, ci_lastAccess item) else Some (k, seq)"
  have alive: "\<not> past now item" and rest: "\<And>key item. (key, item) \<in> set rest \<Longrightarrow> \<not> past now item"
    using "2.prems"(3) by auto
  have "oldest k (candidates ?best rest)"
  proof (cases "n + 1 \<ge> evictionSampleSize")
    case True
    then have "rest = []" using "2.prems"(2) by (cases rest) auto
    moreover have "map_option fst ?best = Some k" using "2.prems"(1) alive True by (simp add: Let_def)
    ultimately show ?thesis by (auto simp: candidates_def oldest_def)
  next
    case False
    then have "chooseVictim now (n + 1) ?best rest = Some k"
      using "2.prems"(1) alive by (simp add: Let_def)
    from "2.IH"[OF alive refl False this _ rest] "2.prems"(2) show ?thesis by simp
  qed
  then show ?case by (rule oldest_keep)
qed (auto simp: candidates_def oldest_def)

lemma chooseVictim_past:
  assumes "chooseVictim now n best xs = Some k" and "n + length xs \<le> evictionSampleSize"
    and "(key, item) \<in> set xs" and "past now item"
  shows "\<exists>item. (k, item) \<in> set xs \<and> past now item"
  using assms
proof (induction now n best xs rule: chooseVictim.induct)
  case (2 now n best key' item' rest)
  show ?case
  proof (cases "past now item'")
    case True
    with "2.prems"(1) show ?thesis by auto
  next
    case False
    with "2.prems"(3,4) have later: "(key, item) \<in> set rest" by auto
    then have more: "\<not> n + 1 \<ge> evictionSampleSize" using "2.prems"(2) by (cases rest) auto
    from "2.IH"[OF False refl more _ _ later "2.prems"(4)] "2.prems"(1,2) False more
    show ?thesis by (auto simp: Let_def)
  qed
qed simp

text \<open>C24: on a store of at most sixteen entries, an entry displaced by a write was either past
  its deadline or, no entry being past its deadline, the least recently used one; it was displaced
  because the store was full and the key written new.\<close>

theorem evict_lru:
  assumes "store_ok s" and "iteration iter" and "length (ms_items s) \<le> 16"
    and "map_of (ms_items s) k = Some item"
    and "map_of (ms_items (setLocked iter now key v expiration s)) k = None"
  shows "int (length (ms_items s)) = ms_maxEntries s \<and> map_of (ms_items s) key = None \<and>
    (past now item \<or>
     (\<forall>(_, other) \<in> set (ms_items s). \<not> past now other \<and> ci_lastAccess item \<le> ci_lastAccess other))"
proof -
  let ?xs = "iter (ms_items s)"
  have same: "set ?xs = set (ms_items s)" and len: "length ?xs = length (ms_items s)"
    using assms(2) by (metis iteration_def mset_eq_setD, metis iteration_def mset_eq_length)
  have dist: "keys_distinct (ms_items s)" using assms(1) by (simp add: store_ok_def)
  have "entry (setLocked iter now key v expiration s) k = None" "entry s k \<noteq> None"
    using assms(4,5) by (simp_all add: entry_def)
  then have "victim_of iter now key s = Some k"
    by (auto simp: setLocked_spec(3)[OF assms(1,2)] split: if_splits)
  then have full: "map_of (ms_items s) key = None" "int (length (ms_items s)) = ms_maxEntries s"
    and victim: "chooseVictim now 0 None ?xs = Some k"
    using assms(1) by (auto simp: victim_of_def store_ok_def split: if_splits)
  have small: "0 + length ?xs \<le> evictionSampleSize" using len assms(3) by (simp add: evictionSampleSize_def)
  have unique: "(k, i) \<in> set (ms_items s) \<Longrightarrow> i = item" for i
    using assms(4) dist by (metis map_of_eq_Some_iff_distinct option.inject)
  show ?thesis
  proof (cases "\<exists>(key, other) \<in> set (ms_items s). past now other")
    case True
    then obtain k' other where "(k', other) \<in> set ?xs" "past now other" using same by blast
    from chooseVictim_past[OF victim small this] same unique full show ?thesis by auto
  next
    case False
    then have alive: "\<And>key other. (key, other) \<in> set ?xs \<Longrightarrow> \<not> past now other" using same by blast
    from chooseVictim_min[OF victim small this] obtain i where i: "(k, i) \<in> set (ms_items s)"
      and least: "\<forall>(_, other) \<in> set (ms_items s). ci_lastAccess i \<le> ci_lastAccess other"
      by (fastforce simp: oldest_def candidates_def same)
    with unique[OF i] False full show ?thesis by auto
  qed
qed

definition lru_demo :: MemoryStore where
  "lru_demo = \<lparr>ms_items = [(''a'', \<lparr>ci_value = CInt 1, ci_expiration = None, ci_lastAccess = 4\<rparr>),
      (''b'', \<lparr>ci_value = CInt 2, ci_expiration = None, ci_lastAccess = 3\<rparr>)],
     ms_prefix = [], ms_accessSeq = 4, ms_maxEntries = 2, ms_maxValueBytes = 0\<rparr>"

theorem evict_lru_witness:
  "map_of (ms_items (setLocked rev 9 ''c'' (CInt 3) None lru_demo)) ''b'' = None \<and>
   int (length (ms_items lru_demo)) = ms_maxEntries lru_demo"
proof -
  have "store_ok lru_demo" by (simp add: store_ok_def lru_demo_def stamps_def)
  moreover have "iteration rev" by (simp add: iteration_def)
  moreover have "map_of (ms_items (setLocked rev 9 ''c'' (CInt 3) None lru_demo)) ''b'' = None"
    by (simp add: lru_demo_def setLocked_def evictSampledLocked_def past_def evictionSampleSize_def
        removeLocked_def touch_def set_item_def numeral_2_eq_2)
  ultimately show ?thesis
    using evict_lru[of lru_demo rev "''b''" "\<lparr>ci_value = CInt 2, ci_expiration = None, ci_lastAccess = 3\<rparr>" 9 "''c''" "CInt 3" None]
    by (simp add: lru_demo_def)
qed

subsection \<open>Conditional operations\<close>

lemma same_config_checkValueSize: "same_config s s' \<Longrightarrow> checkValueSize msize s' = checkValueSize msize s"
  by (auto simp: fun_eq_iff checkValueSize_def same_config_def split: option.splits)

definition live_entry :: "instant \<Rightarrow> (cache_value \<times> instant option) option \<Rightarrow> bool" where
  "live_entry now e = (case e of None \<Rightarrow> False | Some (_, None) \<Rightarrow> True | Some (_, Some t) \<Rightarrow> now < t)"

lemma live_entry_iff:
  "live_entry now (entry s k) = (case map_of (ms_items s) k of None \<Rightarrow> False | Some item \<Rightarrow> live now item)"
  by (auto simp: live_entry_def entry_def live_def split: option.splits)

text \<open>C25: of all the callers that add the same key, one at a time, at most one succeeds while its
  entry lives: an add succeeds exactly when there is no live entry, writes its value with its
  deadline, and makes every add before that deadline fail and change nothing.\<close>

theorem Add_exclusive:
  assumes "store_ok s" and "iteration iter" and "iteration iter'"
    and "checkValueSize msize s v = None" and "checkValueSize msize s v' = None"
    and "AddCtx msize iter now key v ttl s = (s', Inr added)"
  shows "added = (\<not> live_entry now (entry s (prefixedKey s key))) \<and>
    (\<not> added \<longrightarrow> s' = s) \<and>
    (added \<longrightarrow> entry s' (prefixedKey s key) = Some (v, expirationFor now ttl) \<and>
      (ttl \<le> 0 \<or> now' < now + ttl \<longrightarrow> AddCtx msize iter' now' key v' ttl' s' = (s', Inr False)))"
proof (cases "live_entry now (entry s (prefixedKey s key))")
  case True
  with assms(4,6) show ?thesis by (simp add: AddCtx_def live_entry_iff)
next
  case False
  with assms(4,6) have s': "s' = setLocked iter now (prefixedKey s key) v (expirationFor now ttl) s" and "added"
    by (simp_all add: AddCtx_def live_entry_iff Let_def)
  have config: "same_config s s'" using setLocked_spec(2)[OF assms(1,2)] s' by simp
  have e: "entry s' (prefixedKey s key) = Some (v, expirationFor now ttl)" using s' assms(1,2) by simp
  have "live_entry now' (entry s' (prefixedKey s' key))" if "ttl \<le> 0 \<or> now' < now + ttl"
    using that e config by (auto simp: live_entry_def expirationFor_def same_config_prefixedKey)
  moreover have "checkValueSize msize s' v' = None"
    using assms(5) config by (simp add: same_config_checkValueSize)
  ultimately show ?thesis
    using False e \<open>added\<close> by (auto simp: AddCtx_def live_entry_iff Let_def)
qed

theorem Add_exclusive_witness:
  "\<exists>s'. AddCtx (\<lambda>_. None) rev 5 ''a'' (CInt 1) 10 (NewMemoryStore []) = (s', Inr True) \<and>
    AddCtx (\<lambda>_. None) rev 14 ''a'' (CInt 2) 10 s' = (s', Inr False)"
proof -
  have ok: "store_ok (NewMemoryStore [])"
    by (simp add: store_ok_def NewMemoryStore_def DefaultMaxEntries_def stamps_def)
  have it: "iteration rev" by (simp add: iteration_def)
  have size: "checkValueSize (\<lambda>_. None) (NewMemoryStore []) v = None" for v
    by (simp add: checkValueSize_def NewMemoryStore_def)
  obtain s' where s': "AddCtx (\<lambda>_. None) rev 5 ''a'' (CInt 1) 10 (NewMemoryStore []) = (s', Inr True)"
    by (simp add: AddCtx_def checkValueSize_def NewMemoryStore_def Let_def)
  from Add_exclusive[OF ok it it size size s', where now' = 14 and ttl' = 10] s' show ?thesis by auto
qed

text \<open>C26: a compare-and-swap writes exactly when the key has a live entry equal to the expected
  value, and otherwise changes nothing, so of two swaps from the same expected value to values that
  differ from it, one directly after the other, only the first can succeed.\<close>

theorem CompareAndSwap_exact:
  assumes "store_ok s" and "iteration iter" and "checkValueSize msize s v = None"
    and "CompareAndSwapCtx msize iter now key expected v ttl s = (s', r)"
  shows "r = Inr (\<exists>current e. entry s (prefixedKey s key) = Some (current, e) \<and>
      live_entry now (Some (current, e)) \<and> deep_equal current expected) \<and>
    (if r = Inr True then entry s' = (entry s)(prefixedKey s key \<mapsto> (v, expirationFor now ttl)) else s' = s) \<and>
    (r = Inr True \<and> \<not> deep_equal v expected \<longrightarrow>
      CompareAndSwapCtx msize iter now' key expected v' ttl' s' \<in> {(s', Inr False)} \<union>
        (\<lambda>e. (s', Inl e)) ` set_option (checkValueSize msize s v'))"
proof (cases "map_of (ms_items s) (prefixedKey s key)")
  case None
  with assms(3,4) show ?thesis by (auto simp: CompareAndSwapCtx_def Let_def entry_def)
next
  case (Some item)
  show ?thesis
  proof (cases "live now item \<and> deep_equal (ci_value item) expected")
    case False
    with Some assms(3,4) show ?thesis
      by (auto simp: CompareAndSwapCtx_def Let_def entry_def live_entry_def live_def split: option.splits if_splits)
  next
    case True
    with Some assms(3,4) have s': "s' = setLocked iter now (prefixedKey s key) v (expirationFor now ttl) s"
      and r: "r = Inr True" by (simp_all add: CompareAndSwapCtx_def Let_def)
    note spec = setLocked_spec[OF assms(1,2)]
    have "victim_of iter now (prefixedKey s key) s = None" using Some by (simp add: victim_of_def)
    then have e: "entry s' = (entry s)(prefixedKey s key \<mapsto> (v, expirationFor now ttl))"
      using spec(3) s' by (simp add: fun_eq_iff)
    have config: "same_config s s'" using spec(2) s' by simp
    obtain item' where item': "map_of (ms_items s') (prefixedKey s' key) = Some item'" "ci_value item' = v"
      using entry_SomeD[of s' "prefixedKey s key" v] e same_config_prefixedKey[OF config] by auto
    have "r = Inr True \<and> \<not> deep_equal v expected \<longrightarrow>
      CompareAndSwapCtx msize iter now' key expected v' ttl' s' \<in> {(s', Inr False)} \<union>
        (\<lambda>e. (s', Inl e)) ` set_option (checkValueSize msize s v')"
      using item' same_config_checkValueSize[OF config, of msize]
      by (auto simp: CompareAndSwapCtx_def Let_def split: option.splits)
    moreover have "\<exists>current e. entry s (prefixedKey s key) = Some (current, e) \<and>
        live_entry now (Some (current, e)) \<and> deep_equal current expected"
      using True Some by (auto simp: entry_def live_entry_def live_def split: option.splits)
    ultimately show ?thesis using r e by simp
  qed
qed

theorem CompareAndSwap_exact_witness:
  "\<exists>s'. CompareAndSwapCtx (\<lambda>_. None) rev 7 ''a'' (CInt 1) (CInt 5) 0 lru_demo = (s', Inr True) \<and>
    CompareAndSwapCtx (\<lambda>_. None) rev 8 ''a'' (CInt 1) (CInt 6) 0 s' = (s', Inr False)"
proof -
  have ok: "store_ok lru_demo" by (simp add: store_ok_def lru_demo_def stamps_def)
  have it: "iteration rev" by (simp add: iteration_def)
  have size: "checkValueSize (\<lambda>_. None) lru_demo v = None" for v
    by (simp add: checkValueSize_def lru_demo_def)
  obtain s' where s': "CompareAndSwapCtx (\<lambda>_. None) rev 7 ''a'' (CInt 1) (CInt 5) 0 lru_demo = (s', Inr True)"
    by (simp add: CompareAndSwapCtx_def checkValueSize_def lru_demo_def prefixedKey_def PrefixKey_def
        live_def deep_equal_def Let_def)
  from CompareAndSwap_exact[OF ok it size s', where now' = 8 and v' = "CInt 6" and ttl' = 0] s' size[of "CInt 6"]
  show ?thesis by (auto simp: deep_equal_def)
qed



subsection \<open>The contract of the Remember helpers\<close>

locale cache_store =
  fixes get :: "'s \<Rightarrow> 's \<times> 'v option"
    and put :: "'v \<Rightarrow> 's \<Rightarrow> 's \<times> 'e option"
    and inv :: "'s \<Rightarrow> bool"
  assumes inv_get: "inv s \<Longrightarrow> inv (fst (get s))"
    and get_again: "inv s \<Longrightarrow> snd (get (fst (get s))) = snd (get s)"
    and inv_put: "inv s \<Longrightarrow> inv (fst (put v s))"
    and get_put: "inv s \<Longrightarrow> put v s = (s', None) \<Longrightarrow> snd (get s') = Some v"
begin

lemma remember_hit:
  assumes "inv s" and "RememberFrom get put callback s = (s', Inr v, called)"
  shows "inv s' \<and> snd (get s') = Some v"
proof -
  obtain s1 r where g: "get s = (s1, r)" by fastforce
  have s1: "inv s1" "snd (get s1) = r" using inv_get[OF assms(1)] get_again[OF assms(1)] g by simp_all
  obtain s2 err where p: "put callback s1 = (s2, err)" by fastforce
  show ?thesis
    using assms(2) g s1 p inv_put[OF s1(1), of callback] get_put[OF s1(1), of callback]
    by (auto simp: RememberFrom_def split: option.splits)
qed

lemma remember_once:
  assumes "inv s" and "RememberFrom get put callback s = (s', Inr v, called)"
  shows "\<exists>s''. RememberFrom get put callback' s' = (s'', Inr v, False)"
proof -
  obtain s'' where "get s' = (s'', Some v)" using remember_hit[OF assms] by (metis prod.collapse)
  then show ?thesis by (simp add: RememberFrom_def)
qed

end

locale memory_store =
  fixes msize :: msize_fn and iter :: iter_fn and now :: instant and key :: string and ttl :: duration
  assumes iter: "iteration iter"

lemma entry_GetCtx: "entry (fst (GetCtx now key s)) = entry s"
proof -
  have "entry (set_item k item' s') = entry s"
    if "map_of (ms_items s) k = Some item" "touch s item = (s', item')" for k item s' item'
    using that entry_items[OF touch_simps(1)[OF that(2)]] touch_simps(3,4)[OF that(2)]
    by (auto simp: entry_set_item fun_eq_iff) (simp add: entry_def)
  then show ?thesis by (auto simp: GetCtx_def split: option.splits prod.splits)
qed

sublocale memory_store \<subseteq> remember: cache_store "GetCtx now key" "\<lambda>v. PutCtx msize iter now key v ttl" store_ok
proof
  fix s s' :: MemoryStore and v
  assume ok: "store_ok s"
  have config: "same_config s (fst (GetCtx now key s))"
    using ok_after_GetCtx[OF ok] by (simp add: ok_after_def)
  show "store_ok (fst (GetCtx now key s))" using ok_after_GetCtx[OF ok] by (simp add: ok_after_def)
  show "snd (GetCtx now key (fst (GetCtx now key s))) = snd (GetCtx now key s)"
    by (simp add: GetCtx_result entry_GetCtx same_config_prefixedKey[OF config])
  show "store_ok (fst (PutCtx msize iter now key v ttl s))"
    using ok_after_step[OF ok iter, of msize now "OpPut key v ttl"] by (simp add: ok_after_def)
  assume "PutCtx msize iter now key v ttl s = (s', None)"
  from Get_after_Put[OF ok iter this] show "snd (GetCtx now key s') = Some v" by auto
qed

context memory_store
begin

lemma memory_remember_once:
  "store_ok s \<Longrightarrow> Remember msize iter now key ttl callback s = (s', Inr v, called) \<Longrightarrow>
    \<exists>s''. Remember msize iter now key ttl callback' s' = (s'', Inr v, False)"
  unfolding Remember_def by (rule remember.remember_once)

end

interpretation in_order: memory_store msize "\<lambda>items. items" now key ttl for msize now key ttl
  by unfold_locales (simp add: iteration_def)

text \<open>Once a remembered value was returned, asking for it again at the same instant returns the
  same value and does not run the callback, whatever map iteration order the store uses.\<close>

theorem Remember_once:
  assumes "store_ok s" and "iteration iter" and "Remember msize iter now key ttl callback s = (s', Inr v, called)"
  shows "\<exists>s''. Remember msize iter now key ttl callback' s' = (s'', Inr v, False)"
  using memory_store.memory_remember_once[OF memory_store.intro, OF assms(2,1,3)] .

theorem Remember_once_witness:
  "\<exists>s' s''. Remember (\<lambda>_. None) rev 5 ''k'' 10 (CInt 1) (NewMemoryStore []) = (s', Inr (CInt 1), True) \<and>
    Remember (\<lambda>_. None) rev 5 ''k'' 10 (CInt 2) s' = (s'', Inr (CInt 1), False)"
proof -
  have ok: "store_ok (NewMemoryStore [])"
    by (simp add: store_ok_def NewMemoryStore_def DefaultMaxEntries_def stamps_def)
  have it: "iteration rev" by (simp add: iteration_def)
  obtain s' where "Remember (\<lambda>_. None) rev 5 ''k'' 10 (CInt 1) (NewMemoryStore []) = (s', Inr (CInt 1), True)"
    by (simp add: Remember_def RememberFrom_def GetCtx_def PutCtx_def checkValueSize_def NewMemoryStore_def)
  with Remember_once[OF ok it this, of "CInt 2"] show ?thesis by blast
qed

end
