(* ===== verification/Cache_Lock.thy ===== *)
theory Cache_Lock
  imports Cache_Memory
begin

text \<open>
  The in-memory lock (\<open>cache/drivers/memory_lock.go\<close>) and the lock runners all drivers
  share (\<open>cache/drivers/lock_run.go\<close>): acquisition with a time to live, release by the
  owner, running a callback under the lock, and blocking until the lock is free.

  The runners take the lock's operations as arguments, as the interface \<open>lockRunner\<close>
  does. Time passes in the pauses of the blocking loop only; \<open>env\<close> is what other
  goroutines do to the state during a pause, \<open>cancelled\<close> whether the caller's context
  has ended at an instant.
\<close>

subsection \<open>Locks\<close>

record memoryLockEntry =
  le_owner :: string
  le_expiresAt :: "instant option"

type_synonym lock_store = "string \<rightharpoonup> memoryLockEntry"

datatype lock_error = InvalidLockTTL

definition lock_past :: "instant \<Rightarrow> memoryLockEntry \<Rightarrow> bool" where
  "lock_past now e = (case le_expiresAt e of None \<Rightarrow> False | Some t \<Rightarrow> now > t)"

definition lock_acquire :: "instant \<Rightarrow> string \<Rightarrow> string \<Rightarrow> duration \<Rightarrow> lock_store \<Rightarrow> lock_store \<times> bool" where
  "lock_acquire now key owner ttl locks =
     (let new = \<lparr>le_owner = owner, le_expiresAt = (if ttl > 0 then Some (now + ttl) else None)\<rparr> in
      case locks key of
        Some entry \<Rightarrow> if lock_past now entry then ((locks(key := None))(key \<mapsto> new), True) else (locks, False)
      | None \<Rightarrow> (locks(key \<mapsto> new), True))"

definition lock_release :: "string \<Rightarrow> string \<Rightarrow> lock_store \<Rightarrow> lock_store \<times> bool" where
  "lock_release key owner locks =
     (case locks key of
        None \<Rightarrow> (locks, False)
      | Some entry \<Rightarrow> if le_owner entry \<noteq> owner then (locks, False) else (locks(key := None), True))"

definition lock_forceRelease :: "string \<Rightarrow> lock_store \<Rightarrow> lock_store" where
  "lock_forceRelease key locks = locks(key := None)"

record MemoryLock =
  ml_key :: string
  ml_owner :: string
  ml_ttl :: duration

definition MemoryLock_GetWithErr ::
  "bool \<Rightarrow> instant \<Rightarrow> MemoryLock \<Rightarrow> lock_store \<Rightarrow> lock_store \<times> (lock_error + bool)" where
  "MemoryLock_GetWithErr ctxErr now l locks =
     (if ctxErr then (locks, Inr False)
      else if ml_ttl l \<le> 0 then (locks, Inl InvalidLockTTL)
      else (let (locks, got) = lock_acquire now (ml_key l) (ml_owner l) (ml_ttl l) locks in (locks, Inr got)))"

definition MemoryLock_Get :: "bool \<Rightarrow> instant \<Rightarrow> MemoryLock \<Rightarrow> lock_store \<Rightarrow> lock_store \<times> bool" where
  "MemoryLock_Get ctxErr now l locks =
     (case MemoryLock_GetWithErr ctxErr now l locks of
        (locks, Inr acquired) \<Rightarrow> (locks, acquired) | (locks, Inl _) \<Rightarrow> (locks, False))"

definition MemoryLock_Release :: "bool \<Rightarrow> MemoryLock \<Rightarrow> lock_store \<Rightarrow> lock_store \<times> bool" where
  "MemoryLock_Release ctxErr l locks =
     (if ctxErr then (locks, False) else lock_release (ml_key l) (ml_owner l) locks)"

definition MemoryLock_ForceRelease :: "bool \<Rightarrow> MemoryLock \<Rightarrow> lock_store \<Rightarrow> lock_store \<times> bool" where
  "MemoryLock_ForceRelease ctxErr l locks =
     (if ctxErr then (locks, False) else (lock_forceRelease (ml_key l) locks, True))"

text \<open>\<open>owner\<close> is the fresh identifier the store generates for each lock.\<close>

definition MemoryStore_Lock :: "string \<Rightarrow> string \<Rightarrow> string \<Rightarrow> duration option \<Rightarrow> MemoryLock" where
  "MemoryStore_Lock owner prefx key ttl =
     \<lparr>ml_key = PrefixKey prefx (''lock:'' @ key), ml_owner = owner,
      ml_ttl = (case ttl of None \<Rightarrow> 0 | Some d \<Rightarrow> d)\<rparr>"

definition MemoryStore_RestoreLock :: "string \<Rightarrow> string \<Rightarrow> string \<Rightarrow> MemoryLock" where
  "MemoryStore_RestoreLock prefx key owner =
     \<lparr>ml_key = PrefixKey prefx (''lock:'' @ key), ml_owner = owner, ml_ttl = 0\<rparr>"

subsection \<open>Running under a lock\<close>

datatype lock_outcome = LockNotAcquired | LockTimeout | LockCancelled | CallbackReturned | CallbackPanicked

text \<open>The release is deferred, so it runs when the callback panics as well.\<close>

definition run_held ::
  "('s \<Rightarrow> 's \<times> bool) \<Rightarrow> ('s \<Rightarrow> 's \<times> bool) \<Rightarrow> 's \<Rightarrow> 's \<times> lock_outcome" where
  "run_held release callback s =
     (let (s, panicked) = callback s; s = fst (release s)
      in (s, if panicked then CallbackPanicked else CallbackReturned))"

definition RunLock ::
  "('s \<Rightarrow> 's \<times> bool) \<Rightarrow> ('s \<Rightarrow> 's \<times> bool) \<Rightarrow> ('s \<Rightarrow> 's \<times> bool) \<Rightarrow> 's \<Rightarrow> 's \<times> lock_outcome" where
  "RunLock get release callback s =
     (case get s of
        (s, False) \<Rightarrow> (s, LockNotAcquired)
      | (s, True) \<Rightarrow> run_held release callback s)"

definition lockBlockRetryInterval :: duration where
  "lockBlockRetryInterval = 100000000"

function blockLock ::
  "(instant \<Rightarrow> bool) \<Rightarrow> (instant \<Rightarrow> 's \<Rightarrow> 's) \<Rightarrow> (instant \<Rightarrow> 's \<Rightarrow> 's \<times> bool) \<Rightarrow> ('s \<Rightarrow> 's \<times> bool) \<Rightarrow>
   ('s \<Rightarrow> 's \<times> bool) \<Rightarrow> instant \<Rightarrow> instant \<Rightarrow> 's \<Rightarrow> 's \<times> lock_outcome \<times> instant" where
  "blockLock cancelled env probe release callback deadline now s =
     (if cancelled now then (s, LockCancelled, now)
      else case probe now s of
             (s, True) \<Rightarrow> (let (s, r) = run_held release callback s in (s, r, now))
           | (s, False) \<Rightarrow>
               if now > deadline then (s, LockTimeout, now)
               else if cancelled (now + lockBlockRetryInterval)
                    then (env now s, LockCancelled, now + lockBlockRetryInterval)
                    else blockLock cancelled env probe release callback deadline
                           (now + lockBlockRetryInterval) (env now s))"
  by pat_completeness auto
termination
  by (relation "measure (\<lambda>(_, _, _, _, _, deadline, now, _). nat (deadline + 1 - now))")
    (auto simp: lockBlockRetryInterval_def)

declare blockLock.simps [simp del]

definition BlockLock ::
  "(instant \<Rightarrow> bool) \<Rightarrow> (instant \<Rightarrow> 's \<Rightarrow> 's) \<Rightarrow> (instant \<Rightarrow> 's \<Rightarrow> 's \<times> bool) \<Rightarrow> ('s \<Rightarrow> 's \<times> bool) \<Rightarrow>
   ('s \<Rightarrow> 's \<times> bool) \<Rightarrow> duration \<Rightarrow> instant \<Rightarrow> 's \<Rightarrow> 's \<times> lock_outcome \<times> instant" where
  "BlockLock cancelled env get release callback timeout now s =
     blockLock cancelled env get release callback (now + timeout) now s"

subsection \<open>Histories\<close>

datatype lock_op =
    LAcquire string string duration
  | LRelease string string
  | LForceRelease string

fun lock_step :: "instant \<Rightarrow> lock_op \<Rightarrow> lock_store \<Rightarrow> lock_store \<times> bool" where
  "lock_step now (LAcquire key owner ttl) locks = lock_acquire now key owner ttl locks"
| "lock_step now (LRelease key owner) locks = lock_release key owner locks"
| "lock_step now (LForceRelease key) locks = (lock_forceRelease key locks, True)"

fun lock_run :: "(instant \<times> lock_op) list \<Rightarrow> lock_store \<Rightarrow> lock_store \<times> bool list" where
  "lock_run [] locks = (locks, [])"
| "lock_run ((now, op) # rest) locks =
     (let (locks, r) = lock_step now op locks; (locks, rs) = lock_run rest locks in (locks, r # rs))"

text \<open>An operation that takes the lock on \<open>key\<close> away from \<open>owner\<close>.\<close>

fun frees :: "string \<Rightarrow> string \<Rightarrow> lock_op \<Rightarrow> bool" where
  "frees key owner (LAcquire k o' ttl) = False"
| "frees key owner (LRelease k o') = (k = key \<and> o' = owner)"
| "frees key owner (LForceRelease k) = (k = key)"

definition holds :: "string \<Rightarrow> string \<Rightarrow> instant \<Rightarrow> lock_store \<Rightarrow> bool" where
  "holds key owner until locks \<longleftrightarrow> locks key = Some \<lparr>le_owner = owner, le_expiresAt = Some until\<rparr>"

lemma lock_step_holds:
  assumes "holds key owner until locks" and "now \<le> until" and "\<not> frees key owner op"
  shows "holds key owner until (fst (lock_step now op locks)) \<and>
    (\<forall>o' ttl. op = LAcquire key o' ttl \<longrightarrow> \<not> snd (lock_step now op locks))"
  using assms
  by (cases op) (auto simp: holds_def lock_acquire_def lock_release_def lock_forceRelease_def lock_past_def
      Let_def split: option.splits)

lemma lock_run_holds:
  assumes "holds key owner until locks" and "\<forall>(now, op) \<in> set ops. now \<le> until \<and> \<not> frees key owner op"
  shows "holds key owner until (fst (lock_run ops locks))"
  using assms
proof (induction ops arbitrary: locks)
  case (Cons x ops)
  obtain now op where x: "x = (now, op)" by fastforce
  have "holds key owner until (fst (lock_step now op locks))"
    using lock_step_holds[OF Cons.prems(1), of now op] Cons.prems(2) x by simp
  with Cons.IH Cons.prems(2) x show ?case by (auto simp: split_def Let_def)
qed simp

text \<open>C13: while a lock is held no one else gets it: from a successful acquisition until its time to
  live has passed, and as long as neither its owner releases it nor someone releases it by force, every
  attempt to acquire the key fails, whatever other operations are interleaved; and an acquisition
  succeeds exactly when the key is free or its lock has expired.\<close>

theorem lock_exclusive:
  assumes "lock_acquire now key owner ttl locks = (locks', got)" and "ttl > 0"
    and "\<forall>(t, op) \<in> set ops. t \<le> now + ttl \<and> \<not> frees key owner op" and "t \<le> now + ttl"
  shows "got = (case locks key of None \<Rightarrow> True | Some e \<Rightarrow> lock_past now e) \<and>
    (got \<longrightarrow> snd (lock_acquire t key owner' ttl' (fst (lock_run ops locks'))) = False)"
proof -
  have "got = (case locks key of None \<Rightarrow> True | Some e \<Rightarrow> lock_past now e)"
    using assms(1) by (auto simp: lock_acquire_def Let_def split: option.splits if_splits)
  moreover have "\<not> snd (lock_acquire t key owner' ttl' (fst (lock_run ops locks')))" if got
  proof -
    have "holds key owner (now + ttl) locks'"
      using assms(1,2) that by (auto simp: lock_acquire_def holds_def Let_def split: option.splits if_splits)
    from lock_step_holds[OF lock_run_holds[OF this assms(3)] assms(4), of "LAcquire key owner' ttl'"]
    show ?thesis by simp
  qed
  ultimately show ?thesis by simp
qed

theorem lock_exclusive_witness:
  "\<exists>locks'. lock_acquire 0 ''k'' ''me'' 10 Map.empty = (locks', True) \<and>
    \<not> snd (lock_acquire 10 ''k'' ''you'' 5
        (fst (lock_run [(3, LRelease ''k'' ''you''), (4, LForceRelease ''j'')] locks')))"
proof -
  obtain locks' where l: "lock_acquire 0 ''k'' ''me'' 10 Map.empty = (locks', True)"
    by (simp add: lock_acquire_def)
  from lock_exclusive[OF l, where ops = "[(3, LRelease ''k'' ''you''), (4, LForceRelease ''j'')]"
      and t = 10 and owner' = "''you''" and ttl' = 5] l show ?thesis by auto
qed

subsection \<open>The contract of the runners\<close>

locale lock_runner =
  fixes get :: "'s \<Rightarrow> 's \<times> bool" and release :: "'s \<Rightarrow> 's \<times> bool" and held :: "'s \<Rightarrow> bool"
  assumes get_held: "get s = (s', True) \<Longrightarrow> held s'"
    and get_refused: "get s = (s', False) \<Longrightarrow> s' = s"
    and release_frees: "held s \<Longrightarrow> \<not> held (fst (release s))"
begin

lemma run_lock:
  assumes "RunLock get release callback s = (s', r)" and "\<And>s. held s \<Longrightarrow> held (fst (callback s))"
  shows "if r = LockNotAcquired then s' = s \<and> \<not> snd (get s)
    else \<exists>s1. get s = (s1, True) \<and> held s1 \<and> \<not> held s' \<and> s' = fst (release (fst (callback s1)))"
proof -
  obtain s1 got where g: "get s = (s1, got)" by fastforce
  show ?thesis
  proof (cases got)
    case True
    with g get_held have "held s1" by simp
    with assms(2) have "\<not> held (fst (release (fst (callback s1))))" by (simp add: release_frees)
    with True g assms(1) \<open>held s1\<close> show ?thesis
      by (auto simp: RunLock_def run_held_def Let_def split_def split: if_splits)
  next
    case False
    with g get_refused assms(1) show ?thesis by (auto simp: RunLock_def)
  qed
qed

end

definition owned :: "MemoryLock \<Rightarrow> lock_store \<Rightarrow> bool" where
  "owned l locks \<longleftrightarrow> (case locks (ml_key l) of None \<Rightarrow> False | Some e \<Rightarrow> le_owner e = ml_owner l)"

interpretation memory_lock: lock_runner "MemoryLock_Get False now l" "MemoryLock_Release False l" "owned l"
  for now l
  by unfold_locales
    (auto simp: MemoryLock_Get_def MemoryLock_GetWithErr_def MemoryLock_Release_def lock_acquire_def
      lock_release_def owned_def Let_def split: if_splits option.splits)



text \<open>With a context that ended during the callback the deferred release does nothing.\<close>

lemma RunLock_cancelled_keeps_lock:
  assumes "RunLock (MemoryLock_Get False now l) (MemoryLock_Release True l) (\<lambda>s. (s, False)) locks =
      (locks', CallbackReturned)"
  shows "owned l locks'"
proof -
  obtain locks1 where "MemoryLock_Get False now l locks = (locks1, True)" and "locks' = locks1"
    using assms by (auto simp: RunLock_def run_held_def MemoryLock_Release_def split: prod.splits bool.splits)
  with memory_lock.get_held show ?thesis by blast
qed

subsection \<open>Blocking\<close>

lemma blockLock_result:
  assumes "blockLock cancelled env probe release callback deadline now s = (s', r, t)"
  shows "now \<le> t \<and> t \<le> max now (deadline + lockBlockRetryInterval) \<and> lockBlockRetryInterval dvd (t - now) \<and>
    (case r of
       LockTimeout \<Rightarrow> t > deadline
     | LockCancelled \<Rightarrow> cancelled t
     | LockNotAcquired \<Rightarrow> False
     | _ \<Rightarrow> \<exists>s0 s1. probe t s0 = (s1, True) \<and> run_held release callback s1 = (s', r))"
  using assms
proof (induction cancelled env probe release callback deadline now s rule: blockLock.induct)
  case (1 cancelled env probe release callback deadline now s)
  let ?int = lockBlockRetryInterval
  have pos: "?int > 0" by (simp add: lockBlockRetryInterval_def)
  obtain s1 got where p: "probe now s = (s1, got)" by fastforce
  note unfolded = "1.prems"[unfolded blockLock.simps[of cancelled env probe release callback deadline now s] p]
  consider (stop) "t = now" "r = LockTimeout \<and> t > deadline \<or> r = LockCancelled \<and> cancelled t"
    | (run) "t = now" "got" "run_held release callback s1 = (s', r)"
    | (cancel) "t = now + ?int" "r = LockCancelled" "cancelled t" "now \<le> deadline"
    | (again) "\<not> cancelled now" "\<not> got" "now \<le> deadline" "\<not> cancelled (now + ?int)"
        "blockLock cancelled env probe release callback deadline (now + ?int) (env now s1) = (s', r, t)"
    using unfolded p
    by (cases got) (auto split: if_splits prod.splits)
  then show ?case
  proof cases
    case run
    then have "r = CallbackPanicked \<or> r = CallbackReturned"
      by (auto simp: run_held_def Let_def split: prod.splits if_splits)
    moreover have "probe t s = (s1, True)" using run p by simp
    ultimately show ?thesis using run pos by (auto split: lock_outcome.splits)
  next
    case again
    then have got: "got = False" by simp
    from "1.IH"[OF again(1) p[symmetric] got _ again(4) again(5)] again(3)
    have IH: "now + ?int \<le> t \<and> t \<le> max (now + ?int) (deadline + ?int) \<and> ?int dvd (t - (now + ?int)) \<and>
      (case r of
         LockTimeout \<Rightarrow> t > deadline | LockCancelled \<Rightarrow> cancelled t | LockNotAcquired \<Rightarrow> False
       | _ \<Rightarrow> \<exists>s0 s1. probe t s0 = (s1, True) \<and> run_held release callback s1 = (s', r))" by simp
    then have "?int dvd (t - (now + ?int) + ?int)" by (intro dvd_add) auto
    with IH again(3) pos show ?thesis by auto
  qed (use pos in auto)
qed



end
