(* ===== verification/Buckets.thy ===== *)
theory Buckets
  imports Prelude "HOL-Library.Multiset"
begin

text \<open>
  Maps whose entries are collections, \<open>map[string]*list.List\<close> and the like: the
  collection under a key, empty when the key is absent, and the multiset of all that
  the map holds.
\<close>

definition bucket :: "('k, 'v list) gomap \<Rightarrow> 'k \<Rightarrow> 'v list" where
  "bucket m k = (case map_of m k of None \<Rightarrow> [] | Some q \<Rightarrow> q)"

definition contents :: "('k, 'v list) gomap \<Rightarrow> 'v multiset" where
  "contents m = mset (concat (map snd m))"

lemma bucket_update [simp]: "bucket (AList.update k q m) k' = (if k' = k then q else bucket m k')"
  by (simp add: bucket_def)

lemma bucket_delete [simp]: "bucket (AList.delete k m) k' = (if k' = k then [] else bucket m k')"
  by (simp add: bucket_def)

lemma bucket_Nil [simp]: "bucket [] k = []"
  by (simp add: bucket_def)

lemma bucket_Cons: "bucket ((k, q) # m) k' = (if k' = k then q else bucket m k')"
  by (simp add: bucket_def)

lemma bucket_None: "map_of m k = None \<Longrightarrow> bucket m k = []"
  by (simp add: bucket_def)

lemma contents_Nil [simp]: "contents [] = {#}"
  by (simp add: contents_def)

lemma contents_Cons [simp]: "contents ((k, q) # m) = mset q + contents m"
  by (simp add: contents_def)

lemma contents_delete:
  "keys_distinct m \<Longrightarrow> contents m = mset (bucket m k) + contents (AList.delete k m)"
proof (induction m)
  case Nil
  then show ?case by (simp add: bucket_def)
next
  case (Cons kv m)
  obtain k' q where kv: "kv = (k', q)" by force
  show ?case
  proof (cases "k' = k")
    case True
    with Cons.prems kv have "map_of m k = None" by (auto simp: map_of_eq_None_iff)
    then have "AList.delete k m = m" by (simp add: delete_id map_of_eq_None_iff)
    with True kv show ?thesis by (simp add: bucket_def)
  next
    case False
    with Cons kv show ?thesis by (simp add: bucket_def)
  qed
qed

lemma delete_update_same [simp]: "AList.delete k (AList.update k v m) = AList.delete k m"
  by (induction m) auto

lemma contents_update:
  "keys_distinct m \<Longrightarrow> contents (AList.update k q m) = mset q + contents (AList.delete k m)"
  using contents_delete[of "AList.update k q m" k] by (simp add: keys_distinct_update)

lemma contents_replace:
  assumes "keys_distinct m"
  shows "contents (AList.update k q m) + mset (bucket m k) = contents m + mset q"
  using contents_delete[OF assms, of k] contents_update[OF assms, of k q] by simp

lemma contents_append:
  assumes "keys_distinct m"
  shows "contents (AList.update k (bucket m k @ xs) m) = contents m + mset xs"
  using contents_delete[OF assms, of k] contents_update[OF assms] by simp

lemma contents_tl:
  assumes "keys_distinct m" "bucket m k = x # xs"
  shows "contents m = add_mset x (contents (AList.update k xs m))"
  using contents_delete[OF assms(1), of k] contents_update[OF assms(1)] assms(2) by simp

lemma in_contents_iff:
  "keys_distinct m \<Longrightarrow> x \<in># contents m \<longleftrightarrow> (\<exists>k. x \<in> set (bucket m k))"
proof
  assume "keys_distinct m" "x \<in># contents m"
  then obtain k q where "(k, q) \<in> set m" "x \<in> set q" by (auto simp: contents_def)
  with \<open>keys_distinct m\<close> have "bucket m k = q"
    by (simp add: bucket_def map_of_eq_Some_iff_distinct[symmetric] split: option.splits)
  with \<open>x \<in> set q\<close> show "\<exists>k. x \<in> set (bucket m k)" by auto
next
  assume "keys_distinct m" "\<exists>k. x \<in> set (bucket m k)"
  then obtain k where "x \<in> set (bucket m k)" by auto
  with contents_delete[OF \<open>keys_distinct m\<close>, of k] show "x \<in># contents m" by simp
qed

end
