(* ===== verification/Binary_Heap.thy ===== *)
theory Binary_Heap
  imports Main "HOL-Library.Multiset"
begin

text \<open>
  The array heap of Go's \<open>container/heap\<close>, over a list and an integer key, as the
  delayed jobs of the queue use it: \<open>up\<close> and \<open>down\<close> are its two loops, \<open>Push\<close> and
  \<open>Pop\<close> its two operations. The contract of a priority queue is a locale that the
  heap is an instance of.
\<close>

subsection \<open>The loops\<close>

definition swap :: "'a list \<Rightarrow> nat \<Rightarrow> nat \<Rightarrow> 'a list" where
  "swap xs i j = xs[i := xs ! j, j := xs ! i]"

definition parent :: "nat \<Rightarrow> nat" where
  "parent j = (j - 1) div 2"

lemma parent_less [termination_simp]: "parent j \<noteq> j \<Longrightarrow> parent j < j"
  by (auto simp: parent_def)

fun heap_up :: "('a \<Rightarrow> int) \<Rightarrow> 'a list \<Rightarrow> nat \<Rightarrow> 'a list" where
  "heap_up key xs j =
     (let i = parent j in
      if i = j \<or> \<not> key (xs ! j) < key (xs ! i) then xs else heap_up key (swap xs i j) i)"

declare heap_up.simps [simp del]

definition least_child :: "('a \<Rightarrow> int) \<Rightarrow> nat \<Rightarrow> 'a list \<Rightarrow> nat \<Rightarrow> nat" where
  "least_child key n xs i =
     (let j1 = 2 * i + 1; j2 = j1 + 1 in
      if j2 < n \<and> key (xs ! j2) < key (xs ! j1) then j2 else j1)"

lemma least_child_bounds:
  "i < least_child key n xs i"
  "2 * i + 1 < n \<Longrightarrow> least_child key n xs i < n"
  by (auto simp: least_child_def Let_def)

function heap_down :: "('a \<Rightarrow> int) \<Rightarrow> nat \<Rightarrow> 'a list \<Rightarrow> nat \<Rightarrow> 'a list" where
  "heap_down key n xs i =
     (if 2 * i + 1 \<ge> n then xs
      else
        let j = least_child key n xs i
        in if \<not> key (xs ! j) < key (xs ! i) then xs else heap_down key n (swap xs i j) j)"
  by pat_completeness auto
termination
proof (relation "measure (\<lambda>(_, n, _, i). n - i)")
  fix key :: "'a \<Rightarrow> int" and n xs i j
  assume "\<not> n \<le> 2 * i + 1" "j = least_child key n xs i"
  then show "((key, n, swap xs i j, j), key, n, xs, i) \<in> measure (\<lambda>(_, n, _, i). n - i)"
    using least_child_bounds(1)[of i key n xs] by simp
qed simp

declare heap_down.simps [simp del]

definition heap_Push :: "('a \<Rightarrow> int) \<Rightarrow> 'a \<Rightarrow> 'a list \<Rightarrow> 'a list" where
  "heap_Push key x xs = heap_up key (xs @ [x]) (length xs)"

definition heap_Pop :: "('a \<Rightarrow> int) \<Rightarrow> 'a list \<Rightarrow> 'a \<times> 'a list" where
  "heap_Pop key xs =
     (let n = length xs - 1; xs = heap_down key n (swap xs 0 n) 0 in (xs ! n, take n xs))"

subsection \<open>Permutation\<close>

lemma length_swap [simp]: "length (swap xs i j) = length xs"
  by (simp add: swap_def)

lemma nth_swap:
  "i < length xs \<Longrightarrow> j < length xs \<Longrightarrow>
    swap xs i j ! k = (if k = j then xs ! i else if k = i then xs ! j else xs ! k)"
  by (simp add: swap_def nth_list_update)

lemma mset_swap_list [simp]: "i < length xs \<Longrightarrow> j < length xs \<Longrightarrow> mset (swap xs i j) = mset xs"
  by (simp add: swap_def mset_swap)

lemma length_heap_up [simp]: "length (heap_up key xs j) = length xs"
proof (induction key xs j rule: heap_up.induct)
  case (1 key xs j)
  then show ?case by (subst heap_up.simps) (simp add: Let_def)
qed

lemma parent_le: "parent j \<le> j"
  by (simp add: parent_def)

lemma mset_heap_up: "j < length xs \<Longrightarrow> mset (heap_up key xs j) = mset xs"
proof (induction key xs j rule: heap_up.induct)
  case (1 key xs j)
  have "parent j < length xs" using parent_le[of j] "1.prems" by linarith
  with 1 show ?case by (subst heap_up.simps) (simp add: Let_def)
qed

lemma length_heap_down [simp]: "length (heap_down key n xs i) = length xs"
proof (induction key n xs i rule: heap_down.induct)
  case (1 key n xs i)
  then show ?case by (subst heap_down.simps) (simp add: Let_def)
qed

lemma heap_down_frame:
  "n \<le> length xs \<Longrightarrow>
    mset (heap_down key n xs i) = mset xs \<and> (\<forall>k \<ge> n. heap_down key n xs i ! k = xs ! k)"
proof (induction key n xs i rule: heap_down.induct)
  case (1 key n xs i)
  let ?j = "least_child key n xs i"
  show ?case
  proof (cases "2 * i + 1 < n \<and> key (xs ! ?j) < key (xs ! i)")
    case True
    then have j: "i < ?j" "?j < n" using least_child_bounds(1)[of i key n xs] least_child_bounds(2)[of i n key xs] by auto
    have "mset (heap_down key n (swap xs i ?j) ?j) = mset (swap xs i ?j) \<and>
        (\<forall>k \<ge> n. heap_down key n (swap xs i ?j) ?j ! k = swap xs i ?j ! k)"
      using "1.IH"[OF _ refl] True "1.prems" by simp
    with True j "1.prems" show ?thesis
      by (subst (1 2) heap_down.simps) (simp add: Let_def nth_swap)
  next
    case False
    then show ?thesis by (subst (1 2) heap_down.simps) (auto simp: Let_def)
  qed
qed

subsection \<open>Heap order\<close>

definition is_heap :: "('a \<Rightarrow> int) \<Rightarrow> nat \<Rightarrow> 'a list \<Rightarrow> bool" where
  "is_heap key n xs \<longleftrightarrow> (\<forall>k < n. key (xs ! parent k) \<le> key (xs ! k))"

definition heap_above :: "('a \<Rightarrow> int) \<Rightarrow> nat \<Rightarrow> 'a list \<Rightarrow> nat \<Rightarrow> bool" where
  "heap_above key n xs j \<longleftrightarrow>
     (\<forall>k < n. k \<noteq> j \<longrightarrow> key (xs ! parent k) \<le> key (xs ! k)) \<and>
     (\<forall>k < n. k \<noteq> j \<and> parent k = j \<longrightarrow> key (xs ! parent j) \<le> key (xs ! k))"

definition heap_below :: "('a \<Rightarrow> int) \<Rightarrow> nat \<Rightarrow> 'a list \<Rightarrow> nat \<Rightarrow> bool" where
  "heap_below key n xs i \<longleftrightarrow>
     (\<forall>k < n. parent k \<noteq> i \<longrightarrow> key (xs ! parent k) \<le> key (xs ! k)) \<and>
     (\<forall>k < n. k \<noteq> i \<and> parent k = i \<and> parent i \<noteq> i \<longrightarrow> key (xs ! parent i) \<le> key (xs ! k))"

lemma parent_eq_iff: "k \<noteq> i \<Longrightarrow> parent k = i \<longleftrightarrow> k = 2 * i + 1 \<or> k = 2 * i + 2"
  by (auto simp: parent_def)

lemma parent_child: "parent (Suc (2 * i)) = i" "parent (2 * i + 2) = i"
  by (simp_all add: parent_def)

lemma parent_neq: "k \<noteq> 0 \<Longrightarrow> parent k \<noteq> k"
  by (auto simp: parent_def)

lemma heap_above_step:
  assumes heap: "heap_above key (length xs) xs j" and j: "j < length xs"
    and less: "key (xs ! j) < key (xs ! parent j)"
  shows "heap_above key (length xs) (swap xs (parent j) j) (parent j)"
proof -
  let ?i = "parent j"
  have i: "?i < length xs" "?i \<noteq> j" using parent_le[of j] j less by (auto intro: le_less_trans)
  have at: "swap xs ?i j ! k = (if k = j then xs ! ?i else if k = ?i then xs ! j else xs ! k)" for k
    using i j by (simp add: nth_swap)
  have order: "key (xs ! parent k) \<le> key (xs ! k)" if "k < length xs" "k \<noteq> j" for k
    using heap that by (auto simp: heap_above_def)
  have child: "key (xs ! ?i) \<le> key (xs ! k)" if "k < length xs" "k \<noteq> j" "parent k = j" for k
    using heap that by (auto simp: heap_above_def)
  have up: "key (xs ! parent ?i) \<le> key (xs ! ?i)" using order[OF i] .
  have sibling: "key (xs ! ?i) \<le> key (xs ! k)" if "k < length xs" "k \<noteq> j" "parent k = ?i" for k
    using order[of k] that by simp
  have "parent ?i \<noteq> j" using i parent_le[of j] parent_le[of ?i] by linarith
  with i up order child sibling less show ?thesis
    unfolding heap_above_def at by (auto intro: order_trans[OF less_imp_le] order_trans[OF up])
qed

lemma is_heap_heap_up:
  "heap_above key (length xs) xs j \<Longrightarrow> j < length xs \<Longrightarrow> is_heap key (length xs) (heap_up key xs j)"
proof (induction key xs j rule: heap_up.induct)
  case (1 key xs j)
  show ?case
  proof (cases "parent j = j \<or> \<not> key (xs ! j) < key (xs ! parent j)")
    case True
    with "1.prems" show ?thesis
      by (subst heap_up.simps) (auto simp: is_heap_def heap_above_def Let_def not_less)
  next
    case False
    then have "heap_above key (length xs) (swap xs (parent j) j) (parent j)"
      using "1.prems" heap_above_step by blast
    moreover have "parent j < length xs" using parent_le[of j] "1.prems" by linarith
    ultimately show ?thesis
      using False "1.IH"[OF refl False] by (subst heap_up.simps) (simp add: Let_def)
  qed
qed

lemma least_child_least:
  assumes "k < n" "k \<noteq> i" "parent k = i"
  shows "key (xs ! least_child key n xs i) \<le> key (xs ! k)"
  using assms by (auto simp: least_child_def Let_def parent_eq_iff)

lemma parent_least_child: "parent (least_child key n xs i) = i"
  by (simp add: least_child_def Let_def parent_def)

lemma heap_below_step:
  assumes heap: "heap_below key n xs i" and n: "n \<le> length xs" "2 * i + 1 < n"
    and j_def: "j = least_child key n xs i" and less: "key (xs ! j) < key (xs ! i)"
  shows "heap_below key n (swap xs i j) j"
proof -
  have j: "i < j" "j < n" "parent j = i"
    using least_child_bounds(1)[of i key n xs] least_child_bounds(2)[of i n key xs] n
    by (auto simp: j_def parent_least_child)
  have at: "swap xs i j ! k = (if k = j then xs ! i else if k = i then xs ! j else xs ! k)" for k
    using n j by (simp add: nth_swap)
  have order: "key (xs ! parent k) \<le> key (xs ! k)" if "k < n" "parent k \<noteq> i" for k
    using heap that by (auto simp: heap_below_def)
  have down: "key (xs ! parent i) \<le> key (xs ! j)" if "parent i \<noteq> i"
    using heap that j by (auto simp: heap_below_def)
  have least: "key (xs ! j) \<le> key (xs ! k)" if "k < n" "k \<noteq> i" "parent k = i" for k
    using least_child_least[OF that] by (simp add: j_def)
  have grand: "key (xs ! j) \<le> key (xs ! k)" if "k < n" "parent k = j" for k
    using order[of k] that j by auto
  have ne: "parent i \<noteq> j" "k = i \<Longrightarrow> parent k \<noteq> j" for k
    using parent_le[of i] j by auto
  from order down least grand ne j less show ?thesis
    unfolding heap_below_def at by (auto intro: less_imp_le)
qed

lemma is_heap_heap_down:
  "heap_below key n xs i \<Longrightarrow> n \<le> length xs \<Longrightarrow> is_heap key n (heap_down key n xs i)"
proof (induction key n xs i rule: heap_down.induct)
  case (1 key n xs i)
  let ?j = "least_child key n xs i"
  show ?case
  proof (cases "2 * i + 1 < n \<and> key (xs ! ?j) < key (xs ! i)")
    case True
    then show ?thesis
      using "1.IH"[OF _ refl] "1.prems" heap_below_step[OF "1.prems" _ refl]
      by (subst heap_down.simps) (simp add: Let_def)
  next
    case False
    have "key (xs ! i) \<le> key (xs ! k)" if "k < n" "parent k = i" for k
    proof (cases "k = i")
      case False
      with that have "2 * i + 1 < n" by (auto simp: parent_eq_iff)
      with \<open>\<not> (2 * i + 1 < n \<and> key (xs ! ?j) < key (xs ! i))\<close>
      show ?thesis using least_child_least[OF that(1) False that(2), of key xs] by linarith
    qed simp
    then have "is_heap key n xs" using "1.prems" by (auto simp: is_heap_def heap_below_def)
    with False show ?thesis by (subst heap_down.simps) (auto simp: Let_def)
  qed
qed

lemma is_heap_top_least: "is_heap key n xs \<Longrightarrow> k < n \<Longrightarrow> key (xs ! 0) \<le> key (xs ! k)"
proof (induction k rule: less_induct)
  case (less k)
  show ?case
  proof (cases "k = 0")
    case False
    then have "parent k < k" by (simp add: parent_less parent_neq)
    then have "key (xs ! 0) \<le> key (xs ! parent k)" using less by simp
    also have "\<dots> \<le> key (xs ! k)" using less.prems by (simp add: is_heap_def)
    finally show ?thesis .
  qed simp
qed

subsection \<open>Push and Pop\<close>

definition heap_ok :: "('a \<Rightarrow> int) \<Rightarrow> 'a list \<Rightarrow> bool" where
  "heap_ok key xs \<longleftrightarrow> is_heap key (length xs) xs"

lemma heap_ok_Nil [simp]: "heap_ok key []"
  by (simp add: heap_ok_def is_heap_def)

lemma mset_heap_Push [simp]: "mset (heap_Push key x xs) = add_mset x (mset xs)"
  by (simp add: heap_Push_def mset_heap_up)

lemma heap_ok_Push:
  assumes "heap_ok key xs"
  shows "heap_ok key (heap_Push key x xs)"
proof -
  have bound: "parent k < length xs" if "k < length xs" for k
    using parent_le[of k] that by linarith
  have "parent k \<noteq> length xs" if "k < Suc (length xs)" "k \<noteq> length xs" for k
    using parent_le[of k] that by linarith
  with assms have "heap_above key (length (xs @ [x])) (xs @ [x]) (length xs)"
    by (auto simp: heap_above_def heap_ok_def is_heap_def nth_append bound)
  from is_heap_heap_up[OF this] show ?thesis by (simp add: heap_ok_def heap_Push_def)
qed

lemma heap_Pop:
  assumes ok: "heap_ok key xs" and xs: "xs \<noteq> []" and pop: "heap_Pop key xs = (x, ys)"
  shows heap_Pop_head: "x = hd xs"
    and heap_Pop_mset: "mset xs = add_mset x (mset ys)"
    and heap_Pop_ok: "heap_ok key ys"
    and heap_Pop_least: "\<forall>y \<in> set ys. key x \<le> key y"
proof -
  let ?n = "length xs - 1"
  define zs where "zs = swap xs 0 ?n"
  define us where "us = heap_down key ?n zs 0"
  have len: "length us = Suc ?n" "length zs = Suc ?n" "?n < length xs" using xs by (simp_all add: us_def zs_def)
  have at: "zs ! k = (if k = ?n then xs ! 0 else if k = 0 then xs ! ?n else xs ! k)" for k
    using len xs by (simp add: zs_def nth_swap)
  have perm: "mset us = mset xs" and last: "us ! ?n = xs ! 0"
    using heap_down_frame[of ?n zs key 0] len xs at[of ?n] by (simp_all add: us_def zs_def)
  have x: "x = us ! ?n" and ys: "ys = take ?n us"
    using pop by (auto simp: heap_Pop_def us_def zs_def Let_def)
  show head: "x = hd xs" using x last xs by (simp add: hd_conv_nth)
  have "us = ys @ [x]" using len x ys by (metis lessI take_Suc_conv_app_nth take_all_iff order_refl)
  with perm show split: "mset xs = add_mset x (mset ys)" by simp
  have "parent k < ?n" if "k < ?n" for k using parent_le[of k] that by linarith
  then have "heap_below key ?n zs 0"
    using ok by (auto simp: heap_below_def heap_ok_def is_heap_def at) (auto simp: parent_def)
  then have "is_heap key ?n us" unfolding us_def using len(2) by (intro is_heap_heap_down) linarith+
  moreover have "parent k < ?n" if "k < ?n" for k using parent_le[of k] that by linarith
  ultimately show "heap_ok key ys" using len by (simp add: heap_ok_def is_heap_def ys)
  show "\<forall>y \<in> set ys. key x \<le> key y"
  proof
    fix y assume "y \<in> set ys"
    then have "y \<in> set xs" using split by (metis in_multiset_in_set insert_iff set_mset_add_mset_insert)
    then obtain k where "k < length xs" "y = xs ! k" by (auto simp: in_set_conv_nth)
    with ok show "key x \<le> key y"
      using is_heap_top_least head xs by (auto simp: heap_ok_def hd_conv_nth)
  qed
qed

end
