(* ===== verification/Queue_Memory.thy ===== *)
theory Queue_Memory
  imports Buckets Binary_Heap Go_Strings
begin

text \<open>
  The in-memory queue driver of \<open>src/queue/memory.go\<close>, with the admission of a job, its
  wrapper and the registry that rebuilds a job from its payload.

  A job is a value of the application: its \<open>OnQueue\<close>, \<open>JobID\<close>, \<open>MarshalJSON\<close> and
  \<open>Failed\<close> methods are the fields of a record of parameters. A nil job, untyped or typed,
  is \<^const>\<open>None\<close>. Each operation reads the clock at most once; the reading is its
  argument \<open>now\<close>. The \<open>index\<close> field of a delayed job is written by the heap and never
  read, and is left out. An operation returns the error it answers and the driver
  it leaves; a push also returns the event it dispatches.
\<close>

subsection \<open>Jobs and payloads\<close>

datatype qerr =
    ErrNilJob
  | ErrMarshal string
  | ErrJobNotFound string
  | ErrNilPayload
  | ErrEncryptedPayload
  | ErrHydrationPanicked
  | ErrFactory string
  | ErrNoJobFromFactory string
  | ErrPoisonJob qerr
  | ErrLeaseLost
  | ErrFailedHookPanicked
  | ErrContext string

record Payload =
  pl_Type :: string
  pl_Data :: string
  pl_Queue :: string
  pl_Attempts :: int
  pl_CreatedAt :: instant
  pl_TraceID :: string
  pl_SpanID :: string
  pl_ParentID :: string
  pl_Signature :: string
  pl_Encrypted :: bool
  pl_DedupeKey :: string
  pl_DatabaseID :: int

record TraceContext =
  tc_TraceID :: string
  tc_SpanID :: string
  tc_ParentID :: string

definition noTrace :: TraceContext where
  "noTrace = \<lparr>tc_TraceID = [], tc_SpanID = [], tc_ParentID = []\<rparr>"

record ReservationToken =
  rt_ID :: int
  rt_Attempts :: int
  rt_ReservedBy :: string

definition zeroToken :: ReservationToken where
  "zeroToken = \<lparr>rt_ID = 0, rt_Attempts = 0, rt_ReservedBy = []\<rparr>"

definition IsZero :: "ReservationToken \<Rightarrow> bool" where
  "IsZero t \<longleftrightarrow> rt_ID t = 0"

datatype 'j factory_result = FactoryJob "'j option" | FactoryError string | FactoryPanic

record 'j JobCode =
  jc_Type :: "'j \<Rightarrow> string"
  jc_OnQueue :: "'j \<Rightarrow> string option"
  jc_Identifiable :: "'j \<Rightarrow> bool"
  jc_Marshal :: "'j \<Rightarrow> string + string"
  jc_FailedPanics :: "'j \<Rightarrow> string \<Rightarrow> bool"
  jc_handlers :: "string \<Rightarrow> (string \<Rightarrow> 'j factory_result) option"

record QCtx =
  cx_Err :: "string option"
  cx_Trace :: TraceContext

definition ctxErr :: "QCtx \<Rightarrow> qerr option" where
  "ctxErr ctx = map_option ErrContext (cx_Err ctx)"

record 'j jobWrapper =
  jw_Job :: "'j option"
  jw_Payload :: "Payload option"
  jw_DedupeKey :: string

subsection \<open>The registry\<close>

definition normalizeJobType :: "string \<Rightarrow> string" where
  "normalizeJobType s =
     (let s = (if has_prefix s ''*'' then tl s else s)
      in last (split_byte CHR ''.'' s))"

definition rebuildContained :: "(string \<Rightarrow> 'j factory_result) \<Rightarrow> string \<Rightarrow> qerr + 'j option" where
  "rebuildContained handler data =
     (case handler data of
        FactoryPanic \<Rightarrow> Inl ErrHydrationPanicked
      | FactoryError text \<Rightarrow> Inl (ErrFactory text)
      | FactoryJob job \<Rightarrow> Inr job)"

definition Deserialize :: "'j JobCode \<Rightarrow> Payload \<Rightarrow> qerr + 'j" where
  "Deserialize code payload =
     (case jc_handlers code (normalizeJobType (pl_Type payload)) of
        None \<Rightarrow> Inl (ErrJobNotFound (pl_Type payload))
      | Some handler \<Rightarrow>
          (case rebuildContained handler (pl_Data payload) of
             Inl e \<Rightarrow> Inl e
           | Inr None \<Rightarrow> Inl (ErrNoJobFromFactory (pl_Type payload))
           | Inr (Some job) \<Rightarrow> Inr job))"

definition Register :: "string \<Rightarrow> (string \<Rightarrow> 'j factory_result) \<Rightarrow> 'j JobCode \<Rightarrow> 'j JobCode" where
  "Register jobType handler code =
     code\<lparr>jc_handlers := (jc_handlers code)(normalizeJobType jobType \<mapsto> handler)\<rparr>"

definition MarshalJob :: "'j JobCode \<Rightarrow> instant \<Rightarrow> 'j option \<Rightarrow> string \<Rightarrow> qerr + Payload" where
  "MarshalJob code now job queueName =
     (case job of
        None \<Rightarrow> Inl ErrNilJob
      | Some j \<Rightarrow>
          (case jc_Marshal code j of
             Inl e \<Rightarrow> Inl (ErrMarshal e)
           | Inr data \<Rightarrow> Inr
               \<lparr>pl_Type = normalizeJobType (jc_Type code j), pl_Data = data, pl_Queue = queueName,
                pl_Attempts = 0, pl_CreatedAt = now, pl_TraceID = [], pl_SpanID = [],
                pl_ParentID = [], pl_Signature = [], pl_Encrypted = False, pl_DedupeKey = [],
                pl_DatabaseID = 0\<rparr>))"

definition HydrateJob :: "'j JobCode \<Rightarrow> Payload option \<Rightarrow> qerr + 'j" where
  "HydrateJob code payload =
     (case payload of
        None \<Rightarrow> Inl ErrNilPayload
      | Some p \<Rightarrow> if pl_Encrypted p then Inl ErrEncryptedPayload else Deserialize code p)"

definition createJobWrapper :: "'j JobCode \<Rightarrow> instant \<Rightarrow> 'j option \<Rightarrow> string \<Rightarrow> qerr + 'j jobWrapper" where
  "createJobWrapper code now job queueName =
     (case MarshalJob code now job queueName of
        Inl e \<Rightarrow> Inl e
      | Inr payload \<Rightarrow> Inr \<lparr>jw_Job = job, jw_Payload = Some payload, jw_DedupeKey = []\<rparr>)"

definition getJobFromWrapper :: "'j JobCode \<Rightarrow> 'j jobWrapper \<Rightarrow> qerr + 'j" where
  "getJobFromWrapper code w =
     (case jw_Job w of Some j \<Rightarrow> Inr j | None \<Rightarrow> HydrateJob code (jw_Payload w))"

definition admitJob :: "'j JobCode \<Rightarrow> 'j option \<Rightarrow> string list \<Rightarrow> qerr + string" where
  "admitJob code job queueName =
     (case job of
        None \<Rightarrow> Inl ErrNilJob
      | Some j \<Rightarrow>
          if queueName \<noteq> [] \<and> hd queueName \<noteq> [] then Inr (hd queueName)
          else
            (case jc_OnQueue code j of
               Some name \<Rightarrow> if name \<noteq> [] then Inr name else Inr ''default''
             | None \<Rightarrow> Inr ''default''))"

definition RunFailedHook :: "'j JobCode \<Rightarrow> 'j option \<Rightarrow> string \<Rightarrow> qerr option" where
  "RunFailedHook code job err =
     (case job of
        None \<Rightarrow> Some ErrFailedHookPanicked
      | Some j \<Rightarrow> if jc_FailedPanics code j err then Some ErrFailedHookPanicked else None)"

definition withTrace :: "QCtx \<Rightarrow> 'j jobWrapper \<Rightarrow> 'j jobWrapper" where
  "withTrace ctx w =
     w\<lparr>jw_Payload := map_option (\<lambda>p. p\<lparr>pl_TraceID := tc_TraceID (cx_Trace ctx),
        pl_SpanID := tc_SpanID (cx_Trace ctx), pl_ParentID := tc_ParentID (cx_Trace ctx)\<rparr>)
        (jw_Payload w)\<rparr>"

definition traceOf :: "'j jobWrapper \<Rightarrow> TraceContext" where
  "traceOf w =
     (case jw_Payload w of
        None \<Rightarrow> noTrace
      | Some p \<Rightarrow> \<lparr>tc_TraceID = pl_TraceID p, tc_SpanID = pl_SpanID p, tc_ParentID = pl_ParentID p\<rparr>)"

definition jobType :: "'j jobWrapper \<Rightarrow> string" where
  "jobType w = (case jw_Payload w of None \<Rightarrow> [] | Some p \<Rightarrow> pl_Type p)"

subsection \<open>The driver\<close>

record 'j memReservation =
  mr_wrapper :: "'j jobWrapper"
  mr_queue :: string

record 'j delayedJob =
  dj_wrapper :: "'j jobWrapper"
  dj_runAt :: instant

record 'j failedJob =
  fj_wrapper :: "'j jobWrapper"
  fj_job :: "'j option"
  fj_error :: string
  fj_failedAt :: instant

record 'j MemoryDriver =
  md_queues :: "(string, 'j jobWrapper list) gomap"
  md_delayed :: "(string, 'j delayedJob list) gomap"
  md_failed :: "(string, 'j failedJob list) gomap"
  md_dedupeKeys :: "(string, instant) gomap"
  md_reservations :: "(int, 'j memReservation) gomap"
  md_nextReservationID :: int
  md_warned :: "string list"

definition NewMemoryDriver :: "'j MemoryDriver" where
  "NewMemoryDriver =
     \<lparr>md_queues = [], md_delayed = [], md_failed = [], md_dedupeKeys = [], md_reservations = [],
      md_nextReservationID = 0, md_warned = []\<rparr>"

record JobQueued =
  je_Type :: string
  je_Queue :: string
  je_Delayed :: bool
  je_Delay :: duration

definition dedupeKeyRetention :: duration where
  "dedupeKeyRetention = 7 * 24 * 3600 * 1000000000"

definition warnIfNonIdentifiable :: "'j JobCode \<Rightarrow> 'j option \<Rightarrow> 'j MemoryDriver \<Rightarrow> 'j MemoryDriver" where
  "warnIfNonIdentifiable code job m =
     (case job of
        None \<Rightarrow> m
      | Some j \<Rightarrow>
          if jc_Identifiable code j \<or> jc_Type code j \<in> set (md_warned m) then m
          else m\<lparr>md_warned := jc_Type code j # md_warned m\<rparr>)"

definition enqueue :: "string \<Rightarrow> 'j jobWrapper \<Rightarrow> 'j MemoryDriver \<Rightarrow> 'j MemoryDriver" where
  "enqueue name w m = m\<lparr>md_queues := AList.update name (bucket (md_queues m) name @ [w]) (md_queues m)\<rparr>"

definition delayUntil :: "string \<Rightarrow> 'j jobWrapper \<Rightarrow> instant \<Rightarrow> 'j MemoryDriver \<Rightarrow> 'j MemoryDriver" where
  "delayUntil name w runAt m =
     m\<lparr>md_delayed := AList.update name
        (heap_Push dj_runAt \<lparr>dj_wrapper = w, dj_runAt = runAt\<rparr> (bucket (md_delayed m) name))
        (md_delayed m)\<rparr>"

definition recordFailed :: "string \<Rightarrow> 'j failedJob \<Rightarrow> 'j MemoryDriver \<Rightarrow> 'j MemoryDriver" where
  "recordFailed name f m = m\<lparr>md_failed := AList.update name (bucket (md_failed m) name @ [f]) (md_failed m)\<rparr>"

definition dropReservation :: "int \<Rightarrow> 'j MemoryDriver \<Rightarrow> 'j MemoryDriver" where
  "dropReservation i m = m\<lparr>md_reservations := AList.delete i (md_reservations m)\<rparr>"

type_synonym 'j pushed = "(qerr option \<times> JobQueued option) \<times> 'j MemoryDriver"

definition PushCtx ::
  "'j JobCode \<Rightarrow> QCtx \<Rightarrow> instant \<Rightarrow> 'j option \<Rightarrow> string list \<Rightarrow> 'j MemoryDriver \<Rightarrow> 'j pushed" where
  "PushCtx code ctx now job queueName m =
     (case ctxErr ctx of
        Some e \<Rightarrow> ((Some e, None), m)
      | None \<Rightarrow>
          (case admitJob code job queueName of
             Inl e \<Rightarrow> ((Some e, None), m)
           | Inr name \<Rightarrow>
               let m = warnIfNonIdentifiable code job m in
               (case createJobWrapper code now job name of
                  Inl e \<Rightarrow> ((Some e, None), m)
                | Inr w \<Rightarrow>
                    let w = withTrace ctx w in
                    ((None, Some \<lparr>je_Type = jobType w, je_Queue = name, je_Delayed = False, je_Delay = 0\<rparr>),
                     enqueue name w m))))"

definition PushDelayedCtx ::
  "'j JobCode \<Rightarrow> QCtx \<Rightarrow> instant \<Rightarrow> 'j option \<Rightarrow> duration \<Rightarrow> string list \<Rightarrow> 'j MemoryDriver \<Rightarrow> 'j pushed" where
  "PushDelayedCtx code ctx now job delay queueName m =
     (case ctxErr ctx of
        Some e \<Rightarrow> ((Some e, None), m)
      | None \<Rightarrow>
          (case admitJob code job queueName of
             Inl e \<Rightarrow> ((Some e, None), m)
           | Inr name \<Rightarrow>
               let m = warnIfNonIdentifiable code job m in
               (case createJobWrapper code now job name of
                  Inl e \<Rightarrow> ((Some e, None), m)
                | Inr w \<Rightarrow>
                    let w = withTrace ctx w in
                    ((None, Some \<lparr>je_Type = jobType w, je_Queue = name, je_Delayed = True, je_Delay = delay\<rparr>),
                     delayUntil name w (now + delay) m))))"

definition PushIfNotExistsCtx ::
  "'j JobCode \<Rightarrow> QCtx \<Rightarrow> instant \<Rightarrow> 'j option \<Rightarrow> string \<Rightarrow> string list \<Rightarrow> 'j MemoryDriver \<Rightarrow> 'j pushed" where
  "PushIfNotExistsCtx code ctx now job dedupeKey queueName m =
     (if dedupeKey = [] then PushCtx code ctx now job queueName m
      else
        (case ctxErr ctx of
           Some e \<Rightarrow> ((Some e, None), m)
         | None \<Rightarrow>
             (case admitJob code job queueName of
                Inl e \<Rightarrow> ((Some e, None), m)
              | Inr name \<Rightarrow>
                  let m = warnIfNonIdentifiable code job m in
                  (case createJobWrapper code now job name of
                     Inl e \<Rightarrow> ((Some e, None), m)
                   | Inr w \<Rightarrow>
                       let w = withTrace ctx (w\<lparr>jw_DedupeKey := dedupeKey\<rparr>) in
                       if map_of (md_dedupeKeys m) dedupeKey \<noteq> None then ((None, None), m)
                       else
                         ((None, Some \<lparr>je_Type = jobType w, je_Queue = name, je_Delayed = False, je_Delay = 0\<rparr>),
                          let m = enqueue name w m
                          in m\<lparr>md_dedupeKeys := AList.update dedupeKey now (md_dedupeKeys m)\<rparr>)))))"

definition popWrapper :: "string \<Rightarrow> 'j MemoryDriver \<Rightarrow> ('j jobWrapper option \<times> TraceContext) \<times> 'j MemoryDriver" where
  "popWrapper queueName m =
     (case bucket (md_queues m) queueName of
        [] \<Rightarrow> ((None, noTrace), m)
      | w # q \<Rightarrow> ((Some w, traceOf w), m\<lparr>md_queues := AList.update queueName q (md_queues m)\<rparr>))"

definition quarantine ::
  "instant \<Rightarrow> string \<Rightarrow> ReservationToken \<Rightarrow> 'j jobWrapper \<Rightarrow> (qerr \<Rightarrow> string) \<Rightarrow> qerr
     \<Rightarrow> 'j MemoryDriver \<Rightarrow> qerr \<times> 'j MemoryDriver" where
  "quarantine now queueName token w errText cause m =
     (let failed = \<lparr>fj_wrapper = w, fj_job = None, fj_error = errText cause, fj_failedAt = now\<rparr> in
      if \<not> IsZero token then
        (if map_of (md_reservations m) (rt_ID token) = None then (ErrLeaseLost, m)
         else (ErrPoisonJob cause, recordFailed queueName failed (dropReservation (rt_ID token) m)))
      else (ErrPoisonJob cause, recordFailed queueName failed m))"

definition PopCtxWithTrace ::
  "'j JobCode \<Rightarrow> (qerr \<Rightarrow> string) \<Rightarrow> QCtx \<Rightarrow> instant \<Rightarrow> string \<Rightarrow> 'j MemoryDriver
     \<Rightarrow> (qerr + 'j option) \<times> TraceContext \<times> 'j MemoryDriver" where
  "PopCtxWithTrace code errText ctx now queueName m =
     (case ctxErr ctx of
        Some e \<Rightarrow> (Inl e, noTrace, m)
      | None \<Rightarrow>
          (case popWrapper queueName m of
             ((None, tc), m) \<Rightarrow> (Inr None, tc, m)
           | ((Some w, tc), m) \<Rightarrow>
               (case getJobFromWrapper code w of
                  Inl cause \<Rightarrow>
                    (case quarantine now queueName zeroToken w errText cause m of (e, m) \<Rightarrow> (Inl e, tc, m))
                | Inr job \<Rightarrow> (Inr (Some job), tc, m))))"

definition PopCtx ::
  "'j JobCode \<Rightarrow> (qerr \<Rightarrow> string) \<Rightarrow> QCtx \<Rightarrow> instant \<Rightarrow> string \<Rightarrow> 'j MemoryDriver
     \<Rightarrow> (qerr + 'j option) \<times> 'j MemoryDriver" where
  "PopCtx code errText ctx now queueName m =
     (case PopCtxWithTrace code errText ctx now queueName m of (r, _, m) \<Rightarrow> (r, m))"

definition reserveNext ::
  "string \<Rightarrow> 'j MemoryDriver
     \<Rightarrow> ('j jobWrapper option \<times> ReservationToken \<times> TraceContext) \<times> 'j MemoryDriver" where
  "reserveNext queueName m =
     (case bucket (md_queues m) queueName of
        [] \<Rightarrow> ((None, zeroToken, noTrace), m)
      | w # q \<Rightarrow>
          let m = m\<lparr>md_queues := AList.update queueName q (md_queues m)\<rparr>;
              tc = traceOf w;
              w = w\<lparr>jw_Payload := map_option (\<lambda>p. p\<lparr>pl_Attempts := pl_Attempts p + 1\<rparr>) (jw_Payload w)\<rparr>;
              i = md_nextReservationID m + 1;
              m = m\<lparr>md_nextReservationID := i,
                    md_reservations := AList.update i \<lparr>mr_wrapper = w, mr_queue = queueName\<rparr>
                      (md_reservations m)\<rparr>;
              attempts = (case jw_Payload w of None \<Rightarrow> 0 | Some p \<Rightarrow> pl_Attempts p)
          in ((Some w, \<lparr>rt_ID = i, rt_Attempts = attempts, rt_ReservedBy = []\<rparr>, tc), m))"

definition PopCtxReserved ::
  "'j JobCode \<Rightarrow> (qerr \<Rightarrow> string) \<Rightarrow> QCtx \<Rightarrow> instant \<Rightarrow> string \<Rightarrow> 'j MemoryDriver
     \<Rightarrow> (qerr + 'j option) \<times> ReservationToken \<times> TraceContext \<times> 'j MemoryDriver" where
  "PopCtxReserved code errText ctx now queueName m =
     (case ctxErr ctx of
        Some e \<Rightarrow> (Inl e, zeroToken, noTrace, m)
      | None \<Rightarrow>
          (case reserveNext queueName m of
             ((None, token, tc), m) \<Rightarrow> (Inr None, zeroToken, tc, m)
           | ((Some w, token, tc), m) \<Rightarrow>
               (case jw_Job w of
                  Some job \<Rightarrow> (Inr (Some job), token, tc, m)
                | None \<Rightarrow>
                    (case getJobFromWrapper code w of
                       Inl cause \<Rightarrow>
                         (case quarantine now queueName token w errText cause m of
                            (e, m) \<Rightarrow> (Inl e, zeroToken, tc, m))
                     | Inr job \<Rightarrow> (Inr (Some job), token, tc, m)))))"

definition AckCtx :: "QCtx \<Rightarrow> ReservationToken \<Rightarrow> 'j MemoryDriver \<Rightarrow> qerr option \<times> 'j MemoryDriver" where
  "AckCtx ctx token m =
     (if IsZero token then (None, m)
      else
        (case ctxErr ctx of
           Some e \<Rightarrow> (Some e, m)
         | None \<Rightarrow>
             if map_of (md_reservations m) (rt_ID token) = None then (Some ErrLeaseLost, m)
             else (None, dropReservation (rt_ID token) m)))"

definition ReleaseCtx ::
  "QCtx \<Rightarrow> instant \<Rightarrow> ReservationToken \<Rightarrow> duration \<Rightarrow> 'j MemoryDriver \<Rightarrow> qerr option \<times> 'j MemoryDriver" where
  "ReleaseCtx ctx now token delay m =
     (if IsZero token then (None, m)
      else
        (case ctxErr ctx of
           Some e \<Rightarrow> (Some e, m)
         | None \<Rightarrow>
             let delay = (if delay < 0 then 0 else delay) in
             (case map_of (md_reservations m) (rt_ID token) of
                None \<Rightarrow> (Some ErrLeaseLost, m)
              | Some r \<Rightarrow>
                  (None, delayUntil (mr_queue r) (mr_wrapper r) (now + delay)
                     (dropReservation (rt_ID token) m)))))"

definition FailedCtx ::
  "'j JobCode \<Rightarrow> instant \<Rightarrow> 'j option \<Rightarrow> string \<Rightarrow> string \<Rightarrow> 'j MemoryDriver \<Rightarrow> qerr option \<times> 'j MemoryDriver" where
  "FailedCtx code now job err queueName m =
     (case createJobWrapper code now job queueName of
        Inl e \<Rightarrow> (Some e, m)
      | Inr w \<Rightarrow>
          (RunFailedHook code job err,
           recordFailed queueName
             \<lparr>fj_wrapper = w, fj_job = job, fj_error = err, fj_failedAt = now\<rparr> m))"

definition FailReservedCtx ::
  "'j JobCode \<Rightarrow> QCtx \<Rightarrow> instant \<Rightarrow> ReservationToken \<Rightarrow> 'j option \<Rightarrow> string \<Rightarrow> string
     \<Rightarrow> 'j MemoryDriver \<Rightarrow> qerr option \<times> 'j MemoryDriver" where
  "FailReservedCtx code ctx now token job err queueName m =
     (if IsZero token then FailedCtx code now job err queueName m
      else
        (case ctxErr ctx of
           Some e \<Rightarrow> (Some e, m)
         | None \<Rightarrow>
             (case map_of (md_reservations m) (rt_ID token) of
                None \<Rightarrow> (Some ErrLeaseLost, m)
              | Some r \<Rightarrow>
                  (RunFailedHook code job err,
                   recordFailed queueName
                     \<lparr>fj_wrapper = mr_wrapper r, fj_job = job, fj_error = err, fj_failedAt = now\<rparr>
                     (dropReservation (rt_ID token) m)))))"

definition Size :: "string \<Rightarrow> 'j MemoryDriver \<Rightarrow> int" where
  "Size queueName m = int (length (bucket (md_queues m) queueName))"

definition GetFailed :: "string \<Rightarrow> 'j MemoryDriver \<Rightarrow> 'j failedJob list" where
  "GetFailed queueName m = bucket (md_failed m) queueName"

definition releaseKey :: "'j jobWrapper \<Rightarrow> (string, instant) gomap \<Rightarrow> (string, instant) gomap" where
  "releaseKey w keys = (if jw_DedupeKey w \<noteq> [] then AList.delete (jw_DedupeKey w) keys else keys)"

definition Clear :: "string \<Rightarrow> 'j MemoryDriver \<Rightarrow> 'j MemoryDriver" where
  "Clear queueName m =
     (let keys = fold releaseKey (bucket (md_queues m) queueName) (md_dedupeKeys m);
          keys = fold releaseKey (map dj_wrapper (bucket (md_delayed m) queueName)) keys;
          leased = filter (\<lambda>(_, r). mr_queue r = queueName) (md_reservations m);
          keys = fold (\<lambda>(_, r). releaseKey (mr_wrapper r)) leased keys
      in m\<lparr>md_dedupeKeys := keys,
           md_reservations := filter (\<lambda>(_, r). mr_queue r \<noteq> queueName) (md_reservations m),
           md_queues := AList.delete queueName (md_queues m),
           md_delayed := AList.delete queueName (md_delayed m)\<rparr>)"

subsection \<open>The background loop\<close>

definition liveDedupeKeysLocked :: "'j MemoryDriver \<Rightarrow> string list" where
  "liveDedupeKeysLocked m =
     filter (\<lambda>k. k \<noteq> [])
       (map jw_DedupeKey
          (concat (map snd (md_queues m)) @
           map dj_wrapper (concat (map snd (md_delayed m))) @
           map (\<lambda>(_, r). mr_wrapper r) (md_reservations m)))"

definition sweepStaleDedupeKeys :: "instant \<Rightarrow> 'j MemoryDriver \<Rightarrow> 'j MemoryDriver" where
  "sweepStaleDedupeKeys now m =
     m\<lparr>md_dedupeKeys := filter
        (\<lambda>(key, inserted). key \<in> set (liveDedupeKeysLocked m) \<or> \<not> now - inserted \<ge> dedupeKeyRetention)
        (md_dedupeKeys m)\<rparr>"

function takeReady :: "instant \<Rightarrow> 'j delayedJob list \<Rightarrow> 'j jobWrapper list \<times> 'j delayedJob list" where
  "takeReady now h =
     (if h = [] \<or> dj_runAt (hd h) > now then ([], h)
      else
        case heap_Pop dj_runAt h of
          (job, h) \<Rightarrow> (case takeReady now h of (ready, h) \<Rightarrow> (dj_wrapper job # ready, h)))"
  by pat_completeness auto
termination
  by (relation "measure (\<lambda>(_, h). length h)")
    (auto simp: heap_Pop_def Let_def)

declare takeReady.simps [simp del]

definition promote :: "instant \<Rightarrow> string \<times> 'j delayedJob list \<Rightarrow> 'j MemoryDriver \<Rightarrow> 'j MemoryDriver" where
  "promote now entry m =
     (case entry of (queueName, h) \<Rightarrow>
      (case takeReady now h of
         (ready, h) \<Rightarrow>
           let m = fold (enqueue queueName) ready m
           in if h = [] then m\<lparr>md_delayed := AList.delete queueName (md_delayed m)\<rparr>
              else m\<lparr>md_delayed := AList.update queueName h (md_delayed m)\<rparr>))"

definition moveReadyJobs :: "instant \<Rightarrow> 'j MemoryDriver \<Rightarrow> 'j MemoryDriver" where
  "moveReadyJobs now m = fold (promote now) (md_delayed m) m"

end
