(* ===== verification/Queue_Lemmas.thy ===== *)
theory Queue_Lemmas
  imports Queue_Memory
begin

text \<open>
  The invariant of the memory queue driver and what its operations do to the jobs it
  holds. The live jobs are the multiset of the wrappers that are queued, delayed or
  leased; every operation is described by its effect on that multiset.
\<close>

subsection \<open>The live jobs\<close>

definition leased :: "(int, 'j memReservation) gomap \<Rightarrow> 'j jobWrapper multiset" where
  "leased rs = image_mset (\<lambda>(_, r). mr_wrapper r) (mset rs)"

definition live :: "'j MemoryDriver \<Rightarrow> 'j jobWrapper multiset" where
  "live m = contents (md_queues m) + image_mset dj_wrapper (contents (md_delayed m)) +
     leased (md_reservations m)"

definition failures :: "'j MemoryDriver \<Rightarrow> 'j jobWrapper multiset" where
  "failures m = image_mset fj_wrapper (contents (md_failed m))"

definition live_keys :: "'j MemoryDriver \<Rightarrow> string multiset" where
  "live_keys m = image_mset jw_DedupeKey (live m)"

definition live_jobs :: "'j MemoryDriver \<Rightarrow> 'j option multiset" where
  "live_jobs m = image_mset jw_Job (live m)"

definition failed_jobs :: "'j MemoryDriver \<Rightarrow> 'j option multiset" where
  "failed_jobs m = image_mset jw_Job (failures m)"

lemma liveDedupeKeysLocked_mset: "mset (liveDedupeKeysLocked m) = filter_mset (\<lambda>k. k \<noteq> []) (live_keys m)"
  by (simp add: liveDedupeKeysLocked_def live_keys_def live_def leased_def contents_def
      image_mset.compositionality comp_def case_prod_unfold)

lemma set_liveDedupeKeysLocked:
  "set (liveDedupeKeysLocked m) = {k. k \<noteq> [] \<and> k \<in># live_keys m}"
proof -
  have "set (liveDedupeKeysLocked m) = set_mset (mset (liveDedupeKeysLocked m))" by simp
  then show ?thesis unfolding liveDedupeKeysLocked_mset by auto
qed

subsection \<open>The invariant\<close>

definition wrapper_ok :: "'j jobWrapper \<Rightarrow> bool" where
  "wrapper_ok w \<longleftrightarrow> jw_Job w \<noteq> None \<and> jw_Payload w \<noteq> None"

definition maps_ok :: "'j MemoryDriver \<Rightarrow> bool" where
  "maps_ok m \<longleftrightarrow>
     keys_distinct (md_queues m) \<and> keys_distinct (md_delayed m) \<and> keys_distinct (md_failed m) \<and>
     keys_distinct (md_dedupeKeys m) \<and> keys_distinct (md_reservations m)"

definition keys_ok :: "'j MemoryDriver \<Rightarrow> bool" where
  "keys_ok m \<longleftrightarrow> (\<forall>k. k \<noteq> [] \<longrightarrow>
     count (live_keys m) k \<le> (if map_of (md_dedupeKeys m) k = None then 0 else 1))"

definition heaps_ok :: "'j MemoryDriver \<Rightarrow> bool" where
  "heaps_ok m \<longleftrightarrow> (\<forall>name. heap_ok dj_runAt (bucket (md_delayed m) name))"

definition tokens_ok :: "'j MemoryDriver \<Rightarrow> bool" where
  "tokens_ok m \<longleftrightarrow> 0 \<le> md_nextReservationID m \<and>
     (\<forall>i. map_of (md_reservations m) i \<noteq> None \<longrightarrow> 0 < i \<and> i \<le> md_nextReservationID m)"

definition driver_ok :: "'j MemoryDriver \<Rightarrow> bool" where
  "driver_ok m \<longleftrightarrow> maps_ok m \<and> keys_ok m \<and> heaps_ok m \<and> tokens_ok m \<and> (\<forall>w \<in># live m. wrapper_ok w)"

lemmas driver_ok_defs = driver_ok_def maps_ok_def keys_ok_def heaps_ok_def tokens_ok_def

lemma driver_ok_new: "driver_ok NewMemoryDriver"
  by (simp add: driver_ok_defs NewMemoryDriver_def live_keys_def live_def leased_def)

subsection \<open>The primitive updates\<close>

lemma leased_update:
  "map_of rs i = None \<Longrightarrow> leased (AList.update i r rs) = add_mset (mr_wrapper r) (leased rs)"
  by (induction rs) (auto simp: leased_def split: if_splits)

lemma leased_delete:
  "keys_distinct rs \<Longrightarrow> map_of rs i = Some r \<Longrightarrow>
    leased rs = add_mset (mr_wrapper r) (leased (AList.delete i rs))"
proof (induction rs)
  case (Cons e rs)
  then show ?case
    by (cases e; cases "fst e = i")
      (auto simp: leased_def delete_id rev_image_eqI map_of_eq_None_iff)
qed simp

lemma enqueue_simps [simp]:
  "md_delayed (enqueue name w m) = md_delayed m" "md_failed (enqueue name w m) = md_failed m"
  "md_dedupeKeys (enqueue name w m) = md_dedupeKeys m"
  "md_reservations (enqueue name w m) = md_reservations m"
  "md_nextReservationID (enqueue name w m) = md_nextReservationID m"
  "md_warned (enqueue name w m) = md_warned m"
  "bucket (md_queues (enqueue name w m)) name' =
     (if name' = name then bucket (md_queues m) name @ [w] else bucket (md_queues m) name')"
  by (simp_all add: enqueue_def)

lemma delayUntil_simps [simp]:
  "md_queues (delayUntil name w t m) = md_queues m" "md_failed (delayUntil name w t m) = md_failed m"
  "md_dedupeKeys (delayUntil name w t m) = md_dedupeKeys m"
  "md_reservations (delayUntil name w t m) = md_reservations m"
  "md_nextReservationID (delayUntil name w t m) = md_nextReservationID m"
  by (simp_all add: delayUntil_def)

lemma recordFailed_simps [simp]:
  "md_queues (recordFailed name f m) = md_queues m" "md_delayed (recordFailed name f m) = md_delayed m"
  "md_dedupeKeys (recordFailed name f m) = md_dedupeKeys m"
  "md_reservations (recordFailed name f m) = md_reservations m"
  "md_nextReservationID (recordFailed name f m) = md_nextReservationID m"
  "live (recordFailed name f m) = live m"
  by (simp_all add: recordFailed_def live_def)

lemma dropReservation_simps [simp]:
  "md_queues (dropReservation i m) = md_queues m" "md_delayed (dropReservation i m) = md_delayed m"
  "md_failed (dropReservation i m) = md_failed m"
  "md_dedupeKeys (dropReservation i m) = md_dedupeKeys m"
  "md_reservations (dropReservation i m) = AList.delete i (md_reservations m)"
  "md_nextReservationID (dropReservation i m) = md_nextReservationID m"
  "failures (dropReservation i m) = failures m"
  by (simp_all add: dropReservation_def failures_def)

lemma warn_simps [simp]:
  "md_queues (warnIfNonIdentifiable code job m) = md_queues m"
  "md_delayed (warnIfNonIdentifiable code job m) = md_delayed m"
  "md_failed (warnIfNonIdentifiable code job m) = md_failed m"
  "md_dedupeKeys (warnIfNonIdentifiable code job m) = md_dedupeKeys m"
  "md_reservations (warnIfNonIdentifiable code job m) = md_reservations m"
  "md_nextReservationID (warnIfNonIdentifiable code job m) = md_nextReservationID m"
  by (simp_all add: warnIfNonIdentifiable_def split: option.splits)

lemma live_warn [simp]: "live (warnIfNonIdentifiable code job m) = live m"
  by (simp add: live_def)

lemma failures_warn [simp]: "failures (warnIfNonIdentifiable code job m) = failures m"
  by (simp add: failures_def)

lemma live_enqueue: "maps_ok m \<Longrightarrow> live (enqueue name w m) = add_mset w (live m)"
  by (simp add: live_def enqueue_def contents_append maps_ok_def)

lemma live_delayUntil:
  "maps_ok m \<Longrightarrow> live (delayUntil name w t m) = add_mset w (live m)"
  using contents_delete[of "md_delayed m" name]
  by (simp add: live_def delayUntil_def contents_update maps_ok_def)

lemma live_dropReservation:
  "maps_ok m \<Longrightarrow> map_of (md_reservations m) i = Some r \<Longrightarrow>
    live m = add_mset (mr_wrapper r) (live (dropReservation i m))"
  using leased_delete[of "md_reservations m" i r] by (simp add: live_def maps_ok_def)

lemma failures_recordFailed:
  "maps_ok m \<Longrightarrow> failures (recordFailed name f m) = add_mset (fj_wrapper f) (failures m)"
  by (simp add: failures_def recordFailed_def contents_append maps_ok_def)

lemma failures_other [simp]:
  "failures (enqueue name w m) = failures m" "failures (delayUntil name w t m) = failures m"
  by (simp_all add: failures_def)

lemma maps_ok_primitives [wf_intros]:
  "maps_ok m \<Longrightarrow> maps_ok (enqueue name w m)" "maps_ok m \<Longrightarrow> maps_ok (delayUntil name w t m)"
  "maps_ok m \<Longrightarrow> maps_ok (recordFailed name f m)" "maps_ok m \<Longrightarrow> maps_ok (dropReservation i m)"
  "maps_ok m \<Longrightarrow> maps_ok (warnIfNonIdentifiable code job m)"
  by (auto simp: maps_ok_def enqueue_def delayUntil_def recordFailed_def dropReservation_def
      intro!: keys_distinct_update keys_distinct_delete)

subsection \<open>The operations keep the invariant\<close>

lemma keys_ok_mono:
  "keys_ok m \<Longrightarrow> live_keys m' \<subseteq># live_keys m \<Longrightarrow> md_dedupeKeys m' = md_dedupeKeys m \<Longrightarrow> keys_ok m'"
  unfolding keys_ok_def by (metis mset_subset_eq_count order_trans)

lemma heaps_ok_mono: "heaps_ok m \<Longrightarrow> md_delayed m' = md_delayed m \<Longrightarrow> heaps_ok m'"
  by (simp add: heaps_ok_def)

lemma tokens_ok_mono:
  "tokens_ok m \<Longrightarrow> md_reservations m' = md_reservations m \<Longrightarrow>
    md_nextReservationID m' = md_nextReservationID m \<Longrightarrow> tokens_ok m'"
  by (simp add: tokens_ok_def)

lemma heaps_ok_delayUntil: "heaps_ok m \<Longrightarrow> heaps_ok (delayUntil name w t m)"
  by (simp add: heaps_ok_def delayUntil_def heap_ok_Push)

lemma tokens_ok_dropReservation: "tokens_ok m \<Longrightarrow> tokens_ok (dropReservation i m)"
  by (simp add: tokens_ok_def)

lemma driver_ok_warn: "driver_ok m \<Longrightarrow> driver_ok (warnIfNonIdentifiable code job m)"
  unfolding driver_ok_def
  by (auto intro: maps_ok_primitives keys_ok_mono heaps_ok_mono tokens_ok_mono simp: live_keys_def)

lemma wrapper_ok_withTrace [simp]: "wrapper_ok (withTrace ctx w) = wrapper_ok w"
  by (simp add: wrapper_ok_def withTrace_def)

lemma withTrace_simps [simp]:
  "jw_DedupeKey (withTrace ctx w) = jw_DedupeKey w" "jw_Job (withTrace ctx w) = jw_Job w"
  by (simp_all add: withTrace_def)

lemma createJobWrapper_ok:
  "createJobWrapper code now job name = Inr w \<Longrightarrow>
    wrapper_ok w \<and> jw_DedupeKey w = [] \<and> jw_Job w = job"
  by (auto simp: createJobWrapper_def MarshalJob_def wrapper_ok_def split: option.splits sum.splits)

lemma wrapper_ok_key [simp]: "wrapper_ok (w\<lparr>jw_DedupeKey := k\<rparr>) = wrapper_ok w"
  by (simp add: wrapper_ok_def)

lemma driver_ok_enqueue:
  assumes "driver_ok m" "wrapper_ok w" "jw_DedupeKey w = []"
  shows "driver_ok (enqueue name w m)"
  using assms unfolding driver_ok_def
  by (auto simp: live_enqueue keys_ok_def live_keys_def
      intro: maps_ok_primitives heaps_ok_mono tokens_ok_mono)

lemma driver_ok_delayUntil:
  assumes "driver_ok m" "wrapper_ok w" "jw_DedupeKey w = []"
  shows "driver_ok (delayUntil name w t m)"
  using assms unfolding driver_ok_def
  by (auto simp: live_delayUntil keys_ok_def live_keys_def
      intro: maps_ok_primitives heaps_ok_delayUntil tokens_ok_mono)

lemma driver_ok_enqueue_key:
  assumes "driver_ok m" "wrapper_ok w" "jw_DedupeKey w = k" "map_of (md_dedupeKeys m) k = None"
  shows "driver_ok ((enqueue name w m)\<lparr>md_dedupeKeys := AList.update k now (md_dedupeKeys m)\<rparr>)"
    (is "driver_ok ?m")
proof -
  have live: "live ?m = add_mset w (live m)"
    using live_enqueue[of m name w] assms(1) by (simp add: live_def driver_ok_def)
  have "keys_ok ?m"
    using assms unfolding keys_ok_def live_keys_def live driver_ok_def by auto
  moreover have "maps_ok ?m"
    using maps_ok_primitives(1)[of m name w] assms(1)
    by (simp add: maps_ok_def driver_ok_def keys_distinct_update)
  ultimately show ?thesis
    using assms live unfolding driver_ok_def by (auto intro: heaps_ok_mono tokens_ok_mono)
qed

lemma driver_ok_PushCtx: "driver_ok m \<Longrightarrow> driver_ok (snd (PushCtx code ctx now job name m))"
  by (auto simp: PushCtx_def Let_def driver_ok_warn split: option.splits sum.splits
      intro!: driver_ok_enqueue dest: createJobWrapper_ok)

lemma driver_ok_PushDelayedCtx:
  "driver_ok m \<Longrightarrow> driver_ok (snd (PushDelayedCtx code ctx now job delay name m))"
  by (auto simp: PushDelayedCtx_def Let_def driver_ok_warn split: option.splits sum.splits
      intro!: driver_ok_delayUntil dest: createJobWrapper_ok)

lemma driver_ok_PushIfNotExistsCtx:
  "driver_ok m \<Longrightarrow> driver_ok (snd (PushIfNotExistsCtx code ctx now job key name m))"
  by (auto simp: PushIfNotExistsCtx_def Let_def driver_ok_warn driver_ok_PushCtx
      split: option.splits sum.splits
      intro!: driver_ok_enqueue_key[where m = "warnIfNonIdentifiable code job m", simplified]
      dest: createJobWrapper_ok)

lemma driver_ok_recordFailed: "driver_ok m \<Longrightarrow> driver_ok (recordFailed name f m)"
  unfolding driver_ok_def
  by (auto intro: maps_ok_primitives keys_ok_mono heaps_ok_mono tokens_ok_mono simp: live_keys_def)

lemma driver_ok_dropReservation:
  assumes "driver_ok m" "map_of (md_reservations m) i = Some r"
  shows "driver_ok (dropReservation i m)"
proof -
  have "live m = add_mset (mr_wrapper r) (live (dropReservation i m))"
    using assms live_dropReservation by (auto simp: driver_ok_def)
  with assms(1) show ?thesis
    unfolding driver_ok_def
    by (auto intro!: maps_ok_primitives tokens_ok_dropReservation
        intro: keys_ok_mono[of m] heaps_ok_mono[of m] simp: live_keys_def)
qed

lemma driver_ok_release:
  assumes ok: "driver_ok m" and r: "map_of (md_reservations m) i = Some r"
  shows "driver_ok (delayUntil name (mr_wrapper r) t (dropReservation i m))" (is "driver_ok ?m")
    and "live (delayUntil name (mr_wrapper r) t (dropReservation i m)) = live m"
proof -
  show live: "live ?m = live m"
    using assms by (simp add: driver_ok_def live_delayUntil live_dropReservation[symmetric] wf_intros)
  from ok have "keys_ok ?m" unfolding driver_ok_def by (auto intro: keys_ok_mono[of m] simp: live_keys_def live)
  moreover from ok have "maps_ok ?m" "heaps_ok ?m" "tokens_ok ?m"
    unfolding driver_ok_def
    by (auto intro!: maps_ok_primitives heaps_ok_delayUntil
        intro: heaps_ok_mono[of m] tokens_ok_mono[of "dropReservation i m"] tokens_ok_dropReservation)
  ultimately show "driver_ok ?m" using ok unfolding driver_ok_def live by blast
qed

definition shift :: "string \<Rightarrow> 'j MemoryDriver \<Rightarrow> 'j MemoryDriver" where
  "shift name m = m\<lparr>md_queues := AList.update name (tl (bucket (md_queues m) name)) (md_queues m)\<rparr>"

lemma shift_simps [simp]:
  "md_delayed (shift name m) = md_delayed m" "md_failed (shift name m) = md_failed m"
  "md_dedupeKeys (shift name m) = md_dedupeKeys m"
  "md_reservations (shift name m) = md_reservations m"
  "md_nextReservationID (shift name m) = md_nextReservationID m"
  "failures (shift name m) = failures m"
  by (simp_all add: shift_def failures_def)

lemma live_shift:
  "maps_ok m \<Longrightarrow> bucket (md_queues m) name = w # q \<Longrightarrow> live m = add_mset w (live (shift name m))"
  using contents_tl[of "md_queues m" name w q] by (simp add: live_def shift_def maps_ok_def)

lemma driver_ok_shift:
  assumes "driver_ok m" "bucket (md_queues m) name = w # q"
  shows "driver_ok (shift name m)"
proof -
  have "live m = add_mset w (live (shift name m))" using assms live_shift by (auto simp: driver_ok_def)
  moreover have "maps_ok (shift name m)"
    using assms(1) by (auto simp: driver_ok_def maps_ok_def shift_def intro: keys_distinct_update)
  ultimately show ?thesis using assms(1) unfolding driver_ok_def
    by (auto intro: keys_ok_mono[of m] heaps_ok_mono[of m] tokens_ok_mono[of m] simp: live_keys_def)
qed

lemma head_wrapper_ok:
  "driver_ok m \<Longrightarrow> bucket (md_queues m) name = w # q \<Longrightarrow> wrapper_ok w"
  using live_shift[of m name w q] by (auto simp: driver_ok_def)

lemma popWrapper_shift:
  "popWrapper name m =
     (case bucket (md_queues m) name of [] \<Rightarrow> ((None, noTrace), m)
      | w # _ \<Rightarrow> ((Some w, traceOf w), shift name m))"
  by (simp add: popWrapper_def shift_def split: list.splits)

lemma PopCtxWithTrace_ok:
  assumes "driver_ok m"
  shows "PopCtxWithTrace code errText ctx now name m =
    (case ctxErr ctx of
       Some e \<Rightarrow> (Inl e, noTrace, m)
     | None \<Rightarrow>
         (case bucket (md_queues m) name of
            [] \<Rightarrow> (Inr None, noTrace, m)
          | w # _ \<Rightarrow> (Inr (jw_Job w), traceOf w, shift name m)))"
  using head_wrapper_ok[OF assms, of name]
  by (cases "bucket (md_queues m) name")
    (auto simp: PopCtxWithTrace_def popWrapper_shift getJobFromWrapper_def wrapper_ok_def
      split: option.splits)

definition lease :: "string \<Rightarrow> 'j MemoryDriver \<Rightarrow> 'j jobWrapper \<Rightarrow> 'j MemoryDriver" where
  "lease name m w =
     (let i = md_nextReservationID m + 1 in
      (shift name m)\<lparr>md_nextReservationID := i,
        md_reservations := AList.update i \<lparr>mr_wrapper = w, mr_queue = name\<rparr> (md_reservations m)\<rparr>)"

definition attempt :: "'j jobWrapper \<Rightarrow> 'j jobWrapper" where
  "attempt w = w\<lparr>jw_Payload := map_option (\<lambda>p. p\<lparr>pl_Attempts := pl_Attempts p + 1\<rparr>) (jw_Payload w)\<rparr>"

definition attempts :: "'j jobWrapper \<Rightarrow> int" where
  "attempts w = (case jw_Payload w of None \<Rightarrow> 0 | Some p \<Rightarrow> pl_Attempts p)"

definition token_for :: "'j MemoryDriver \<Rightarrow> 'j jobWrapper \<Rightarrow> ReservationToken" where
  "token_for m w = \<lparr>rt_ID = md_nextReservationID m + 1, rt_Attempts = attempts w, rt_ReservedBy = []\<rparr>"

lemma attempt_simps [simp]:
  "jw_Job (attempt w) = jw_Job w" "jw_DedupeKey (attempt w) = jw_DedupeKey w"
  "wrapper_ok (attempt w) = wrapper_ok w"
  by (simp_all add: attempt_def wrapper_ok_def)

lemma lease_simps [simp]:
  "md_queues (lease name m w) = md_queues (shift name m)" "md_delayed (lease name m w) = md_delayed m"
  "md_failed (lease name m w) = md_failed m" "md_dedupeKeys (lease name m w) = md_dedupeKeys m"
  "md_nextReservationID (lease name m w) = md_nextReservationID m + 1"
  "md_reservations (lease name m w) =
     AList.update (md_nextReservationID m + 1) \<lparr>mr_wrapper = w, mr_queue = name\<rparr> (md_reservations m)"
  "failures (lease name m w) = failures m"
  by (simp_all add: lease_def Let_def failures_def)

lemma reserveNext_lease:
  "reserveNext name m =
     (case bucket (md_queues m) name of
        [] \<Rightarrow> ((None, zeroToken, noTrace), m)
      | w # _ \<Rightarrow> ((Some (attempt w), token_for m (attempt w), traceOf w), lease name m (attempt w)))"
  by (simp add: reserveNext_def lease_def shift_def Let_def attempt_def token_for_def attempts_def
      split: list.splits)

lemma PopCtxReserved_ok:
  assumes "driver_ok m"
  shows "PopCtxReserved code errText ctx now name m =
    (case ctxErr ctx of
       Some e \<Rightarrow> (Inl e, zeroToken, noTrace, m)
     | None \<Rightarrow>
         (case bucket (md_queues m) name of
            [] \<Rightarrow> (Inr None, zeroToken, noTrace, m)
          | w # _ \<Rightarrow> (Inr (jw_Job w), token_for m (attempt w), traceOf w, lease name m (attempt w))))"
  using head_wrapper_ok[OF assms, of name]
  by (cases "bucket (md_queues m) name")
    (auto simp: PopCtxReserved_def reserveNext_lease wrapper_ok_def split: option.splits)

lemma tokens_ok_fresh: "tokens_ok m \<Longrightarrow> map_of (md_reservations m) (md_nextReservationID m + 1) = None"
  by (force simp: tokens_ok_def)

lemma live_lease:
  assumes "driver_ok m" "bucket (md_queues m) name = w # q"
  shows "live m + {#attempt w#} = live (lease name m (attempt w)) + {#w#}"
proof -
  have "live m = add_mset w (live (shift name m))" using assms live_shift by (auto simp: driver_ok_def)
  moreover have "leased (md_reservations (lease name m (attempt w))) =
      add_mset (attempt w) (leased (md_reservations m))"
    using assms(1) tokens_ok_fresh[of m] by (simp add: leased_update driver_ok_def)
  ultimately show ?thesis by (simp add: live_def)
qed

lemma driver_ok_lease:
  assumes ok: "driver_ok m" and head: "bucket (md_queues m) name = w # q"
  shows "driver_ok (lease name m (attempt w))" (is "driver_ok ?m")
proof -
  note live = live_lease[OF assms]
  have "live_keys ?m = live_keys m"
    using arg_cong[OF live, of "image_mset jw_DedupeKey"] by (simp add: live_keys_def)
  then have "keys_ok ?m" using ok keys_ok_mono[of m ?m] by (simp add: driver_ok_def)
  moreover have "maps_ok ?m" "heaps_ok ?m"
    using driver_ok_shift[OF assms] unfolding driver_ok_def
    by (auto simp: maps_ok_def heaps_ok_def intro: keys_distinct_update)
  moreover have "tokens_ok ?m" using ok by (force simp: driver_ok_def tokens_ok_def)
  moreover have "wrapper_ok v" if "v \<in># live ?m" for v
  proof -
    have "v \<in># live m + {#attempt w#}" using that unfolding live by simp
    then show ?thesis using ok head_wrapper_ok[OF assms] by (auto simp: driver_ok_def)
  qed
  ultimately show ?thesis unfolding driver_ok_def by blast
qed

lemma driver_ok_PopCtxWithTrace:
  "driver_ok m \<Longrightarrow> driver_ok (snd (snd (PopCtxWithTrace code errText ctx now name m)))"
  by (auto simp: PopCtxWithTrace_ok intro: driver_ok_shift split: option.splits list.splits)

lemma driver_ok_PopCtxReserved:
  "driver_ok m \<Longrightarrow> driver_ok (snd (snd (snd (PopCtxReserved code errText ctx now name m))))"
  by (auto simp: PopCtxReserved_ok intro: driver_ok_lease split: option.splits list.splits)

lemma driver_ok_AckCtx: "driver_ok m \<Longrightarrow> driver_ok (snd (AckCtx ctx token m))"
  by (auto simp: AckCtx_def intro: driver_ok_dropReservation split: option.splits)

lemma driver_ok_ReleaseCtx: "driver_ok m \<Longrightarrow> driver_ok (snd (ReleaseCtx ctx now token delay m))"
  by (auto simp: ReleaseCtx_def Let_def intro: driver_ok_release split: option.splits)

lemma driver_ok_FailedCtx: "driver_ok m \<Longrightarrow> driver_ok (snd (FailedCtx code now job err name m))"
  by (auto simp: FailedCtx_def intro: driver_ok_recordFailed split: sum.splits)

lemma driver_ok_FailReservedCtx:
  "driver_ok m \<Longrightarrow> driver_ok (snd (FailReservedCtx code ctx now token job err name m))"
  by (auto simp: FailReservedCtx_def intro: driver_ok_FailedCtx driver_ok_recordFailed
      driver_ok_dropReservation split: option.splits)

subsection \<open>Clear and the sweep\<close>

lemma map_of_release:
  "map_of (fold releaseKey ws keys) k =
     (if k \<noteq> [] \<and> k \<in> jw_DedupeKey ` set ws then None else map_of keys k)"
  by (induction ws arbitrary: keys) (auto simp: releaseKey_def)

lemma keys_distinct_release: "keys_distinct keys \<Longrightarrow> keys_distinct (fold releaseKey ws keys)"
  by (induction ws arbitrary: keys) (auto simp: releaseKey_def keys_distinct_delete)

definition cleared :: "string \<Rightarrow> 'j MemoryDriver \<Rightarrow> 'j jobWrapper list" where
  "cleared name m =
     bucket (md_queues m) name @ map dj_wrapper (bucket (md_delayed m) name) @
     map (\<lambda>(_, r). mr_wrapper r) (filter (\<lambda>(_, r). mr_queue r = name) (md_reservations m))"

lemma Clear_simps [simp]:
  "md_queues (Clear name m) = AList.delete name (md_queues m)"
  "md_delayed (Clear name m) = AList.delete name (md_delayed m)"
  "md_failed (Clear name m) = md_failed m"
  "md_dedupeKeys (Clear name m) = fold releaseKey (cleared name m) (md_dedupeKeys m)"
  "md_reservations (Clear name m) = filter (\<lambda>(_, r). mr_queue r \<noteq> name) (md_reservations m)"
  "md_nextReservationID (Clear name m) = md_nextReservationID m"
  "failures (Clear name m) = failures m"
  by (simp_all add: Clear_def cleared_def Let_def failures_def fold_map comp_def case_prod_unfold)

lemma leased_partition:
  "leased rs = leased (filter P rs) + leased (filter (\<lambda>e. \<not> P e) rs)"
  by (induction rs) (auto simp: leased_def)

lemma live_Clear:
  assumes "maps_ok m"
  shows "live m = mset (cleared name m) + live (Clear name m)"
proof -
  have "leased (md_reservations m) =
      mset (map (\<lambda>(_, r). mr_wrapper r) (filter (\<lambda>(_, r). mr_queue r = name) (md_reservations m))) +
      leased (md_reservations (Clear name m))"
    using leased_partition[of "md_reservations m" "\<lambda>(_, r). mr_queue r = name"]
    by (simp add: leased_def case_prod_unfold)
  then show ?thesis
    using contents_delete[of "md_queues m" name] contents_delete[of "md_delayed m" name] assms
    by (simp add: live_def cleared_def maps_ok_def)
qed

lemma driver_ok_Clear:
  assumes ok: "driver_ok m"
  shows "driver_ok (Clear name m)"
proof -
  have live: "live m = mset (cleared name m) + live (Clear name m)"
    using ok live_Clear by (auto simp: driver_ok_def)
  have "count (live_keys (Clear name m)) k \<le>
      (if map_of (md_dedupeKeys (Clear name m)) k = None then 0 else 1)" if k: "k \<noteq> []" for k
  proof -
    have total: "count (live_keys m) k =
        count (image_mset jw_DedupeKey (mset (cleared name m))) k + count (live_keys (Clear name m)) k"
      unfolding live_keys_def live by simp
    have bound: "count (live_keys m) k \<le> (if map_of (md_dedupeKeys m) k = None then 0 else 1)"
      using ok k by (simp add: driver_ok_def keys_ok_def)
    show ?thesis
    proof (cases "k \<in> jw_DedupeKey ` set (cleared name m)")
      case True
      then have "k \<in># image_mset jw_DedupeKey (mset (cleared name m))" by auto
      then have "count (image_mset jw_DedupeKey (mset (cleared name m))) k \<ge> 1"
        by (simp only: count_greater_eq_one_iff)
      moreover have "count (live_keys m) k \<le> 1" using bound by (simp split: if_splits)
      ultimately have "count (live_keys (Clear name m)) k = 0" using total by linarith
      then show ?thesis by simp
    next
      case False
      with total bound show ?thesis by (auto simp: map_of_release split: if_splits)
    qed
  qed
  then have "keys_ok (Clear name m)" by (auto simp: keys_ok_def)
  moreover have "maps_ok (Clear name m)"
    using ok by (simp add: driver_ok_def maps_ok_def keys_distinct_release keys_distinct_delete keys_distinct_filter)
  moreover have "tokens_ok (Clear name m)"
    using ok by (auto simp: driver_ok_def tokens_ok_def maps_ok_def map_of_filter_distinct split: option.splits)
  moreover have "heaps_ok (Clear name m)" using ok by (auto simp: driver_ok_def heaps_ok_def)
  ultimately show ?thesis using ok unfolding driver_ok_def by (auto simp: live)
qed

lemma live_sweep [simp]: "live (sweepStaleDedupeKeys now m) = live m"
  by (simp add: sweepStaleDedupeKeys_def live_def)

lemma sweep_simps [simp]:
  "md_queues (sweepStaleDedupeKeys now m) = md_queues m" "md_delayed (sweepStaleDedupeKeys now m) = md_delayed m"
  "md_failed (sweepStaleDedupeKeys now m) = md_failed m"
  "md_reservations (sweepStaleDedupeKeys now m) = md_reservations m"
  "md_nextReservationID (sweepStaleDedupeKeys now m) = md_nextReservationID m"
  "failures (sweepStaleDedupeKeys now m) = failures m"
  by (simp_all add: sweepStaleDedupeKeys_def failures_def)

lemma map_of_sweep:
  assumes "driver_ok m"
  shows "map_of (md_dedupeKeys (sweepStaleDedupeKeys now m)) k =
    (case map_of (md_dedupeKeys m) k of
       None \<Rightarrow> None
     | Some t \<Rightarrow> if k \<noteq> [] \<and> k \<in># live_keys m \<or> now - t < dedupeKeyRetention then Some t else None)"
  using assms
  by (simp add: sweepStaleDedupeKeys_def map_of_filter_distinct driver_ok_def maps_ok_def
      set_liveDedupeKeysLocked not_le split: option.splits)

lemma driver_ok_sweep:
  assumes ok: "driver_ok m"
  shows "driver_ok (sweepStaleDedupeKeys now m)" (is "driver_ok ?m")
proof -
  have "count (live_keys ?m) k \<le> (if map_of (md_dedupeKeys ?m) k = None then 0 else 1)" if "k \<noteq> []" for k
  proof -
    have "count (live_keys m) k \<le> (if map_of (md_dedupeKeys m) k = None then 0 else 1)"
      using ok that by (simp add: driver_ok_def keys_ok_def)
    moreover have "live_keys ?m = live_keys m" by (simp add: live_keys_def)
    ultimately show ?thesis using that
      by (auto simp: map_of_sweep[OF ok] not_in_iff split: option.splits if_splits)
  qed
  then have "keys_ok ?m" by (auto simp: keys_ok_def)
  moreover have "maps_ok ?m"
    using ok by (auto simp: driver_ok_def maps_ok_def intro: keys_distinct_filter)
      (simp add: sweepStaleDedupeKeys_def keys_distinct_filter)
  ultimately show ?thesis using ok unfolding driver_ok_def
    by (auto intro: heaps_ok_mono[of m] tokens_ok_mono[of m])
qed

subsection \<open>Promotion of delayed jobs\<close>

lemma takeReady_Nil [simp]: "takeReady now [] = ([], [])"
  by (subst takeReady.simps) simp

definition ready_split :: "instant \<Rightarrow> 'j delayedJob list \<Rightarrow> 'j delayedJob list \<Rightarrow> 'j delayedJob list \<Rightarrow> bool" where
  "ready_split now h js rest \<longleftrightarrow>
     mset h = mset js + mset rest \<and> sorted (map dj_runAt js) \<and>
     (\<forall>j \<in> set js. dj_runAt j \<le> now) \<and> (\<forall>j \<in> set rest. now < dj_runAt j)"

lemma takeReady_spec:
  assumes "heap_ok dj_runAt h"
  shows "\<exists>js rest. takeReady now h = (map dj_wrapper js, rest) \<and> ready_split now h js rest \<and> heap_ok dj_runAt rest"
  using assms
proof (induction now h rule: takeReady.induct)
  case (1 now h)
  show ?case
  proof (cases "h = [] \<or> dj_runAt (hd h) > now")
    case True
    have "now < dj_runAt j" if mem: "j \<in> set h" for j
    proof -
      obtain k where k: "k < length h" "h ! k = j" using mem by (auto simp: in_set_conv_nth)
      have "now < dj_runAt (h ! 0)" using True k(1) by (cases h) auto
      also have "\<dots> \<le> dj_runAt (h ! k)"
        using "1.prems" k(1) unfolding heap_ok_def by (rule is_heap_top_least)
      finally show ?thesis using k(2) by simp
    qed
    then have "ready_split now h [] h" by (simp add: ready_split_def)
    moreover have "takeReady now h = (map dj_wrapper [], h)" using True by (subst takeReady.simps) simp
    ultimately show ?thesis using "1.prems" by blast
  next
    case False
    obtain j h' where pop: "heap_Pop dj_runAt h = (j, h')" by force
    have h: "h \<noteq> []" using False by simp
    note facts = heap_Pop[OF "1.prems" h pop]
    obtain js rest where rec: "takeReady now h' = (map dj_wrapper js, rest)"
      "ready_split now h' js rest" "heap_ok dj_runAt rest"
      using "1.IH"[OF False pop[symmetric] facts(3)] by blast
    have "mset h' = mset js + mset rest" using rec(2) by (simp add: ready_split_def)
    from arg_cong[OF this, of set_mset] have "\<forall>k \<in> set js. dj_runAt j \<le> dj_runAt k"
      using facts(4) by auto
    moreover have "dj_runAt j \<le> now" using False facts(1) by simp
    ultimately have "ready_split now h (j # js) rest"
      using rec(2) facts(2) by (simp add: ready_split_def)
    moreover have "takeReady now h = (map dj_wrapper (j # js), rest)"
      using False pop rec(1) by (subst takeReady.simps) simp
    ultimately show ?thesis using rec(3) by blast
  qed
qed

lemma fold_enqueue [simp]:
  "md_delayed (fold (enqueue name) ws m) = md_delayed m" "md_failed (fold (enqueue name) ws m) = md_failed m"
  "md_dedupeKeys (fold (enqueue name) ws m) = md_dedupeKeys m"
  "md_reservations (fold (enqueue name) ws m) = md_reservations m"
  "md_nextReservationID (fold (enqueue name) ws m) = md_nextReservationID m"
  "bucket (md_queues (fold (enqueue name) ws m)) name' =
     (if name' = name then bucket (md_queues m) name @ ws else bucket (md_queues m) name')"
  by (induction ws arbitrary: m) auto

lemma fold_enqueue_contents:
  "keys_distinct (md_queues m) \<Longrightarrow>
    keys_distinct (md_queues (fold (enqueue name) ws m)) \<and>
    contents (md_queues (fold (enqueue name) ws m)) = contents (md_queues m) + mset ws"
  by (induction ws arbitrary: m) (auto simp: enqueue_def contents_append keys_distinct_update)

lemma promote_simps [simp]:
  "md_failed (promote now e m) = md_failed m" "md_dedupeKeys (promote now e m) = md_dedupeKeys m"
  "md_reservations (promote now e m) = md_reservations m"
  "md_nextReservationID (promote now e m) = md_nextReservationID m"
  by (simp_all add: promote_def Let_def split: prod.splits)

lemma promote_buckets:
  "bucket (md_queues (promote now (name, h) m)) name' =
     (if name' = name then bucket (md_queues m) name @ fst (takeReady now h) else bucket (md_queues m) name')"
  "bucket (md_delayed (promote now (name, h) m)) name' =
     (if name' = name then snd (takeReady now h) else bucket (md_delayed m) name')"
  by (auto simp: promote_def Let_def split: prod.splits)

lemma promote_ok:
  assumes ok: "driver_ok m" and h: "bucket (md_delayed m) name = h"
  shows "driver_ok (promote now (name, h) m) \<and> live (promote now (name, h) m) = live m"
proof -
  let ?m = "promote now (name, h) m"
  have heap: "heap_ok dj_runAt h" using ok h by (auto simp: driver_ok_def heaps_ok_def)
  obtain js rest where ready: "takeReady now h = (map dj_wrapper js, rest)" "ready_split now h js rest"
    "heap_ok dj_runAt rest"
    using takeReady_spec[OF heap] by blast
  have maps: "keys_distinct (md_queues m)" "keys_distinct (md_delayed m)"
    using ok by (auto simp: driver_ok_def maps_ok_def)
  have q: "keys_distinct (md_queues ?m) \<and> contents (md_queues ?m) = contents (md_queues m) + mset (map dj_wrapper js)"
    using fold_enqueue_contents[OF maps(1), of name "map dj_wrapper js"] ready(1)
    by (simp add: promote_def Let_def)
  have d: "keys_distinct (md_delayed ?m) \<and> contents (md_delayed ?m) + mset js = contents (md_delayed m)"
    using contents_delete[OF maps(2), of name] contents_update[OF maps(2), of name rest] ready h maps(2)
    by (auto simp: promote_def Let_def ready_split_def keys_distinct_update keys_distinct_delete)
  have live: "live ?m = live m"
    using q arg_cong[OF conjunct2[OF d], of "image_mset dj_wrapper"] by (simp add: live_def ac_simps)
  have "keys_ok ?m" using ok by (auto simp: driver_ok_def live_keys_def live intro: keys_ok_mono[of m])
  moreover have "heaps_ok ?m" using ok ready by (auto simp: driver_ok_def heaps_ok_def promote_buckets)
  ultimately show ?thesis
    using ok q d live unfolding driver_ok_def by (auto simp: maps_ok_def intro: tokens_ok_mono[of m])
qed

lemma promote_all:
  assumes "keys_distinct es" "\<forall>(name, h) \<in> set es. bucket (md_delayed m) name = h" "driver_ok m"
  shows "driver_ok (fold (promote now) es m) \<and> live (fold (promote now) es m) = live m \<and>
    (\<forall>name. bucket (md_queues (fold (promote now) es m)) name =
        bucket (md_queues m) name @ fst (takeReady now (bucket es name))) \<and>
    (\<forall>name. bucket (md_delayed (fold (promote now) es m)) name =
        (if map_of es name = None then bucket (md_delayed m) name else snd (takeReady now (bucket es name))))"
  using assms
proof (induction es arbitrary: m)
  case (Cons e es)
  obtain n h where e: "e = (n, h)" by force
  have fresh: "n \<notin> fst ` set es" using Cons.prems(1) e by simp
  then have none: "map_of es n = None" by (simp add: map_of_eq_None_iff)
  have ok: "driver_ok (promote now e m)" "live (promote now e m) = live m"
    using promote_ok[of m n h now] Cons.prems e by auto
  have rest: "\<forall>(name, h) \<in> set es. bucket (md_delayed (promote now e m)) name = h"
    using Cons.prems(2) fresh by (force simp: e promote_buckets)
  note IH = Cons.IH[OF _ rest ok(1)]
  show ?case
    using IH Cons.prems(1) ok none by (auto simp: e promote_buckets bucket_Cons bucket_None)
qed simp

lemma moveReadyJobs_all:
  assumes ok: "driver_ok m"
  shows "driver_ok (moveReadyJobs now m)" "live (moveReadyJobs now m) = live m"
    "bucket (md_queues (moveReadyJobs now m)) name =
       bucket (md_queues m) name @ fst (takeReady now (bucket (md_delayed m) name))"
    "bucket (md_delayed (moveReadyJobs now m)) name = snd (takeReady now (bucket (md_delayed m) name))"
proof -
  have maps: "keys_distinct (md_delayed m)" using ok by (simp add: driver_ok_def maps_ok_def)
  then have "\<forall>(name, h) \<in> set (md_delayed m). bucket (md_delayed m) name = h"
    by (auto simp: bucket_def map_of_eq_Some_iff_distinct[symmetric])
  note all = promote_all[OF maps this ok, of now]
  show "driver_ok (moveReadyJobs now m)" "live (moveReadyJobs now m) = live m"
    "bucket (md_queues (moveReadyJobs now m)) name =
       bucket (md_queues m) name @ fst (takeReady now (bucket (md_delayed m) name))"
    "bucket (md_delayed (moveReadyJobs now m)) name = snd (takeReady now (bucket (md_delayed m) name))"
    using all unfolding moveReadyJobs_def by (auto simp: bucket_None)
qed

lemma moveReadyJobs_simps [simp]:
  "md_failed (moveReadyJobs now m) = md_failed m" "md_dedupeKeys (moveReadyJobs now m) = md_dedupeKeys m"
  "md_reservations (moveReadyJobs now m) = md_reservations m"
  "md_nextReservationID (moveReadyJobs now m) = md_nextReservationID m"
  "failures (moveReadyJobs now m) = failures m"
proof -
  have "md_failed (fold (promote now) es m) = md_failed m \<and>
      md_dedupeKeys (fold (promote now) es m) = md_dedupeKeys m \<and>
      md_reservations (fold (promote now) es m) = md_reservations m \<and>
      md_nextReservationID (fold (promote now) es m) = md_nextReservationID m" for es
    by (induction es arbitrary: m) auto
  then show "md_failed (moveReadyJobs now m) = md_failed m" "md_dedupeKeys (moveReadyJobs now m) = md_dedupeKeys m"
    "md_reservations (moveReadyJobs now m) = md_reservations m"
    "md_nextReservationID (moveReadyJobs now m) = md_nextReservationID m"
    "failures (moveReadyJobs now m) = failures m"
    by (auto simp: moveReadyJobs_def failures_def)
qed

end
