(* ===== verification/Queue_Props.thy ===== *)
theory Queue_Props
  imports Queue_Lemmas
begin

text \<open>
  The memory queue driver as a transition system, and its correctness properties: one
  live job per dedupe key, no job lost or duplicated between the queue, the delayed heap,
  the leases and the failed records, leases that are settled at most once, delayed jobs
  promoted exactly when due and in the order of their times, and first in first out.
\<close>

subsection \<open>The driver as a transition system\<close>

inductive qstep :: "'j JobCode \<Rightarrow> 'j MemoryDriver \<Rightarrow> 'j MemoryDriver \<Rightarrow> bool" for code where
  step_push: "qstep code m (snd (PushCtx code ctx now job name m))"
| step_push_delayed: "qstep code m (snd (PushDelayedCtx code ctx now job delay name m))"
| step_push_new: "qstep code m (snd (PushIfNotExistsCtx code ctx now job key name m))"
| step_pop: "qstep code m (snd (snd (PopCtxWithTrace code errText ctx now queue m)))"
| step_reserve: "qstep code m (snd (snd (snd (PopCtxReserved code errText ctx now queue m))))"
| step_ack: "qstep code m (snd (AckCtx ctx token m))"
| step_release: "qstep code m (snd (ReleaseCtx ctx now token delay m))"
| step_failed: "qstep code m (snd (FailedCtx code now job err queue m))"
| step_fail_reserved: "qstep code m (snd (FailReservedCtx code ctx now token job err queue m))"
| step_clear: "qstep code m (Clear queue m)"
| step_move: "qstep code m (moveReadyJobs now m)"
| step_sweep: "qstep code m (sweepStaleDedupeKeys now m)"

abbreviation queue_reaches :: "'j JobCode \<Rightarrow> 'j MemoryDriver \<Rightarrow> 'j MemoryDriver \<Rightarrow> bool" where
  "queue_reaches code \<equiv> (qstep code)\<^sup>*\<^sup>*"

lemma qstep_ok: "qstep code m m' \<Longrightarrow> driver_ok m \<Longrightarrow> driver_ok m'"
  by (induction rule: qstep.induct)
    (auto intro: driver_ok_PushCtx driver_ok_PushDelayedCtx driver_ok_PushIfNotExistsCtx
      driver_ok_PopCtxWithTrace driver_ok_PopCtxReserved driver_ok_AckCtx driver_ok_ReleaseCtx
      driver_ok_FailedCtx driver_ok_FailReservedCtx driver_ok_Clear moveReadyJobs_all(1) driver_ok_sweep)

lemma queue_reaches_ok: "queue_reaches code m m' \<Longrightarrow> driver_ok m \<Longrightarrow> driver_ok m'"
  by (induction rule: rtranclp_induct) (auto intro: qstep_ok)

subsection \<open>One live job per dedupe key\<close>

lemma distinct_liveDedupeKeysLocked:
  assumes "keys_ok m"
  shows "distinct (liveDedupeKeysLocked m)"
    "k \<in> set (liveDedupeKeysLocked m) \<Longrightarrow> map_of (md_dedupeKeys m) k \<noteq> None"
proof -
  have bound: "count (live_keys m) k \<le> (if map_of (md_dedupeKeys m) k = None then 0 else 1)" if "k \<noteq> []" for k
    using assms that by (simp add: keys_ok_def)
  have "count (mset (liveDedupeKeysLocked m)) k \<le> 1" for k
    using bound[of k] unfolding liveDedupeKeysLocked_mset by (auto split: if_splits)
  then show "distinct (liveDedupeKeysLocked m)"
    unfolding distinct_count_atmost_1
    by (metis One_nat_def count_eq_zero_iff le_Suc_eq le_zero_eq set_mset_mset)
  show "k \<in> set (liveDedupeKeysLocked m) \<Longrightarrow> map_of (md_dedupeKeys m) k \<noteq> None"
    using bound[of k] by (auto simp: set_liveDedupeKeysLocked count_eq_zero_iff split: if_splits)
qed

subsection \<open>Leases\<close>

definition settled :: "ReservationToken \<Rightarrow> 'j MemoryDriver \<Rightarrow> bool" where
  "settled token m \<longleftrightarrow> 0 < rt_ID token \<and> rt_ID token \<le> md_nextReservationID m \<and>
     map_of (md_reservations m) (rt_ID token) = None"

lemma settled_mono:
  "settled token m \<Longrightarrow> md_nextReservationID m \<le> md_nextReservationID m' \<Longrightarrow>
    (\<And>i. i \<le> md_nextReservationID m \<Longrightarrow> map_of (md_reservations m') i \<noteq> None \<Longrightarrow> map_of (md_reservations m) i \<noteq> None) \<Longrightarrow>
    settled token m'"
  unfolding settled_def by (metis order_trans)

lemma push_leases:
  "md_nextReservationID (snd (PushCtx code ctx now job name m)) = md_nextReservationID m"
  "md_reservations (snd (PushCtx code ctx now job name m)) = md_reservations m"
  "md_nextReservationID (snd (PushDelayedCtx code ctx now job delay name m)) = md_nextReservationID m"
  "md_reservations (snd (PushDelayedCtx code ctx now job delay name m)) = md_reservations m"
  "md_nextReservationID (snd (PushIfNotExistsCtx code ctx now job key name m)) = md_nextReservationID m"
  "md_reservations (snd (PushIfNotExistsCtx code ctx now job key name m)) = md_reservations m"
  "md_nextReservationID (snd (FailedCtx code now job err queue m)) = md_nextReservationID m"
  "md_reservations (snd (FailedCtx code now job err queue m)) = md_reservations m"
  by (simp_all add: PushCtx_def PushDelayedCtx_def PushIfNotExistsCtx_def FailedCtx_def Let_def
      split: option.splits sum.splits)

lemma settle_leases:
  "md_nextReservationID (snd (AckCtx ctx token m)) = md_nextReservationID m"
  "md_nextReservationID (snd (ReleaseCtx ctx now token delay m)) = md_nextReservationID m"
  "md_nextReservationID (snd (FailReservedCtx code ctx now token job err queue m)) = md_nextReservationID m"
  "map_of (md_reservations (snd (AckCtx ctx token m))) i \<noteq> None \<Longrightarrow> map_of (md_reservations m) i \<noteq> None"
  "map_of (md_reservations (snd (ReleaseCtx ctx now token delay m))) i \<noteq> None \<Longrightarrow> map_of (md_reservations m) i \<noteq> None"
  "map_of (md_reservations (snd (FailReservedCtx code ctx now token job err queue m))) i \<noteq> None
     \<Longrightarrow> map_of (md_reservations m) i \<noteq> None"
  by (auto simp: AckCtx_def ReleaseCtx_def FailReservedCtx_def push_leases Let_def split: option.splits if_splits)

lemma pop_leases:
  assumes "driver_ok m"
  shows "md_nextReservationID (snd (snd (PopCtxWithTrace code errText ctx now queue m))) = md_nextReservationID m"
    "md_reservations (snd (snd (PopCtxWithTrace code errText ctx now queue m))) = md_reservations m"
    "md_nextReservationID m \<le> md_nextReservationID (snd (snd (snd (PopCtxReserved code errText ctx now queue m))))"
    "i \<le> md_nextReservationID m \<Longrightarrow>
      map_of (md_reservations (snd (snd (snd (PopCtxReserved code errText ctx now queue m))))) i =
      map_of (md_reservations m) i"
  using assms
  by (auto simp: PopCtxWithTrace_ok PopCtxReserved_ok split: option.splits list.splits)

lemma clear_leases:
  "driver_ok m \<Longrightarrow> map_of (md_reservations (Clear queue m)) i \<noteq> None \<Longrightarrow> map_of (md_reservations m) i \<noteq> None"
  by (auto simp: driver_ok_def maps_ok_def map_of_filter_distinct split: option.splits)

lemma settled_qstep: "qstep code m m' \<Longrightarrow> driver_ok m \<Longrightarrow> settled token m \<Longrightarrow> settled token m'"
proof (induction rule: qstep.induct)
  case (step_ack m ctx token')
  show ?case
    by (rule settled_mono[OF step_ack(2)]) (simp add: settle_leases(1), rule settle_leases(4))
next
  case (step_release m ctx now token' delay)
  show ?case
    by (rule settled_mono[OF step_release(2)]) (simp add: settle_leases(2), rule settle_leases(5))
next
  case (step_fail_reserved m ctx now token' job err queue)
  show ?case
    by (rule settled_mono[OF step_fail_reserved(2)]) (simp add: settle_leases(3), rule settle_leases(6))
next
  case (step_clear m queue)
  show ?case
    by (rule settled_mono[OF step_clear(2)]) (simp, rule clear_leases[OF step_clear(1)])
qed (auto simp: settled_def push_leases pop_leases intro: order_trans[OF _ pop_leases(3)])

lemma settled_reaches:
  "queue_reaches code m m' \<Longrightarrow> driver_ok m \<Longrightarrow> settled token m \<Longrightarrow> settled token m'"
  by (induction rule: rtranclp_induct) (auto intro: settled_qstep queue_reaches_ok)

lemma settled_refused:
  assumes "settled token m" "cx_Err ctx = None"
  shows "AckCtx ctx token m = (Some ErrLeaseLost, m)"
    "ReleaseCtx ctx now token delay m = (Some ErrLeaseLost, m)"
    "FailReservedCtx code ctx now token job err queue m = (Some ErrLeaseLost, m)"
  using assms by (auto simp: settled_def AckCtx_def ReleaseCtx_def FailReservedCtx_def IsZero_def ctxErr_def)

definition settle :: "'j JobCode \<Rightarrow> QCtx \<Rightarrow> instant \<Rightarrow> ReservationToken \<Rightarrow> 'j MemoryDriver \<Rightarrow> 'j MemoryDriver \<Rightarrow> bool" where
  "settle code ctx now token m m' \<longleftrightarrow>
     m' = snd (AckCtx ctx token m) \<or> (\<exists>delay. m' = snd (ReleaseCtx ctx now token delay m)) \<or>
     (\<exists>job err queue. m' = snd (FailReservedCtx code ctx now token job err queue m))"

lemma settle_settled:
  assumes "driver_ok m" "settle code ctx now token m m'" "cx_Err ctx = None"
    "0 < rt_ID token" "rt_ID token \<le> md_nextReservationID m"
  shows "settled token m'"
  using assms
  by (cases "map_of (md_reservations m) (rt_ID token)") (auto simp: settle_def settled_def AckCtx_def ReleaseCtx_def FailReservedCtx_def IsZero_def ctxErr_def
      Let_def split: option.splits)

subsection \<open>First in, first out\<close>

primrec pop_many :: "('s \<Rightarrow> 'x option \<times> 's) \<Rightarrow> nat \<Rightarrow> 's \<Rightarrow> 'x option list \<times> 's" where
  "pop_many pop 0 s = ([], s)"
| "pop_many pop (Suc n) s =
     (case pop s of (x, s) \<Rightarrow> (case pop_many pop n s of (xs, s) \<Rightarrow> (x # xs, s)))"

locale fifo_queue =
  fixes ok :: "'s \<Rightarrow> bool" and can :: "'x \<Rightarrow> bool"
    and push :: "'x \<Rightarrow> 's \<Rightarrow> 's" and pop :: "'s \<Rightarrow> 'x option \<times> 's" and items :: "'s \<Rightarrow> 'x list"
  assumes push_ok: "ok s \<Longrightarrow> can x \<Longrightarrow> ok (push x s)"
    and push_items: "ok s \<Longrightarrow> can x \<Longrightarrow> items (push x s) = items s @ [x]"
    and pop_empty: "ok s \<Longrightarrow> items s = [] \<Longrightarrow> pop s = (None, s)"
    and pop_items: "ok s \<Longrightarrow> items s = x # xs \<Longrightarrow>
      fst (pop s) = Some x \<and> items (snd (pop s)) = xs \<and> ok (snd (pop s))"
begin

lemma push_many:
  "ok s \<Longrightarrow> \<forall>x \<in> set xs. can x \<Longrightarrow> ok (fold push xs s) \<and> items (fold push xs s) = items s @ xs"
  by (induction xs arbitrary: s) (simp_all add: push_ok push_items)

lemma drain: "ok s \<Longrightarrow> items s = xs @ ys \<Longrightarrow>
    fst (pop_many pop (length xs) s) = map Some xs \<and> items (snd (pop_many pop (length xs) s)) = ys"
proof (induction xs arbitrary: s)
  case (Cons x xs)
  obtain o' s' where pop: "pop s = (o', s')" by force
  have "o' = Some x" "items s' = xs @ ys" "ok s'"
    using pop_items[of s x "xs @ ys"] Cons.prems pop by auto
  with Cons.IH[of s'] show ?case by (simp add: pop case_prod_unfold)
qed simp

lemma push_drain:
  assumes "ok s" "items s = []" "\<forall>x \<in> set xs. can x"
  shows "fst (pop_many pop (length xs) (fold push xs s)) = map Some xs"
  using push_many[OF assms(1,3)] drain[of "fold push xs s" xs "[]"] assms(2) by simp

end

definition background :: "TraceContext \<Rightarrow> QCtx" where
  "background tr = \<lparr>cx_Err = None, cx_Trace = tr\<rparr>"

definition push_job :: "'j JobCode \<Rightarrow> TraceContext \<Rightarrow> instant \<Rightarrow> string \<Rightarrow> 'j \<Rightarrow> 'j MemoryDriver \<Rightarrow> 'j MemoryDriver" where
  "push_job code tr now name j m = snd (PushCtx code (background tr) now (Some j) [name] m)"

definition pop_job ::
  "'j JobCode \<Rightarrow> (qerr \<Rightarrow> string) \<Rightarrow> TraceContext \<Rightarrow> instant \<Rightarrow> string \<Rightarrow> 'j MemoryDriver \<Rightarrow> 'j option \<times> 'j MemoryDriver" where
  "pop_job code errText tr now name m =
     (case PopCtx code errText (background tr) now name m of
        (Inr job, m) \<Rightarrow> (job, m) | (Inl _, m) \<Rightarrow> (None, m))"

definition queued :: "string \<Rightarrow> 'j MemoryDriver \<Rightarrow> 'j list" where
  "queued name m = map (\<lambda>w. the (jw_Job w)) (bucket (md_queues m) name)"

definition pushable :: "'j JobCode \<Rightarrow> string \<Rightarrow> 'j \<Rightarrow> bool" where
  "pushable code name j \<longleftrightarrow> name \<noteq> [] \<and> (case jc_Marshal code j of Inl _ \<Rightarrow> False | Inr _ \<Rightarrow> True)"

lemma pushable_wrapper:
  assumes "pushable code name j"
  obtains w where "createJobWrapper code now (Some j) name = Inr w"
  using assms by (auto simp: pushable_def createJobWrapper_def MarshalJob_def split: sum.splits)

lemma push_job_queued:
  assumes "pushable code name j"
  shows "queued name (push_job code tr now name j m) = queued name m @ [j]"
proof -
  obtain w where w: "createJobWrapper code now (Some j) name = Inr w" using pushable_wrapper[OF assms] .
  then have "jw_Job w = Some j" using createJobWrapper_ok by blast
  with w assms show ?thesis
    by (simp add: push_job_def PushCtx_def admitJob_def queued_def background_def ctxErr_def Let_def pushable_def)
qed

lemma pop_job_head:
  assumes "driver_ok m"
  shows "pop_job code errText tr now name m =
    (case bucket (md_queues m) name of [] \<Rightarrow> (None, m) | w # _ \<Rightarrow> (jw_Job w, shift name m))"
  using assms
  by (simp add: pop_job_def PopCtx_def PopCtxWithTrace_ok background_def ctxErr_def split: list.splits)

interpretation memory_queue: fifo_queue driver_ok "pushable code name" "push_job code tr now name"
  "pop_job code errText tr' now' name" "queued name" for code tr now name errText tr' now'
proof unfold_locales
  fix s :: "'a MemoryDriver" and j :: 'a and js
  assume ok: "driver_ok s"
  show "driver_ok (push_job code tr now name j s)" unfolding push_job_def by (rule driver_ok_PushCtx[OF ok])
  show "queued name (push_job code tr now name j s) = queued name s @ [j]" if "pushable code name j"
    by (rule push_job_queued[OF that])
  show "pop_job code errText tr' now' name s = (None, s)" if "queued name s = []"
    using that by (simp add: pop_job_head[OF ok] queued_def)
  show "fst (pop_job code errText tr' now' name s) = Some j \<and>
      queued name (snd (pop_job code errText tr' now' name s)) = js \<and>
      driver_ok (snd (pop_job code errText tr' now' name s))" if front: "queued name s = j # js"
  proof -
    obtain w q where head: "bucket (md_queues s) name = w # q" using front by (auto simp: queued_def)
    have "jw_Job w = Some j" using head_wrapper_ok[OF ok head] front head by (auto simp: queued_def wrapper_ok_def)
    then show ?thesis using front head driver_ok_shift[OF ok head]
      by (simp add: pop_job_head[OF ok] queued_def shift_def)
  qed
qed

subsection \<open>The properties\<close>

definition demo_code :: "string JobCode" where
  "demo_code = \<lparr>jc_Type = (\<lambda>_. ''*jobs.Mail''), jc_OnQueue = (\<lambda>_. None), jc_Identifiable = (\<lambda>_. True),
     jc_Marshal = Inr, jc_FailedPanics = (\<lambda>_ _. False), jc_handlers = (\<lambda>_. None)\<rparr>"

definition demo_driver :: "string MemoryDriver" where
  "demo_driver = snd (PushIfNotExistsCtx demo_code (background noTrace) 5 (Some ''a'') ''k'' [] NewMemoryDriver)"

definition demo_leased :: "string MemoryDriver" where
  "demo_leased = snd (snd (snd (PopCtxReserved demo_code (\<lambda>_. []) (background noTrace) 6 ''default'' demo_driver)))"

lemmas demo_defs = demo_code_def demo_driver_def demo_leased_def background_def noTrace_def NewMemoryDriver_def
  PushIfNotExistsCtx_def ctxErr_def admitJob_def warnIfNonIdentifiable_def createJobWrapper_def MarshalJob_def
  normalizeJobType_def has_prefix_def withTrace_def enqueue_def bucket_def jobType_def Let_def

lemma demo_driver_reached: "queue_reaches demo_code NewMemoryDriver demo_driver"
  unfolding demo_driver_def by (rule r_into_rtranclp, rule step_push_new)

lemma demo_leased_reached: "queue_reaches demo_code NewMemoryDriver demo_leased"
  using demo_driver_reached unfolding demo_leased_def
  by (rule rtranclp.rtrancl_into_rtrancl) (rule step_reserve)

lemma push_recorded:
  assumes "k \<noteq> []" "map_of (md_dedupeKeys m) k \<noteq> None"
  shows "case PushIfNotExistsCtx code ctx now job k name m of
    ((_, event), m') \<Rightarrow> event = None \<and> live m' = live m \<and> md_queues m' = md_queues m"
proof (cases "ctxErr ctx")
  case None
  show ?thesis
  proof (cases "admitJob code job name")
    case (Inr queue)
    with None assms show ?thesis
      by (cases "createJobWrapper code now job queue") (simp_all add: PushIfNotExistsCtx_def Let_def)
  qed (use assms None in \<open>simp add: PushIfNotExistsCtx_def\<close>)
qed (use assms in \<open>simp add: PushIfNotExistsCtx_def\<close>)

text \<open>C12: whatever sequence of pushes, pops, acknowledgements, releases, failures, clears,
  promotions and sweeps a driver has gone through, no two of its queued, delayed or leased jobs
  carry the same dedupe key, every key they carry is recorded, and a
  \<open>PushIfNotExistsCtx\<close> under a recorded key adds no job and dispatches no event.\<close>

theorem queue_dedupe:
  assumes "queue_reaches code NewMemoryDriver m"
  shows "distinct (liveDedupeKeysLocked m) \<and>
    (\<forall>k \<in> set (liveDedupeKeysLocked m). map_of (md_dedupeKeys m) k \<noteq> None) \<and>
    (\<forall>k ctx now job name. k \<noteq> [] \<and> map_of (md_dedupeKeys m) k \<noteq> None \<longrightarrow>
       (case PushIfNotExistsCtx code ctx now job k name m of
          ((_, event), m') \<Rightarrow> event = None \<and> live m' = live m \<and> md_queues m' = md_queues m))"
proof -
  have "keys_ok m" using queue_reaches_ok[OF assms driver_ok_new] by (simp add: driver_ok_def)
  note keys = distinct_liveDedupeKeysLocked[OF this]
  show ?thesis using keys by (intro conjI ballI allI impI push_recorded) simp_all
qed

theorem queue_dedupe_witness:
  "liveDedupeKeysLocked demo_driver = [''k''] \<and> distinct (liveDedupeKeysLocked demo_driver) \<and>
   live (snd (PushIfNotExistsCtx demo_code (background noTrace) 9 (Some ''b'') ''k'' [] demo_driver)) = live demo_driver"
proof -
  have k: "map_of (md_dedupeKeys demo_driver) ''k'' \<noteq> None" and keys: "liveDedupeKeysLocked demo_driver = [''k'']"
    by (simp_all add: demo_defs liveDedupeKeysLocked_def)
  note all = queue_dedupe[OF demo_driver_reached]
  have "case PushIfNotExistsCtx demo_code (background noTrace) 9 (Some ''b'') ''k'' [] demo_driver of
      ((_, event), m') \<Rightarrow> event = None \<and> live m' = live demo_driver \<and> md_queues m' = md_queues demo_driver"
    by (rule all[THEN conjunct2, THEN conjunct2, rule_format]) (use k in simp)
  then have "live (snd (PushIfNotExistsCtx demo_code (background noTrace) 9 (Some ''b'') ''k'' [] demo_driver)) =
      live demo_driver"
    by (simp split: prod.splits)
  with all[THEN conjunct1] keys show ?thesis by blast
qed

lemma conserve_reserve:
  assumes ok: "driver_ok m"
  shows "live_jobs (snd (snd (snd (PopCtxReserved code errText ctx now queue m)))) = live_jobs m"
proof (cases "bucket (md_queues m) queue")
  case (Cons w q)
  show ?thesis using arg_cong[OF live_lease[OF ok Cons], of "image_mset jw_Job"]
    by (simp add: live_jobs_def PopCtxReserved_ok[OF ok] Cons split: option.splits)
qed (simp add: PopCtxReserved_ok[OF ok] split: option.splits)

lemma conserve_pop:
  assumes ok: "driver_ok m"
  shows "case PopCtx code errText ctx now queue m of
    (Inr (Some j), m') \<Rightarrow> live_jobs m = add_mset (Some j) (live_jobs m') | (_, m') \<Rightarrow> m' = m"
proof (cases "bucket (md_queues m) queue")
  case (Cons w q)
  have "live_jobs m = add_mset (jw_Job w) (live_jobs (shift queue m))"
    using live_shift[of m, OF _ Cons] ok by (simp add: live_jobs_def driver_ok_def)
  then show ?thesis using head_wrapper_ok[OF ok Cons]
    by (auto simp: PopCtx_def PopCtxWithTrace_ok[OF ok] Cons wrapper_ok_def split: option.splits)
qed (simp add: PopCtx_def PopCtxWithTrace_ok[OF ok] split: option.splits)

lemma conserve_release:
  assumes ok: "driver_ok m"
  shows "live_jobs (snd (ReleaseCtx ctx now token delay m)) = live_jobs m"
  using driver_ok_release(2)[OF ok]
  by (auto simp: ReleaseCtx_def Let_def live_jobs_def split: option.splits)

lemma leased_token_nonzero:
  "driver_ok m \<Longrightarrow> map_of (md_reservations m) (rt_ID token) = Some r \<Longrightarrow> \<not> IsZero token"
  by (force simp: driver_ok_def tokens_ok_def IsZero_def)

lemma conserve_settle:
  assumes ok: "driver_ok m" and r: "map_of (md_reservations m) (rt_ID token) = Some r" and ctx: "cx_Err ctx = None"
  shows "live_jobs m = add_mset (jw_Job (mr_wrapper r)) (live_jobs (snd (AckCtx ctx token m)))"
    and "live_jobs m = add_mset (jw_Job (mr_wrapper r))
      (live_jobs (snd (FailReservedCtx code ctx now token job err queue m)))"
    and "failed_jobs (snd (FailReservedCtx code ctx now token job err queue m)) =
      add_mset (jw_Job (mr_wrapper r)) (failed_jobs m)"
proof -
  have maps: "maps_ok m" using ok by (simp add: driver_ok_def)
  have drop: "live_jobs m = add_mset (jw_Job (mr_wrapper r)) (live_jobs (dropReservation (rt_ID token) m))"
    using live_dropReservation[OF maps r] by (simp add: live_jobs_def)
  then show "live_jobs m = add_mset (jw_Job (mr_wrapper r)) (live_jobs (snd (AckCtx ctx token m)))"
    using leased_token_nonzero[OF ok r] r ctx by (simp add: AckCtx_def ctxErr_def)
  show "live_jobs m = add_mset (jw_Job (mr_wrapper r))
      (live_jobs (snd (FailReservedCtx code ctx now token job err queue m)))"
    using leased_token_nonzero[OF ok r] r ctx drop by (simp add: FailReservedCtx_def ctxErr_def live_jobs_def)
  show "failed_jobs (snd (FailReservedCtx code ctx now token job err queue m)) =
      add_mset (jw_Job (mr_wrapper r)) (failed_jobs m)"
    using leased_token_nonzero[OF ok r] r ctx maps
    by (simp add: FailReservedCtx_def ctxErr_def failed_jobs_def failures_recordFailed wf_intros)
qed

lemma conserve_push:
  assumes "driver_ok m"
  shows "case PushCtx code ctx now job names m of
    ((None, _), m') \<Rightarrow> live_jobs m' = add_mset job (live_jobs m) | (_, m') \<Rightarrow> live_jobs m' = live_jobs m"
proof -
  have maps: "maps_ok (warnIfNonIdentifiable code job m)"
    using assms by (simp add: driver_ok_def wf_intros)
  show ?thesis
    by (auto simp: PushCtx_def Let_def live_jobs_def live_enqueue[OF maps] split: option.splits sum.splits
        dest: createJobWrapper_ok)
qed

lemma ack_unleased: "map_of (md_reservations m) (rt_ID token) = None \<Longrightarrow> snd (AckCtx ctx token m) = m"
  by (simp add: AckCtx_def split: option.splits)

text \<open>C6: between the queues, the delayed heaps, the leases and the failed records no job is
  lost or duplicated. Leasing, releasing, promoting and sweeping keep the multiset of live jobs; a pop
  takes out exactly the job it returns; an acknowledgement takes out exactly the
  leased job; a failure of a leased job moves exactly that job to the failed records; a push
  that succeeds without a dedupe key adds exactly the pushed job, one that fails adds none.\<close>

theorem queue_conserves:
  assumes "queue_reaches code NewMemoryDriver m"
  shows "live_jobs (snd (snd (snd (PopCtxReserved code errText ctx now queue m)))) = live_jobs m \<and>
    live_jobs (snd (ReleaseCtx ctx now token delay m)) = live_jobs m \<and>
    live_jobs (moveReadyJobs now m) = live_jobs m \<and>
    live_jobs (sweepStaleDedupeKeys now m) = live_jobs m \<and>
    (case PopCtx code errText ctx now queue m of
       (Inr (Some j), m') \<Rightarrow> live_jobs m = add_mset (Some j) (live_jobs m') | (_, m') \<Rightarrow> m' = m) \<and>
    (case map_of (md_reservations m) (rt_ID token) of
       None \<Rightarrow> snd (AckCtx ctx token m) = m
     | Some r \<Rightarrow> cx_Err ctx = None \<longrightarrow>
         live_jobs m = add_mset (jw_Job (mr_wrapper r)) (live_jobs (snd (AckCtx ctx token m))) \<and>
         (case snd (FailReservedCtx code ctx now token job err queue m) of
            m' \<Rightarrow> live_jobs m = add_mset (jw_Job (mr_wrapper r)) (live_jobs m') \<and>
              failed_jobs m' = add_mset (jw_Job (mr_wrapper r)) (failed_jobs m))) \<and>
    (case PushCtx code ctx now job names m of
       ((None, _), m') \<Rightarrow> live_jobs m' = add_mset job (live_jobs m) | (_, m') \<Rightarrow> live_jobs m' = live_jobs m)"
proof -
  have ok: "driver_ok m" by (rule queue_reaches_ok[OF assms driver_ok_new])
  have "live_jobs (moveReadyJobs now m) = live_jobs m" "live_jobs (sweepStaleDedupeKeys now m) = live_jobs m"
    using moveReadyJobs_all(2)[OF ok] by (simp_all add: live_jobs_def)
  then show ?thesis
    using conserve_reserve[OF ok] conserve_release[OF ok] conserve_pop[OF ok] conserve_push[OF ok]
      conserve_settle[OF ok] ack_unleased[of m token ctx]
    by (simp split: option.split)
qed

theorem queue_conserves_witness:
  "live_jobs demo_leased = {#Some ''a''#} \<and>
   live_jobs (snd (AckCtx (background noTrace) \<lparr>rt_ID = 1, rt_Attempts = 1, rt_ReservedBy = []\<rparr> demo_leased)) = {#}"
proof -
  let ?t = "\<lparr>rt_ID = 1, rt_Attempts = 1, rt_ReservedBy = []\<rparr>"
  have jobs: "live_jobs demo_driver = {#Some ''a''#}"
    by (simp add: live_jobs_def live_def leased_def contents_def demo_defs)
  have leased: "live_jobs demo_leased = live_jobs demo_driver"
    unfolding demo_leased_def using queue_conserves[OF demo_driver_reached] by blast
  have "map_of (md_reservations demo_leased) (rt_ID ?t) = Some
      \<lparr>mr_wrapper = attempt (hd (bucket (md_queues demo_driver) ''default'')), mr_queue = ''default''\<rparr>"
    by (simp add: demo_defs PopCtxReserved_def reserveNext_def Let_def attempt_def)
  moreover have "jw_Job (attempt (hd (bucket (md_queues demo_driver) ''default''))) = Some ''a''"
    by (simp add: demo_defs)
  ultimately have "live_jobs demo_leased =
      add_mset (Some ''a'') (live_jobs (snd (AckCtx (background noTrace) ?t demo_leased)))"
    using queue_conserves[OF demo_leased_reached, of "\<lambda>_. []" "background noTrace" 0 "[]" ?t 0 None "[]" "[]"]
    by (simp add: background_def)
  with jobs leased show ?thesis by simp
qed

text \<open>C21: a lease is settled at most once. After \<open>AckCtx\<close>, \<open>ReleaseCtx\<close> or
  \<open>FailReservedCtx\<close> on a token that was issued, every later use of the token, whatever the
  driver has done in between, answers \<open>ErrLeaseLost\<close> and leaves the driver as it is; and a
  token issued later is another token.\<close>

theorem lease_settled_once:
  assumes reached: "queue_reaches code NewMemoryDriver m"
    and token: "0 < rt_ID token" "rt_ID token \<le> md_nextReservationID m"
    and settle: "settle code ctx now token m m1" "cx_Err ctx = None"
    and later: "queue_reaches code m1 m2" "cx_Err ctx' = None"
  shows "AckCtx ctx' token m2 = (Some ErrLeaseLost, m2) \<and>
    ReleaseCtx ctx' now' token delay m2 = (Some ErrLeaseLost, m2) \<and>
    FailReservedCtx code ctx' now' token job err queue m2 = (Some ErrLeaseLost, m2) \<and>
    (case PopCtxReserved code errText ctx' now' queue m2 of
       (_, token', _) \<Rightarrow> rt_ID token' \<noteq> rt_ID token)"
proof -
  have ok: "driver_ok m" by (rule queue_reaches_ok[OF reached driver_ok_new])
  have "qstep code m m1" using settle(1)
    by (auto simp: settle_def intro: step_ack step_release step_fail_reserved)
  with ok have ok1: "driver_ok m1" by (rule qstep_ok[rotated])
  have settled: "settled token m2"
    by (rule settled_reaches[OF later(1) ok1]) (rule settle_settled[OF ok settle token])
  moreover have "driver_ok m2" by (rule queue_reaches_ok[OF later(1) ok1])
  then have "case PopCtxReserved code errText ctx' now' queue m2 of
      (_, token', _) \<Rightarrow> rt_ID token' \<noteq> rt_ID token"
    using settled
    by (auto simp: PopCtxReserved_ok settled_def zeroToken_def token_for_def split: option.splits list.splits)
  ultimately show ?thesis using settled_refused[OF settled later(2)] by simp
qed

theorem lease_settled_once_witness:
  "AckCtx (background noTrace) \<lparr>rt_ID = 1, rt_Attempts = 1, rt_ReservedBy = []\<rparr>
     (Clear ''default'' (snd (AckCtx (background noTrace) \<lparr>rt_ID = 1, rt_Attempts = 1, rt_ReservedBy = []\<rparr> demo_leased)))
   = (Some ErrLeaseLost,
     Clear ''default'' (snd (AckCtx (background noTrace) \<lparr>rt_ID = 1, rt_Attempts = 1, rt_ReservedBy = []\<rparr> demo_leased)))"
proof -
  let ?t = "\<lparr>rt_ID = 1, rt_Attempts = 1, rt_ReservedBy = []\<rparr>"
  let ?m = "snd (AckCtx (background noTrace) ?t demo_leased)"
  have "settle demo_code (background noTrace) 0 ?t demo_leased ?m" by (simp add: settle_def)
  moreover have "queue_reaches demo_code ?m (Clear ''default'' ?m)" by (rule r_into_rtranclp, rule step_clear)
  moreover have "rt_ID ?t \<le> md_nextReservationID demo_leased"
    by (simp add: demo_defs PopCtxReserved_def reserveNext_def)
  moreover have "cx_Err (background noTrace) = None" "0 < rt_ID ?t" by (simp_all add: background_def)
  ultimately show ?thesis using lease_settled_once[OF demo_leased_reached] by blast
qed

text \<open>C30: one run of \<open>moveReadyJobs\<close> promotes, of every queue, exactly the delayed jobs whose
  time has come, appends them to the queue in the order of their times behind what was
  queued before, and leaves exactly the others delayed.\<close>

theorem moveReadyJobs_exact:
  assumes "queue_reaches code NewMemoryDriver m"
  shows "\<exists>js. bucket (md_queues (moveReadyJobs now m)) name = bucket (md_queues m) name @ map dj_wrapper js \<and>
    mset js = filter_mset (\<lambda>j. dj_runAt j \<le> now) (mset (bucket (md_delayed m) name)) \<and>
    sorted (map dj_runAt js) \<and>
    mset (bucket (md_delayed (moveReadyJobs now m)) name) =
      filter_mset (\<lambda>j. \<not> dj_runAt j \<le> now) (mset (bucket (md_delayed m) name))"
proof -
  have ok: "driver_ok m" by (rule queue_reaches_ok[OF assms driver_ok_new])
  then have "heap_ok dj_runAt (bucket (md_delayed m) name)" by (simp add: driver_ok_def heaps_ok_def)
  from takeReady_spec[OF this] obtain js rest where
    take: "takeReady now (bucket (md_delayed m) name) = (map dj_wrapper js, rest)"
    and split: "ready_split now (bucket (md_delayed m) name) js rest" by blast
  have "filter_mset (\<lambda>j. dj_runAt j \<le> now) (mset js + mset rest) = mset js"
    "filter_mset (\<lambda>j. \<not> dj_runAt j \<le> now) (mset js + mset rest) = mset rest"
    using split by (auto simp: ready_split_def not_le filter_empty_conv simp flip: mset_filter)
  with split take show ?thesis
    by (intro exI[of _ js]) (simp add: moveReadyJobs_all[OF ok] ready_split_def)
qed

definition demo_delayed :: "string MemoryDriver" where
  "demo_delayed = snd (PushDelayedCtx demo_code (background noTrace) 5 (Some ''a'') 10 [] NewMemoryDriver)"

theorem moveReadyJobs_exact_witness:
  "Size ''default'' (moveReadyJobs 15 demo_delayed) = 1 \<and> Size ''default'' (moveReadyJobs 14 demo_delayed) = 0"
proof -
  have reached: "queue_reaches demo_code NewMemoryDriver demo_delayed"
    unfolding demo_delayed_def by (rule r_into_rtranclp, rule step_push_delayed)
  have at: "map dj_runAt (bucket (md_delayed demo_delayed) ''default'') = [15]"
    and empty: "bucket (md_queues demo_delayed) ''default'' = []"
    by (simp_all add: demo_delayed_def PushDelayedCtx_def demo_defs delayUntil_def heap_Push_def heap_up.simps parent_def)
  then obtain d where d: "bucket (md_delayed demo_delayed) ''default'' = [d]" "dj_runAt d = 15" by auto
  obtain js js' where
    "bucket (md_queues (moveReadyJobs 15 demo_delayed)) ''default'' = map dj_wrapper js" "mset js = {#d#}"
    "bucket (md_queues (moveReadyJobs 14 demo_delayed)) ''default'' = map dj_wrapper js'" "mset js' = {#}"
    using moveReadyJobs_exact[OF reached, of 15 "''default''"] moveReadyJobs_exact[OF reached, of 14 "''default''"]
      d empty by auto
  then show ?thesis by (simp add: Size_def flip: size_mset)
qed

text \<open>C31: a queue is first in, first out: jobs that are pushed one after the other to an empty
  queue come back, each once and as the values that were pushed, in the order of the pushes.\<close>

theorem queue_fifo:
  assumes "queue_reaches code NewMemoryDriver m" "queued name m = []" "\<forall>j \<in> set js. pushable code name j"
  shows "fst (pop_many (pop_job code errText tr' now' name) (length js) (fold (push_job code tr now name) js m)) =
    map Some js"
  using queue_reaches_ok[OF assms(1) driver_ok_new] assms(2,3) by (rule memory_queue.push_drain)

theorem queue_fifo_witness:
  "fst (pop_many (pop_job demo_code (\<lambda>_. []) noTrace 3 ''mail'') 2
     (fold (push_job demo_code noTrace 2 ''mail'') [''x'', ''y''] demo_driver)) = [Some ''x'', Some ''y'']"
  using queue_fifo[OF demo_driver_reached, of "''mail''" "[''x'', ''y'']" "\<lambda>_. []" noTrace 3 noTrace 2]
  by (simp add: queued_def pushable_def demo_defs numeral_2_eq_2)

end
