(* ===== verification/Queue_Backoff.thy ===== *)
theory Queue_Backoff
  imports Main "HOL-Library.Word"
begin

text \<open>
  The retry delays of \<open>src/queue/backoff.go\<close>. A \<open>time.Duration\<close> is a signed 64-bit
  integer, and the delays are computed on it with Go's wrapping arithmetic, so they are
  \<open>64 word\<close>s here and \<^const>\<open>sint\<close> reads them.
\<close>

type_synonym duration64 = "64 word"

definition exceeds :: "duration64 \<Rightarrow> duration64 \<Rightarrow> bool" where
  "exceeds delay cap \<longleftrightarrow> sint delay > sint cap"

primrec doubling :: "nat \<Rightarrow> duration64 \<Rightarrow> duration64 \<Rightarrow> duration64" where
  "doubling 0 cap delay = (if exceeds delay cap then cap else delay)"
| "doubling (Suc n) cap delay =
     (let delay = delay * 2 in if exceeds delay cap then cap else doubling n cap delay)"

definition ExponentialBackoff :: "duration64 \<Rightarrow> duration64 \<Rightarrow> int \<Rightarrow> duration64" where
  "ExponentialBackoff base cap attempt =
     (let attempt = (if attempt \<le> 0 then 1 else attempt) in doubling (nat (attempt - 1)) cap base)"

definition LinearBackoff :: "duration64 \<Rightarrow> duration64 \<Rightarrow> int \<Rightarrow> duration64" where
  "LinearBackoff step cap attempt =
     (let attempt = (if attempt \<le> 0 then 1 else attempt);
          delay = step * word_of_int attempt
      in if exceeds delay cap then cap else delay)"

definition FixedBackoff :: "duration64 \<Rightarrow> int \<Rightarrow> duration64" where
  "FixedBackoff delay attempt = delay"

lemma sint_mult_bounded:
  assumes "0 \<le> sint (a :: duration64) * b" "sint a * b < 2 ^ 63"
  shows "sint (a * word_of_int b) = sint a * b"
proof -
  have "a * word_of_int b = word_of_int (sint a * b)" by simp
  then have "sint (a * word_of_int b) = signed_take_bit 63 (sint a * b)"
    by (simp only: signed_of_int) simp
  also have "\<dots> = sint a * b" using assms by (intro signed_take_bit_int_eq_self) auto
  finally show ?thesis .
qed

lemma sint_double:
  assumes "0 \<le> sint (a :: duration64)" "sint a < 2 ^ 62"
  shows "sint (a * 2) = 2 * sint a"
  using sint_mult_bounded[of a 2] assms by simp

lemma doubling_exact:
  assumes "0 \<le> sint delay" "sint delay < 2 ^ 62" "0 \<le> sint cap" "sint cap < 2 ^ 62"
  shows "sint (doubling n cap delay) = min (sint delay * 2 ^ n) (sint cap)"
  using assms
proof (induction n arbitrary: delay)
  case 0
  then show ?case by (simp add: exceeds_def)
next
  case (Suc n)
  note d = sint_double[OF Suc.prems(1,2)]
  show ?case
  proof (cases "exceeds (delay * 2) cap")
    case True
    have "sint cap < 2 * sint delay" using True d by (simp add: exceeds_def)
    also have "\<dots> \<le> 2 * sint delay * 2 ^ n" using Suc.prems(1) by (simp add: mult_le_cancel_left1)
    finally show ?thesis using True by (simp add: ac_simps)
  next
    case False
    then have "sint (delay * 2) < 2 ^ 62" using Suc.prems by (simp add: exceeds_def)
    with Suc.IH[of "delay * 2"] Suc.prems False d show ?thesis by (simp add: ac_simps)
  qed
qed

text \<open>Beyond those bounds the doubling wraps: with the largest duration as the cap, one nanosecond
  doubled 64 times is a delay of zero.\<close>

lemma ExponentialBackoff_wraps: "ExponentialBackoff 1 (2 ^ 63 - 1) 65 = 0"
  by code_simp

lemma LinearBackoff_wraps: "sint (LinearBackoff (2 ^ 62) (2 ^ 63 - 1) 2) = - (2 ^ 63)"
  by code_simp

text \<open>C32: as long as the base and the cap are below \<open>2^62\<close> nanoseconds, the exponential
  delay of the n-th attempt is the smaller of \<open>base * 2^(n-1)\<close> and the cap, and so lies
  between zero and the cap; the linear delay is the smaller of \<open>step * n\<close> and the cap as long
  as the product fits a duration.\<close>

theorem backoff_exact:
  assumes "0 \<le> sint base" "sint base < 2 ^ 62" "0 \<le> sint cap" "sint cap < 2 ^ 62"
    "sint base * max attempt 1 < 2 ^ 63"
  shows "sint (ExponentialBackoff base cap attempt) = min (sint base * 2 ^ nat (max attempt 1 - 1)) (sint cap) \<and>
    sint (LinearBackoff base cap attempt) = min (sint base * max attempt 1) (sint cap) \<and>
    sint (ExponentialBackoff base cap attempt) \<in> {0..sint cap}"
proof -
  have attempt: "(if attempt \<le> 0 then 1 else attempt) = max attempt 1" by auto
  have exp: "sint (ExponentialBackoff base cap attempt) = min (sint base * 2 ^ nat (max attempt 1 - 1)) (sint cap)"
    unfolding ExponentialBackoff_def Let_def attempt by (rule doubling_exact[OF assms(1-4)])
  have "sint (base * word_of_int (max attempt 1)) = sint base * max attempt 1"
    using assms by (intro sint_mult_bounded) auto
  then have "sint (LinearBackoff base cap attempt) = min (sint base * max attempt 1) (sint cap)"
    unfolding LinearBackoff_def Let_def attempt by (simp add: exceeds_def)
  with exp assms show ?thesis by (simp add: min_def)
qed

theorem backoff_exact_witness:
  "sint (ExponentialBackoff 1000 60000 5) = 16000 \<and> sint (ExponentialBackoff 1000 60000 50) = 60000 \<and>
   sint (LinearBackoff 1000 60000 5) = 5000"
  using backoff_exact[of 1000 60000 5] backoff_exact[of 1000 60000 50] by simp

end
