(* ===== verification/Tx_Callbacks.thy ===== *)
theory Tx_Callbacks
  imports Prelude
begin

text \<open>
  What a database transaction holds back until its outcome is known:
  the callbacks of \<open>src/orm/tx_callbacks.go\<close>, the buffered events of
  \<open>src/events/buffer.go\<close> and the after-commit tasks of \<open>src/events/after_commit.go\<close>.

  A callback is user code: it is known by a number, by how it ends and by the
  registrations its body makes on the callbacks of the transaction that runs it. An
  effect is something the outside world observes, and the operations return the list of
  the effects they have, in order.
\<close>

subsection \<open>Callbacks\<close>

datatype tx_phase = AfterCommit | AfterRollback | AfterCommitFailure

datatype cb_end = CbReturns | CbErrors | CbPanics

datatype callback =
  Callback (cb_id: nat) (cb_registers: "(tx_phase \<times> callback) list") (cb_end: cb_end)

record TxCallbacks =
  cbs_commit :: "callback list"
  cbs_rollback :: "callback list"
  cbs_commitFailure :: "callback list"
  cbs_committed :: bool
  cbs_rolled :: bool
  cbs_commitFailedAt :: bool

definition newTxCallbacks :: TxCallbacks where
  "newTxCallbacks = \<lparr>cbs_commit = [], cbs_rollback = [], cbs_commitFailure = [], cbs_committed = False,
     cbs_rolled = False, cbs_commitFailedAt = False\<rparr>"

definition terminated :: "TxCallbacks \<Rightarrow> bool" where
  "terminated c \<longleftrightarrow> cbs_committed c \<or> cbs_rolled c \<or> cbs_commitFailedAt c"

definition OnCommit :: "callback \<Rightarrow> TxCallbacks \<Rightarrow> TxCallbacks" where
  "OnCommit fn c = (if terminated c then c else c\<lparr>cbs_commit := cbs_commit c @ [fn]\<rparr>)"

definition OnRollback :: "callback \<Rightarrow> TxCallbacks \<Rightarrow> TxCallbacks" where
  "OnRollback fn c = (if terminated c then c else c\<lparr>cbs_rollback := cbs_rollback c @ [fn]\<rparr>)"

definition OnCommitFailure :: "callback \<Rightarrow> TxCallbacks \<Rightarrow> TxCallbacks" where
  "OnCommitFailure fn c = (if terminated c then c else c\<lparr>cbs_commitFailure := cbs_commitFailure c @ [fn]\<rparr>)"

definition register :: "tx_phase \<times> callback \<Rightarrow> TxCallbacks \<Rightarrow> TxCallbacks" where
  "register reg c =
     (case reg of
        (AfterCommit, fn) \<Rightarrow> OnCommit fn c
      | (AfterRollback, fn) \<Rightarrow> OnRollback fn c
      | (AfterCommitFailure, fn) \<Rightarrow> OnCommitFailure fn c)"

datatype txerr =
  ErrManagerShutdown | ErrBegin | ErrSavepoint | ErrClosure | ErrCommit | ErrFlush | ErrTask | ErrFlushAndTask

datatype recover_cause = CallbackPanic tx_phase nat | PanicRollback | ErrorRollback

datatype 'e tx_effect =
    Delivered 'e
  | DeliveryFailed 'e
  | RanTask nat
  | RanCallback tx_phase nat
  | TxRecover recover_cause
  | TransactionExecuted bool

definition runCallbackSafe :: "tx_phase \<Rightarrow> callback \<Rightarrow> 'e tx_effect list" where
  "runCallbackSafe phase fn =
     RanCallback phase (cb_id fn) #
     (case cb_end fn of CbPanics \<Rightarrow> [TxRecover (CallbackPanic phase (cb_id fn))] | _ \<Rightarrow> [])"

fun callbacks_of :: "tx_phase \<Rightarrow> TxCallbacks \<Rightarrow> callback list" where
  "callbacks_of AfterCommit c = cbs_commit c"
| "callbacks_of AfterRollback c = cbs_rollback c"
| "callbacks_of AfterCommitFailure c = cbs_commitFailure c"

partial_function (option) drain ::
  "tx_phase \<Rightarrow> nat \<Rightarrow> TxCallbacks \<Rightarrow> 'e tx_effect list \<Rightarrow> (TxCallbacks \<times> 'e tx_effect list) option" where
  "drain phase i c out =
     (if i \<ge> length (callbacks_of phase c) then Some (c, out)
      else
        let fn = callbacks_of phase c ! i
        in drain phase (i + 1) (fold register (cb_registers fn) c) (out @ runCallbackSafe phase fn))"

declare drain.simps [code]

definition cleared_callbacks :: "TxCallbacks \<Rightarrow> TxCallbacks" where
  "cleared_callbacks c = c\<lparr>cbs_commit := [], cbs_rollback := [], cbs_commitFailure := []\<rparr>"

definition runCommit :: "TxCallbacks \<Rightarrow> (TxCallbacks \<times> 'e tx_effect list) option" where
  "runCommit c =
     (if terminated c then Some (c, [])
      else
        map_option (\<lambda>(c, out). (cleared_callbacks c, out))
          (drain AfterCommit 0 (c\<lparr>cbs_committed := True\<rparr>) []))"

definition runRollback :: "TxCallbacks \<Rightarrow> (TxCallbacks \<times> 'e tx_effect list) option" where
  "runRollback c =
     (if terminated c then Some (c, [])
      else
        map_option (\<lambda>(c, out). (cleared_callbacks c, out))
          (drain AfterRollback 0 (c\<lparr>cbs_rolled := True\<rparr>) []))"

definition runCommitFailure :: "TxCallbacks \<Rightarrow> (TxCallbacks \<times> 'e tx_effect list) option" where
  "runCommitFailure c =
     (if terminated c then Some (c, [])
      else
        map_option (\<lambda>(c, out). (cleared_callbacks c, out))
          (drain AfterCommitFailure 0 (c\<lparr>cbs_commitFailedAt := True\<rparr>) []))"

subsection \<open>Buffered events\<close>

datatype DispatchKind = KindDispatch | KindDispatchNow | KindDispatchAsync | KindDispatchAfter | KindUntil

record 'e BufferedEvent =
  be_event :: 'e
  be_kind :: DispatchKind
  be_delay :: duration

record 'e BufferedDispatcher =
  bd_events :: "'e BufferedEvent list"
  bd_flushed :: bool
  bd_dropped :: bool

datatype buffer_handle = StandaloneBuffer | OwnBuffer | ChildBuffer nat

datatype delivery = DeliveryOk | DeliveryError | DeliveryPanic

definition newBuffer :: "'e BufferedDispatcher" where
  "newBuffer = \<lparr>bd_events = [], bd_flushed = False, bd_dropped = False\<rparr>"

definition recordKind :: "'e BufferedEvent \<Rightarrow> 'e BufferedDispatcher \<Rightarrow> 'e BufferedDispatcher" where
  "recordKind entry b =
     (if bd_dropped b \<or> bd_flushed b then b else b\<lparr>bd_events := bd_events b @ [entry]\<rparr>)"

fun flushEntries ::
  "('e BufferedEvent \<Rightarrow> delivery) \<Rightarrow> 'e BufferedEvent list
     \<Rightarrow> delivery \<times> 'e BufferedEvent list \<times> 'e BufferedEvent tx_effect list" where
  "flushEntries deliver [] = (DeliveryOk, [], [])"
| "flushEntries deliver (entry # pending) =
     (case deliver entry of
        DeliveryError \<Rightarrow> (DeliveryError, entry # pending, [DeliveryFailed entry])
      | DeliveryPanic \<Rightarrow> (DeliveryPanic, [], [DeliveryFailed entry])
      | DeliveryOk \<Rightarrow>
          (case flushEntries deliver pending of (r, rest, out) \<Rightarrow> (r, rest, Delivered entry # out)))"

definition Flush ::
  "('e BufferedEvent \<Rightarrow> delivery) \<Rightarrow> 'e BufferedDispatcher
     \<Rightarrow> (delivery \<times> 'e BufferedEvent tx_effect list) \<times> 'e BufferedDispatcher" where
  "Flush deliver b =
     (if bd_flushed b \<or> bd_dropped b then ((DeliveryOk, []), b)
      else
        (case flushEntries deliver (bd_events b) of
           (r, rest, out) \<Rightarrow>
             ((r, out), b\<lparr>bd_events := rest, bd_flushed := (r \<noteq> DeliveryError)\<rparr>)))"

definition Drop :: "buffer_handle \<Rightarrow> 'e BufferedDispatcher \<Rightarrow> 'e BufferedDispatcher" where
  "Drop h b =
     (case h of
        StandaloneBuffer \<Rightarrow> b
      | ChildBuffer baseline \<Rightarrow>
          if baseline < length (bd_events b) then b\<lparr>bd_events := take baseline (bd_events b)\<rparr> else b
      | OwnBuffer \<Rightarrow> b\<lparr>bd_dropped := True, bd_events := []\<rparr>)"

subsection \<open>After-commit tasks\<close>

datatype task = Task (task_id: nat) (task_fails: bool)

record afterCommitQueue =
  aq_tasks :: "task list"
  aq_claimed :: bool
  aq_finished :: bool

record AfterCommitHandle =
  ah_baseline :: nat
  ah_owner :: bool

definition TruncateToBaseline :: "AfterCommitHandle \<Rightarrow> afterCommitQueue \<Rightarrow> afterCommitQueue" where
  "TruncateToBaseline h q =
     (if aq_finished q then q
      else if ah_baseline h < length (aq_tasks q) then q\<lparr>aq_tasks := take (ah_baseline h) (aq_tasks q)\<rparr>
      else q)"

definition InstallAfterCommitQueue :: "afterCommitQueue option \<Rightarrow> AfterCommitHandle \<times> afterCommitQueue" where
  "InstallAfterCommitQueue existing =
     (case existing of
        Some q \<Rightarrow>
          if \<not> aq_claimed q then (\<lparr>ah_baseline = 0, ah_owner = True\<rparr>, q\<lparr>aq_claimed := True\<rparr>)
          else (\<lparr>ah_baseline = length (aq_tasks q), ah_owner = False\<rparr>, q)
      | None \<Rightarrow>
          (\<lparr>ah_baseline = 0, ah_owner = True\<rparr>, \<lparr>aq_tasks = [], aq_claimed = True, aq_finished = False\<rparr>))"

definition EnqueueAfterCommit :: "task \<Rightarrow> afterCommitQueue option \<Rightarrow> bool \<times> afterCommitQueue option" where
  "EnqueueAfterCommit t queue =
     (case queue of
        None \<Rightarrow> (False, None)
      | Some q \<Rightarrow>
          if aq_finished q then (False, Some q) else (True, Some (q\<lparr>aq_tasks := aq_tasks q @ [t]\<rparr>)))"

definition FireAfterCommit :: "afterCommitQueue \<Rightarrow> (bool \<times> 'e tx_effect list) \<times> afterCommitQueue" where
  "FireAfterCommit q =
     (if aq_finished q then ((False, []), q)
      else
        ((list_ex task_fails (aq_tasks q), map (\<lambda>t. RanTask (task_id t)) (aq_tasks q)),
         q\<lparr>aq_tasks := [], aq_finished := True\<rparr>))"

definition DropAfterCommit :: "afterCommitQueue \<Rightarrow> afterCommitQueue" where
  "DropAfterCommit q = q\<lparr>aq_tasks := [], aq_finished := True\<rparr>"

definition PendingAfterCommit :: "afterCommitQueue option \<Rightarrow> nat" where
  "PendingAfterCommit queue = (case queue of None \<Rightarrow> 0 | Some q \<Rightarrow> length (aq_tasks q))"

subsection \<open>The drains\<close>

lemma register_terminated [simp]: "terminated c \<Longrightarrow> register reg c = c"
  by (auto simp: register_def OnCommit_def OnRollback_def OnCommitFailure_def split: prod.splits tx_phase.splits)

lemma fold_register_terminated [simp]: "terminated c \<Longrightarrow> fold register regs c = c"
  by (induction regs) auto

text \<open>The loop of a drain ends, and runs every callback of its phase once, in order: what a
  callback registers in its body is refused, because the transaction is marked as ended
  before the loop starts.\<close>

lemma drain_returns:
  assumes "terminated c"
  shows "drain phase i c out = Some (c, out @ concat (map (runCallbackSafe phase) (drop i (callbacks_of phase c))))"
proof (induction "length (callbacks_of phase c) - i" arbitrary: i out)
  case 0
  then show ?case by (subst drain.simps) simp
next
  case (Suc n)
  then have i: "i < length (callbacks_of phase c)" by simp
  have "n = length (callbacks_of phase c) - (i + 1)" using Suc.hyps(2) by simp
  from Suc.hyps(1)[OF this] i assms show ?case
    by (subst drain.simps) (simp add: Let_def Cons_nth_drop_Suc[symmetric, of i])
qed

definition ran_all :: "tx_phase \<Rightarrow> callback list \<Rightarrow> 'e tx_effect list" where
  "ran_all phase fns = concat (map (runCallbackSafe phase) fns)"

lemma run_drains:
  assumes "\<not> terminated c"
  shows "runCommit c = Some (cleared_callbacks (c\<lparr>cbs_committed := True\<rparr>), ran_all AfterCommit (cbs_commit c))"
    "runRollback c = Some (cleared_callbacks (c\<lparr>cbs_rolled := True\<rparr>), ran_all AfterRollback (cbs_rollback c))"
    "runCommitFailure c = Some (cleared_callbacks (c\<lparr>cbs_commitFailedAt := True\<rparr>),
       ran_all AfterCommitFailure (cbs_commitFailure c))"
  using assms
  by (simp_all add: runCommit_def runRollback_def runCommitFailure_def drain_returns terminated_def ran_all_def)

end
