(* ===== verification/Tx_Manager.thy ===== *)
theory Tx_Manager
  imports Tx_Callbacks
begin

text \<open>
  \<open>Manager.Transaction\<close> of \<open>src/orm/manager.go\<close>: a real transaction, or a savepoint on
  the transaction the context carries, around a closure of the caller.

  The database driver is a parameter: whether it is live, and what each of its calls answers and
  does to it. So is the dispatcher that buffered events are delivered to. The closure is a function
  on the world; the closures of the properties are programs over the things a closure can do
  in a transaction, nested transactions included. The context is known by what it
  carries. Trace ids and logging are left out.
\<close>

subsection \<open>The driver, the context and the world\<close>

datatype stmt = Statement nat | Savepoint nat | ReleaseSavepoint nat | RollbackToSavepoint nat

record ('db, 'e) TxEnv =
  te_live :: "'db \<Rightarrow> bool"
  te_begin :: "'db \<Rightarrow> bool \<times> 'db"
  te_exec :: "stmt \<Rightarrow> 'db \<Rightarrow> bool \<times> 'db"
  te_commit :: "'db \<Rightarrow> bool \<times> 'db"
  te_rollback :: "'db \<Rightarrow> bool \<times> 'db"
  te_deliver :: "'e BufferedEvent \<Rightarrow> delivery"

record TxCtx =
  tx_inside :: bool
  tx_bufferHolder :: bool
  tx_callbacksHolder :: bool
  tx_queue :: bool

record ('db, 'e) world =
  w_db :: 'db
  w_savepoints :: nat
  w_buffer :: "'e BufferedDispatcher option"
  w_callbacks :: "TxCallbacks option"
  w_queue :: "afterCommitQueue option"
  w_out :: "'e BufferedEvent tx_effect list"

datatype closure_end = Returns | ReturnsError | Panics

datatype tx_result = Done | Failed txerr | Panicked

type_synonym ('db, 'e) closure = "TxCtx \<Rightarrow> ('db, 'e) world \<Rightarrow> (closure_end \<times> ('db, 'e) world) option"

definition emit :: "'e BufferedEvent tx_effect list \<Rightarrow> ('db, 'e) world \<Rightarrow> ('db, 'e) world" where
  "emit out w = w\<lparr>w_out := w_out w @ out\<rparr>"

definition exec :: "('db, 'e) TxEnv \<Rightarrow> stmt \<Rightarrow> ('db, 'e) world \<Rightarrow> bool \<times> ('db, 'e) world" where
  "exec env s w = (case te_exec env s (w_db w) of (ok, db) \<Rightarrow> (ok, w\<lparr>w_db := db\<rparr>))"

subsection \<open>Installing the holders\<close>

definition InstallBuffer :: "TxCtx \<Rightarrow> ('db, 'e) world \<Rightarrow> buffer_handle \<times> ('db, 'e) world" where
  "InstallBuffer ctx w =
     (if \<not> tx_bufferHolder ctx then (StandaloneBuffer, w)
      else
        (case w_buffer w of
           Some b \<Rightarrow> (ChildBuffer (length (bd_events b)), w)
         | None \<Rightarrow> (OwnBuffer, w\<lparr>w_buffer := Some newBuffer\<rparr>)))"

datatype callbacks_handle = StandaloneCallbacks | OwnCallbacks | OuterCallbacks

definition installTxCallbacks :: "TxCtx \<Rightarrow> ('db, 'e) world \<Rightarrow> callbacks_handle \<times> ('db, 'e) world" where
  "installTxCallbacks ctx w =
     (if \<not> tx_callbacksHolder ctx then (StandaloneCallbacks, w)
      else
        (case w_callbacks w of
           Some _ \<Rightarrow> (OuterCallbacks, w)
         | None \<Rightarrow> (OwnCallbacks, w\<lparr>w_callbacks := Some newTxCallbacks\<rparr>)))"

definition installQueue :: "TxCtx \<Rightarrow> ('db, 'e) world \<Rightarrow> AfterCommitHandle \<times> ('db, 'e) world" where
  "installQueue ctx w =
     (case InstallAfterCommitQueue (if tx_queue ctx then w_queue w else None) of
        (h, q) \<Rightarrow> (h, w\<lparr>w_queue := Some q\<rparr>))"

definition dropBuffer :: "buffer_handle \<Rightarrow> ('db, 'e) world \<Rightarrow> ('db, 'e) world" where
  "dropBuffer h w = w\<lparr>w_buffer := map_option (Drop h) (w_buffer w)\<rparr>"

definition dropAfterCommit :: "AfterCommitHandle \<Rightarrow> ('db, 'e) world \<Rightarrow> ('db, 'e) world" where
  "dropAfterCommit h w =
     w\<lparr>w_queue := map_option (if ah_owner h then DropAfterCommit else TruncateToBaseline h) (w_queue w)\<rparr>"

definition drainAfterCommit :: "AfterCommitHandle \<Rightarrow> ('db, 'e) world \<Rightarrow> bool \<times> ('db, 'e) world" where
  "drainAfterCommit h w =
     (case w_queue w of
        Some q \<Rightarrow>
          if ah_owner h then
            (case FireAfterCommit q of ((failed, out), q) \<Rightarrow> (failed, emit out (w\<lparr>w_queue := Some q\<rparr>)))
          else (False, w)
      | None \<Rightarrow> (False, w))"

definition flushBuffer :: "('db, 'e) TxEnv \<Rightarrow> buffer_handle \<Rightarrow> ('db, 'e) world \<Rightarrow> delivery \<times> ('db, 'e) world" where
  "flushBuffer env h w =
     (case h of
        OwnBuffer \<Rightarrow>
          (case w_buffer w of
             Some b \<Rightarrow> (case Flush (te_deliver env) b of ((r, out), b) \<Rightarrow> (r, emit out (w\<lparr>w_buffer := Some b\<rparr>)))
           | None \<Rightarrow> (DeliveryOk, w))
      | _ \<Rightarrow> (DeliveryOk, w))"

definition drainCallbacks ::
  "(TxCallbacks \<Rightarrow> (TxCallbacks \<times> 'e BufferedEvent tx_effect list) option)
     \<Rightarrow> callbacks_handle \<Rightarrow> ('db, 'e) world \<Rightarrow> ('db, 'e) world option" where
  "drainCallbacks run h w =
     (if h = OwnCallbacks then
        (case w_callbacks w of
           Some c \<Rightarrow> map_option (\<lambda>(c, out). emit out (w\<lparr>w_callbacks := Some c\<rparr>)) (run c)
         | None \<Rightarrow> Some w)
      else Some w)"

definition releaseHolders :: "buffer_handle \<Rightarrow> callbacks_handle \<Rightarrow> ('db, 'e) world \<Rightarrow> ('db, 'e) world" where
  "releaseHolders hb hc w =
     w\<lparr>w_buffer := (if hb = OwnBuffer then None else w_buffer w),
       w_callbacks := (if hc = OwnCallbacks then None else w_callbacks w)\<rparr>"

subsection \<open>Transaction\<close>

definition doCommit :: "('db, 'e) TxEnv \<Rightarrow> nat option \<Rightarrow> ('db, 'e) world \<Rightarrow> bool \<times> ('db, 'e) world" where
  "doCommit env savepoint w =
     (case savepoint of
        Some sp \<Rightarrow> exec env (ReleaseSavepoint sp) w
      | None \<Rightarrow> (case te_commit env (w_db w) of (ok, db) \<Rightarrow> (ok, w\<lparr>w_db := db\<rparr>)))"

definition doRollback :: "('db, 'e) TxEnv \<Rightarrow> nat option \<Rightarrow> ('db, 'e) world \<Rightarrow> bool \<times> ('db, 'e) world" where
  "doRollback env savepoint w =
     (case savepoint of
        Some sp \<Rightarrow>
          (case exec env (RollbackToSavepoint sp) w of
             (False, w) \<Rightarrow> (False, w)
           | (True, w) \<Rightarrow> exec env (ReleaseSavepoint sp) w)
      | None \<Rightarrow> (case te_rollback env (w_db w) of (ok, db) \<Rightarrow> (ok, w\<lparr>w_db := db\<rparr>)))"

definition rollbackPath ::
  "('db, 'e) TxEnv \<Rightarrow> nat option \<Rightarrow> buffer_handle \<Rightarrow> callbacks_handle \<Rightarrow> AfterCommitHandle \<Rightarrow> recover_cause
     \<Rightarrow> ('db, 'e) world \<Rightarrow> ('db, 'e) world option" where
  "rollbackPath env savepoint hb hc hq cause w =
     (let w = dropAfterCommit hq (dropBuffer hb w) in
      case doRollback env savepoint w of
        (ok, w) \<Rightarrow>
          drainCallbacks runRollback hc
            (emit ((if ok then [] else [TxRecover cause]) @ [TransactionExecuted False]) w))"

definition commitPath ::
  "('db, 'e) TxEnv \<Rightarrow> buffer_handle \<Rightarrow> callbacks_handle \<Rightarrow> AfterCommitHandle
     \<Rightarrow> ('db, 'e) world \<Rightarrow> (tx_result \<times> ('db, 'e) world) option" where
  "commitPath env hb hc hq w =
     (case flushBuffer env hb w of
        (DeliveryPanic, w) \<Rightarrow> map_option (Pair Panicked) (rollbackPath env None hb hc hq PanicRollback w)
      | (DeliveryError, w) \<Rightarrow>
          (case drainAfterCommit hq w of
             (failed, w) \<Rightarrow>
               map_option (Pair (Failed (if failed then ErrFlushAndTask else ErrFlush)))
                 (drainCallbacks runCommit hc (emit [TransactionExecuted True] w)))
      | (DeliveryOk, w) \<Rightarrow>
          (case drainAfterCommit hq w of
             (failed, w) \<Rightarrow>
               map_option (Pair (if failed then Failed ErrTask else Done))
                 (drainCallbacks runCommit hc (emit [TransactionExecuted True] w))))"

definition runScope ::
  "('db, 'e) TxEnv \<Rightarrow> nat option \<Rightarrow> TxCtx \<Rightarrow> ('db, 'e) closure \<Rightarrow> ('db, 'e) world
     \<Rightarrow> (tx_result \<times> ('db, 'e) world) option" where
  "runScope env savepoint ctx fn w =
     (case InstallBuffer ctx w of
        (hb, w) \<Rightarrow>
      (case installTxCallbacks ctx w of
        (hc, w) \<Rightarrow>
      (case installQueue ctx w of
        (hq, w) \<Rightarrow>
      map_option (\<lambda>(r, w). (r, releaseHolders hb hc w))
        (case fn (ctx\<lparr>tx_inside := True, tx_queue := True\<rparr>) w of
           None \<Rightarrow> None
         | Some (Panics, w) \<Rightarrow>
             map_option (Pair Panicked) (rollbackPath env savepoint hb hc hq PanicRollback w)
         | Some (ReturnsError, w) \<Rightarrow>
             map_option (Pair (Failed ErrClosure)) (rollbackPath env savepoint hb hc hq ErrorRollback w)
         | Some (Returns, w) \<Rightarrow>
             (case doCommit env savepoint w of
                (False, w) \<Rightarrow>
                  map_option (Pair (Failed ErrCommit))
                    (drainCallbacks runCommitFailure hc
                       (emit [TransactionExecuted False] (dropAfterCommit hq (dropBuffer hb w))))
              | (True, w) \<Rightarrow>
                  if savepoint \<noteq> None then Some (Done, emit [TransactionExecuted True] w)
                  else commitPath env hb hc hq w)))))"

definition Transaction ::
  "('db, 'e) TxEnv \<Rightarrow> TxCtx \<Rightarrow> ('db, 'e) closure \<Rightarrow> ('db, 'e) world
     \<Rightarrow> (tx_result \<times> ('db, 'e) world) option" where
  "Transaction env ctx fn w =
     (if \<not> te_live env (w_db w) then Some (Failed ErrManagerShutdown, w)
      else if tx_inside ctx then
        let sp = Suc (w_savepoints w); w = w\<lparr>w_savepoints := sp\<rparr> in
        (case exec env (Savepoint sp) w of
           (False, w) \<Rightarrow> Some (Failed ErrSavepoint, w)
         | (True, w) \<Rightarrow> runScope env (Some sp) ctx fn w)
      else
        (case te_begin env (w_db w) of
           (False, db) \<Rightarrow> Some (Failed ErrBegin, w\<lparr>w_db := db\<rparr>)
         | (True, db) \<Rightarrow> runScope env None ctx fn (w\<lparr>w_db := db\<rparr>)))"

subsection \<open>Programs\<close>

datatype 'e action =
    Exec nat
  | Dispatch "'e BufferedEvent"
  | Register tx_phase callback
  | Enqueue task
  | Nested "'e action list" closure_end bool

definition dispatchBuffered :: "TxCtx \<Rightarrow> 'e BufferedEvent \<Rightarrow> ('db, 'e) world \<Rightarrow> ('db, 'e) world" where
  "dispatchBuffered ctx entry w =
     (if tx_bufferHolder ctx then w\<lparr>w_buffer := map_option (recordKind entry) (w_buffer w)\<rparr> else w)"

definition lookupTxCallbacks :: "TxCtx \<Rightarrow> ('db, 'e) world \<Rightarrow> TxCallbacks option" where
  "lookupTxCallbacks ctx w = (if tx_callbacksHolder ctx then w_callbacks w else None)"

fun runClosure :: "('db, 'e) TxEnv \<Rightarrow> 'e action list \<Rightarrow> closure_end \<Rightarrow> ('db, 'e) closure" where
  "runClosure env [] fin ctx w = Some (fin, w)"
| "runClosure env (Exec s # body) fin ctx w =
     (case exec env (Statement s) w of
        (True, w) \<Rightarrow> runClosure env body fin ctx w | (False, w) \<Rightarrow> Some (ReturnsError, w))"
| "runClosure env (Dispatch entry # body) fin ctx w =
     runClosure env body fin ctx (dispatchBuffered ctx entry w)"
| "runClosure env (Register phase cb # body) fin ctx w =
     (case lookupTxCallbacks ctx w of
        None \<Rightarrow> Some (ReturnsError, w)
      | Some c \<Rightarrow> runClosure env body fin ctx (w\<lparr>w_callbacks := Some (register (phase, cb) c)\<rparr>))"
| "runClosure env (Enqueue t # body) fin ctx w =
     (case EnqueueAfterCommit t (if tx_queue ctx then w_queue w else None) of
        (True, q) \<Rightarrow> runClosure env body fin ctx (w\<lparr>w_queue := q\<rparr>)
      | (False, _) \<Rightarrow> runClosure env body fin ctx (emit [RanTask (task_id t)] w))"
| "runClosure env (Nested inner innerEnd carryOn # body) fin ctx w =
     (case Transaction env ctx (\<lambda>ctx w. runClosure env inner innerEnd ctx w) w of
        None \<Rightarrow> None
      | Some (Done, w) \<Rightarrow> runClosure env body fin ctx w
      | Some (Failed _, w) \<Rightarrow> if carryOn then runClosure env body fin ctx w else Some (ReturnsError, w)
      | Some (Panicked, w) \<Rightarrow> Some (Panics, w))"

end
