(* ===== verification/Tx_Props.thy ===== *)
theory Tx_Props
  imports Tx_Manager
begin

text \<open>
  A reference semantics of nested transactions, in which every scope collects what it holds
  back and a scope that is rolled back gives up its events and tasks, and the proof that the
  shared buffer, callback list and task queue with their baselines implement it.
\<close>

subsection \<open>The reference semantics\<close>

record 'e held =
  h_events :: "'e BufferedEvent list"
  h_tasks :: "task list"
  h_regs :: "(tx_phase \<times> callback) list"

definition held_nothing :: "'e held" where
  "held_nothing = \<lparr>h_events = [], h_tasks = [], h_regs = []\<rparr>"

definition held_both :: "'e held \<Rightarrow> 'e held \<Rightarrow> 'e held" where
  "held_both a b = \<lparr>h_events = h_events a @ h_events b, h_tasks = h_tasks a @ h_tasks b, h_regs = h_regs a @ h_regs b\<rparr>"

definition regs_only :: "'e held \<Rightarrow> 'e held" where
  "regs_only a = a\<lparr>h_events := [], h_tasks := []\<rparr>"

definition undo :: "('db, 'e) TxEnv \<Rightarrow> nat \<Rightarrow> 'db \<Rightarrow> 'db" where
  "undo env sp db =
     (case te_exec env (RollbackToSavepoint sp) db of
        (False, db) \<Rightarrow> db | (True, db) \<Rightarrow> snd (te_exec env (ReleaseSavepoint sp) db))"

definition nested_scope ::
  "('db, 'e) TxEnv \<Rightarrow> (nat \<Rightarrow> 'db \<Rightarrow> closure_end \<times> 'e held \<times> nat \<times> 'db) \<Rightarrow> nat \<Rightarrow> 'db
     \<Rightarrow> closure_end \<times> 'e held \<times> nat \<times> 'db" where
  "nested_scope env run n db =
     (if \<not> te_live env db then (ReturnsError, held_nothing, n, db)
      else
        (case te_exec env (Savepoint (Suc n)) db of
           (False, db) \<Rightarrow> (ReturnsError, held_nothing, Suc n, db)
         | (True, db) \<Rightarrow>
             (case run (Suc n) db of
                (Returns, held, n', db) \<Rightarrow>
                  (case te_exec env (ReleaseSavepoint (Suc n)) db of
                     (True, db) \<Rightarrow> (Returns, held, n', db)
                   | (False, db) \<Rightarrow> (ReturnsError, regs_only held, n', db))
              | (fin, held, n', db) \<Rightarrow> (fin, regs_only held, n', undo env (Suc n) db))))"

fun scope :: "('db, 'e) TxEnv \<Rightarrow> 'e action list \<Rightarrow> closure_end \<Rightarrow> nat \<Rightarrow> 'db \<Rightarrow> closure_end \<times> 'e held \<times> nat \<times> 'db" where
  "scope env [] fin n db = (fin, held_nothing, n, db)"
| "scope env (Exec s # body) fin n db =
     (case te_exec env (Statement s) db of
        (True, db) \<Rightarrow> scope env body fin n db | (False, db) \<Rightarrow> (ReturnsError, held_nothing, n, db))"
| "scope env (Dispatch entry # body) fin n db =
     (case scope env body fin n db of
        (r, held, st) \<Rightarrow> (r, held_both (held_nothing\<lparr>h_events := [entry]\<rparr>) held, st))"
| "scope env (Register phase cb # body) fin n db =
     (case scope env body fin n db of
        (r, held, st) \<Rightarrow> (r, held_both (held_nothing\<lparr>h_regs := [(phase, cb)]\<rparr>) held, st))"
| "scope env (Enqueue t # body) fin n db =
     (case scope env body fin n db of
        (r, held, st) \<Rightarrow> (r, held_both (held_nothing\<lparr>h_tasks := [t]\<rparr>) held, st))"
| "scope env (Nested inner innerEnd carryOn # body) fin n db =
     (case nested_scope env (\<lambda>n db. scope env inner innerEnd n db) n db of
        (r, held, n, db) \<Rightarrow>
          if r = Panics \<or> r = ReturnsError \<and> \<not> carryOn then (r, held, n, db)
          else (case scope env body fin n db of (r, held', st) \<Rightarrow> (r, held_both held held', st)))"

subsection \<open>The implementation holds back what the reference collects\<close>

definition hold :: "'e held \<Rightarrow> ('db, 'e) world \<Rightarrow> ('db, 'e) world" where
  "hold held w =
     w\<lparr>w_buffer := map_option (\<lambda>b. b\<lparr>bd_events := bd_events b @ h_events held\<rparr>) (w_buffer w),
       w_callbacks := map_option (fold register (h_regs held)) (w_callbacks w),
       w_queue := map_option (\<lambda>q. q\<lparr>aq_tasks := aq_tasks q @ h_tasks held\<rparr>) (w_queue w)\<rparr>"

definition at :: "nat \<Rightarrow> 'db \<Rightarrow> 'e BufferedEvent tx_effect list \<Rightarrow> ('db, 'e) world \<Rightarrow> ('db, 'e) world" where
  "at n db out w = w\<lparr>w_savepoints := n, w_db := db, w_out := w_out w @ out\<rparr>"

fun bookkeeping :: "'e tx_effect \<Rightarrow> bool" where
  "bookkeeping (TransactionExecuted _) = True"
| "bookkeeping (TxRecover _) = True"
| "bookkeeping _ = False"

definition open_world :: "('db, 'e) world \<Rightarrow> bool" where
  "open_world w \<longleftrightarrow>
     (\<exists>b. w_buffer w = Some b \<and> \<not> bd_dropped b \<and> \<not> bd_flushed b) \<and>
     (\<exists>c. w_callbacks w = Some c \<and> \<not> terminated c) \<and>
     (\<exists>q. w_queue w = Some q \<and> aq_claimed q \<and> \<not> aq_finished q)"

definition inner_ctx :: "TxCtx \<Rightarrow> bool" where
  "inner_ctx ctx \<longleftrightarrow> tx_inside ctx \<and> tx_bufferHolder ctx \<and> tx_callbacksHolder ctx \<and> tx_queue ctx"

lemma terminated_register [simp]: "terminated (register reg c) = terminated c"
  by (auto simp: register_def OnCommit_def OnRollback_def OnCommitFailure_def terminated_def
      split: prod.splits tx_phase.splits)

lemma terminated_fold_register [simp]: "terminated (fold register regs c) = terminated c"
  by (induction regs arbitrary: c) auto

lemma open_hold [simp]: "open_world (at n db out (hold held w)) = open_world w"
  by (auto simp: open_world_def at_def hold_def)

lemma hold_nothing [simp]: "hold held_nothing w = w"
  by (simp add: hold_def held_nothing_def option.map_ident option.map_id id_def)

lemma hold_both: "hold (held_both a b) w = hold b (hold a w)"
  by (simp add: hold_def held_both_def map_option.compositionality comp_def)

lemma at_hold: "at n db out (hold held w) = hold held (at n db out w)"
  by (simp add: at_def hold_def)

lemma at_at [simp]: "at n db out (at n' db' out' w) = at n db (out' @ out) w"
  by (simp add: at_def)

lemma at_hold_fields [simp]:
  "w_db (at n db out w) = db" "w_savepoints (at n db out w) = n" "w_db (hold held w) = w_db w"
  "w_savepoints (hold held w) = w_savepoints w"
  by (simp_all add: at_def hold_def)

lemma at_same: "at (w_savepoints w) (w_db w) [] w = w"
  by (simp add: at_def)

lemma emit_at [simp]: "emit out' (at n db out w) = at n db (out @ out') w"
  by (simp add: emit_def at_def)

lemma at_set_db [simp]: "(at n db out w)\<lparr>w_db := db'\<rparr> = at n db' out w"
  by (simp add: at_def)

lemma releaseHolders_inner [simp]: "releaseHolders (ChildBuffer k) OuterCallbacks w = w"
  by (simp add: releaseHolders_def)

definition simulates ::
  "('db, 'e) closure \<Rightarrow> (nat \<Rightarrow> 'db \<Rightarrow> closure_end \<times> 'e held \<times> nat \<times> 'db) \<Rightarrow> TxCtx \<Rightarrow> ('db, 'e) world \<Rightarrow> bool" where
  "simulates fn run ctx w \<longleftrightarrow>
     (case run (w_savepoints w) (w_db w) of
        (e, held, n, db) \<Rightarrow>
          \<exists>out. list_all bookkeeping out \<and> fn ctx w = Some (e, at n db out (hold held w)))"

fun end_of :: "tx_result \<Rightarrow> closure_end" where
  "end_of Done = Returns"
| "end_of (Failed _) = ReturnsError"
| "end_of Panicked = Panics"

lemma drop_inner:
  assumes "w_buffer w = Some b" "w_queue w = Some q" "\<not> aq_finished q"
  shows "dropAfterCommit \<lparr>ah_baseline = length (aq_tasks q), ah_owner = False\<rparr>
      (dropBuffer (ChildBuffer (length (bd_events b))) (at n db out (hold held w))) =
    at n db out (hold (regs_only held) w)"
  using assms
  by (simp add: dropAfterCommit_def dropBuffer_def Drop_def TruncateToBaseline_def at_def hold_def regs_only_def)

lemma doRollback_inner:
  "\<exists>ok. doRollback env (Some sp) (at n db out w) = (ok, at n (undo env sp db) out w)"
  by (cases "te_exec env (RollbackToSavepoint sp) db"; cases "fst (te_exec env (RollbackToSavepoint sp) db)")
    (auto simp: doRollback_def exec_def undo_def at_def split: prod.splits)

lemma rollbackPath_inner:
  assumes "w_buffer w = Some b" "w_queue w = Some q" "\<not> aq_finished q"
  shows "\<exists>out'. list_all bookkeeping out' \<and>
    rollbackPath env (Some sp) (ChildBuffer (length (bd_events b))) OuterCallbacks
      \<lparr>ah_baseline = length (aq_tasks q), ah_owner = False\<rparr> cause (at n db out (hold held w)) =
    Some (at n (undo env sp db) (out @ out') (hold (regs_only held) w))"
proof -
  obtain ok where "doRollback env (Some sp) (at n db out (hold (regs_only held) w)) =
      (ok, at n (undo env sp db) out (hold (regs_only held) w))"
    using doRollback_inner[of env sp n db out "hold (regs_only held) w"] by blast
  then show ?thesis
    by (intro exI[of _ "(if ok then [] else [TxRecover cause]) @ [TransactionExecuted False]"])
      (simp add: rollbackPath_def drop_inner[OF assms] drainCallbacks_def)
qed

lemma install_inner:
  assumes "inner_ctx ctx" "open_world w"
  obtains b c q where
    "InstallBuffer ctx w = (ChildBuffer (length (bd_events b)), w)"
    "installTxCallbacks ctx w = (OuterCallbacks, w)"
    "installQueue ctx w = (\<lparr>ah_baseline = length (aq_tasks q), ah_owner = False\<rparr>, w)"
    "w_buffer w = Some b" "w_callbacks w = Some c" "w_queue w = Some q" "\<not> aq_finished q"
proof -
  obtain b c q where w: "w_buffer w = Some b" "w_callbacks w = Some c" "w_queue w = Some q"
    "aq_claimed q" "\<not> aq_finished q"
    using assms(2) by (auto simp: open_world_def)
  then have "w\<lparr>w_queue := Some q\<rparr> = w" by (cases w) simp
  with w assms(1) show thesis
    by (intro that[of b q c])
      (simp_all add: inner_ctx_def InstallBuffer_def installTxCallbacks_def installQueue_def
        InstallAfterCommitQueue_def)
qed

lemma runScope_inner:
  assumes ctx: "inner_ctx ctx" and w: "open_world w" and run: "simulates fn run ctx w"
  shows "\<exists>r out. list_all bookkeeping out \<and>
    (case run (w_savepoints w) (w_db w) of
       (Returns, held, n, db) \<Rightarrow>
         (case te_exec env (ReleaseSavepoint sp) db of
            (True, db) \<Rightarrow> r = Done \<and> runScope env (Some sp) ctx fn w = Some (r, at n db out (hold held w))
          | (False, db) \<Rightarrow> end_of r = ReturnsError \<and>
              runScope env (Some sp) ctx fn w = Some (r, at n db out (hold (regs_only held) w)))
     | (e, held, n, db) \<Rightarrow> end_of r = e \<and>
         runScope env (Some sp) ctx fn w = Some (r, at n (undo env sp db) out (hold (regs_only held) w)))"
proof -
  obtain b c q where inst:
    "InstallBuffer ctx w = (ChildBuffer (length (bd_events b)), w)"
    "installTxCallbacks ctx w = (OuterCallbacks, w)"
    "installQueue ctx w = (\<lparr>ah_baseline = length (aq_tasks q), ah_owner = False\<rparr>, w)"
    and held: "w_buffer w = Some b" "w_queue w = Some q" "\<not> aq_finished q"
    using install_inner[OF ctx w] by metis
  obtain e held n db where res: "run (w_savepoints w) (w_db w) = (e, held, n, db)" by (metis prod_cases4)
  then obtain out where out: "list_all bookkeeping out" "fn ctx w = Some (e, at n db out (hold held w))"
    using run by (auto simp: simulates_def)
  have same: "ctx\<lparr>tx_inside := True, tx_queue := True\<rparr> = ctx" using ctx by (cases ctx) (simp add: inner_ctx_def)
  note unfold = runScope_def inst prod.case same out(2) option.case
  show ?thesis
  proof (cases e)
    case Returns
    obtain ok db' where rel: "te_exec env (ReleaseSavepoint sp) db = (ok, db')" by force
    show ?thesis
    proof (cases ok)
      case True
      then show ?thesis
        by (intro exI[of _ Done] exI[of _ "out @ [TransactionExecuted True]"])
          (simp add: res Returns rel unfold doCommit_def exec_def out(1))
    next
      case False
      have drop: "dropAfterCommit \<lparr>ah_baseline = length (aq_tasks q), ah_owner = False\<rparr>
          (dropBuffer (ChildBuffer (length (bd_events b))) (at n db' out (hold held w))) =
          at n db' out (hold (regs_only held) w)" by (rule drop_inner[OF held])
      show ?thesis using False
        by (intro exI[of _ "Failed ErrCommit"] exI[of _ "out @ [TransactionExecuted False]"])
          (simp add: res Returns rel unfold doCommit_def exec_def out(1) drainCallbacks_def drop)
    qed
  next
    case ReturnsError
    obtain out' where "list_all bookkeeping out'" "rollbackPath env (Some sp) (ChildBuffer (length (bd_events b)))
        OuterCallbacks \<lparr>ah_baseline = length (aq_tasks q), ah_owner = False\<rparr> ErrorRollback (at n db out (hold held w)) =
        Some (at n (undo env sp db) (out @ out') (hold (regs_only held) w))"
      using rollbackPath_inner[OF held] by blast
    then show ?thesis
      by (intro exI[of _ "Failed ErrClosure"] exI[of _ "out @ out'"])
        (simp add: res ReturnsError unfold out(1))
  next
    case Panics
    obtain out' where "list_all bookkeeping out'" "rollbackPath env (Some sp) (ChildBuffer (length (bd_events b)))
        OuterCallbacks \<lparr>ah_baseline = length (aq_tasks q), ah_owner = False\<rparr> PanicRollback (at n db out (hold held w)) =
        Some (at n (undo env sp db) (out @ out') (hold (regs_only held) w))"
      using rollbackPath_inner[OF held] by blast
    then show ?thesis
      by (intro exI[of _ Panicked] exI[of _ "out @ out'"])
        (simp add: res Panics unfold out(1))
  qed
qed

lemma Transaction_inner:
  assumes ctx: "inner_ctx ctx" and w: "open_world w" and run: "\<And>w. open_world w \<Longrightarrow> simulates fn run ctx w"
  shows "\<exists>r out e held n db. nested_scope env run (w_savepoints w) (w_db w) = (e, held, n, db) \<and>
    list_all bookkeeping out \<and> end_of r = e \<and> Transaction env ctx fn w = Some (r, at n db out (hold held w))"
proof (cases "te_live env (w_db w)")
  case False
  then show ?thesis
    by (intro exI[of _ "Failed ErrManagerShutdown"] exI[of _ "[]"])
      (simp add: nested_scope_def Transaction_def at_same)
next
  case True
  let ?sp = "Suc (w_savepoints w)"
  obtain ok db where sp: "te_exec env (Savepoint ?sp) (w_db w) = (ok, db)" by force
  let ?w = "at ?sp db [] w"
  have enter: "Transaction env ctx fn w =
      (if ok then runScope env (Some ?sp) ctx fn ?w else Some (Failed ErrSavepoint, ?w))"
    using True ctx sp by (simp add: Transaction_def inner_ctx_def exec_def at_def Let_def)
  show ?thesis
  proof (cases ok)
    case False
    then show ?thesis
      by (intro exI[of _ "Failed ErrSavepoint"] exI[of _ "[]"]) (simp add: nested_scope_def True sp enter)
  next
    case True
    have open_w: "open_world ?w" using open_hold[of ?sp db "[]" held_nothing w] w by simp
    obtain e held n db' where res: "run ?sp db = (e, held, n, db')" by (metis prod_cases4)
    obtain ok' db'' where rel: "te_exec env (ReleaseSavepoint ?sp) db' = (ok', db'')" by force
    have swap: "at a d o' (hold h ?w) = at a d o' (hold h w)" for a d o' h
      by (simp add: at_hold)
    note inner = runScope_inner[OF ctx open_w run[OF open_w], of env ?sp]
    show ?thesis
      using inner True \<open>te_live env (w_db w)\<close>
      by (cases e; cases ok') (auto simp: nested_scope_def sp res rel enter swap)
  qed
qed

lemma simulates_step:
  assumes "fn ctx w = fn' ctx (at n db out (hold held w))" "list_all bookkeeping out"
    "simulates fn' run' ctx (at n db out (hold held w))"
    "run (w_savepoints w) (w_db w) = (case run' n db of (e, held', st) \<Rightarrow> (e, held_both held held', st))"
  shows "simulates fn run ctx w"
proof -
  obtain e held' n' db' where res: "run' n db = (e, held', n', db')" by (metis prod_cases4)
  with assms(3) obtain out' where "list_all bookkeeping out'"
    "fn' ctx (at n db out (hold held w)) = Some (e, at n' db' out' (hold held' (at n db out (hold held w))))"
    by (auto simp: simulates_def)
  with assms res show ?thesis
    by (auto simp: simulates_def hold_both at_hold intro!: exI[of _ "out @ out'"])
qed

lemma simulates_stop:
  assumes "fn ctx w = Some (e, at n db out (hold held w))" "list_all bookkeeping out"
    "run (w_savepoints w) (w_db w) = (e, held, n, db)"
  shows "simulates fn run ctx w"
  using assms by (auto simp: simulates_def)

lemma held_both_nothing [simp]: "held_both held_nothing held = held" "held_both held held_nothing = held"
  by (simp_all add: held_both_def held_nothing_def)

lemma runClosure_scope:
  "inner_ctx ctx \<Longrightarrow> open_world w \<Longrightarrow> simulates (runClosure env body fin) (scope env body fin) ctx w"
proof (induction body arbitrary: fin w rule: measure_induct_rule[of "size_list size"])
  case (less body)
  note ctx = less.prems(1)
  have IH: "simulates (runClosure env body' fin') (scope env body' fin') ctx w'"
    if "size_list size body' < size_list size body" "open_world w'" for body' fin' w'
    using less.IH[OF that(1) ctx that(2)] .
  have go: "open_world (at n db out (hold held w))" for n db out held
    using less.prems(2) by simp
  obtain b c q where w: "w_buffer w = Some b" "\<not> bd_dropped b" "\<not> bd_flushed b" "w_callbacks w = Some c"
    "w_queue w = Some q" "\<not> aq_finished q"
    using less.prems(2) by (auto simp: open_world_def)
  show ?case
  proof (cases body)
    case Nil
    then show ?thesis by (intro simulates_stop[where out = "[]" and held = held_nothing]) (simp_all add: at_same)
  next
    case (Cons act rest)
    have smaller: "size_list size rest < size_list size body" using Cons by simp
    show ?thesis
    proof (cases act)
      case (Exec s)
      obtain ok db where s: "te_exec env (Statement s) (w_db w) = (ok, db)" by force
      have upd: "w\<lparr>w_db := db\<rparr> = at (w_savepoints w) db [] (hold held_nothing w)" by (simp add: at_def)
      show ?thesis
      proof (cases ok)
        case True
        show ?thesis
          by (rule simulates_step[where out = "[]" and held = held_nothing, OF _ _ IH[OF smaller go]])
            (use True s upd in \<open>simp_all add: Cons Exec exec_def split: prod.splits\<close>)
      next
        case False
        then show ?thesis using s upd
          by (intro simulates_stop[where out = "[]" and held = held_nothing]) (simp_all add: Cons Exec exec_def)
      qed
    next
      case (Dispatch entry)
      have "dispatchBuffered ctx entry w =
          at (w_savepoints w) (w_db w) [] (hold (held_nothing\<lparr>h_events := [entry]\<rparr>) w)"
        using w ctx by (simp add: dispatchBuffered_def inner_ctx_def recordKind_def at_def hold_def held_nothing_def)
      then show ?thesis
        by (intro simulates_step[where out = "[]", OF _ _ IH[OF smaller go]]) (simp_all add: Cons Dispatch)
    next
      case (Register phase cb)
      have "w\<lparr>w_callbacks := Some (register (phase, cb) c)\<rparr> =
          at (w_savepoints w) (w_db w) [] (hold (held_nothing\<lparr>h_regs := [(phase, cb)]\<rparr>) w)"
        using w by (simp add: at_def hold_def held_nothing_def)
      then show ?thesis using w ctx
        by (intro simulates_step[where out = "[]", OF _ _ IH[OF smaller go]])
          (simp_all add: Cons Register lookupTxCallbacks_def inner_ctx_def)
    next
      case (Enqueue t)
      have "w\<lparr>w_queue := Some (q\<lparr>aq_tasks := aq_tasks q @ [t]\<rparr>)\<rparr> =
          at (w_savepoints w) (w_db w) [] (hold (held_nothing\<lparr>h_tasks := [t]\<rparr>) w)"
        using w by (simp add: at_def hold_def held_nothing_def)
      then show ?thesis using w ctx
        by (intro simulates_step[where out = "[]", OF _ _ IH[OF smaller go]])
          (simp_all add: Cons Enqueue EnqueueAfterCommit_def inner_ctx_def)
    next
      case (Nested inner innerEnd carryOn)
      have inner_smaller: "size_list size inner < size_list size body" using Cons Nested by simp
      obtain r out e held n db where nest:
        "nested_scope env (scope env inner innerEnd) (w_savepoints w) (w_db w) = (e, held, n, db)"
        "list_all bookkeeping out" "end_of r = e"
        "Transaction env ctx (runClosure env inner innerEnd) w = Some (r, at n db out (hold held w))"
        using Transaction_inner[OF ctx less.prems(2) IH[OF inner_smaller], of env] by blast
      show ?thesis
      proof (cases "e = Panics \<or> e = ReturnsError \<and> \<not> carryOn")
        case True
        then have "runClosure env body fin ctx w = Some (e, at n db out (hold held w))"
          using nest(3,4) by (cases r) (auto simp: Cons Nested)
        then show ?thesis using nest(2)
          by (rule simulates_stop) (use True nest(1) in \<open>simp add: Cons Nested\<close>)
      next
        case False
        then have "runClosure env body fin ctx w = runClosure env rest fin ctx (at n db out (hold held w))"
          using nest(3,4) by (cases r) (auto simp: Cons Nested)
        then show ?thesis
          by (rule simulates_step[OF _ nest(2) IH[OF smaller go]]) (use False nest(1) in \<open>auto simp: Cons Nested\<close>)
      qed
    qed
  qed
qed

subsection \<open>The outermost transaction\<close>

definition observed :: "'e tx_effect list \<Rightarrow> 'e tx_effect list" where
  "observed out = filter (\<lambda>x. \<not> bookkeeping x) out"

definition registered_for :: "tx_phase \<Rightarrow> (tx_phase \<times> callback) list \<Rightarrow> callback list" where
  "registered_for phase regs = map snd (filter (\<lambda>(p, _). p = phase) regs)"

lemma observed_simps [simp]:
  "observed [] = []" "observed (a @ b) = observed a @ observed b"
  "observed (x # a) = (if bookkeeping x then observed a else x # observed a)"
  "list_all bookkeeping out \<Longrightarrow> observed out = []"
  by (auto simp: observed_def list_all_iff filter_empty_conv)

lemma observed_delivered [simp]: "observed (map Delivered es) = map Delivered es"
  by (induction es) auto

lemma observed_tasks [simp]: "observed (map (\<lambda>t. RanTask (task_id t)) ts) = map (\<lambda>t. RanTask (task_id t)) ts"
  by (induction ts) auto

lemma observed_ran [simp]: "observed (ran_all phase fns) = map (\<lambda>fn. RanCallback phase (cb_id fn)) fns"
  by (induction fns) (auto simp: ran_all_def runCallbackSafe_def split: cb_end.splits)

lemma callbacks_of_fold:
  "\<not> terminated c \<Longrightarrow> callbacks_of phase (fold register regs c) = callbacks_of phase c @ registered_for phase regs"
proof (induction regs arbitrary: c)
  case Nil
  then show ?case by (simp add: registered_for_def)
next
  case (Cons reg regs)
  obtain p fn where reg: "reg = (p, fn)" by force
  have "callbacks_of phase (register reg c) = callbacks_of phase c @ (if p = phase then [fn] else [])"
    using Cons.prems
    by (cases p; cases phase) (auto simp: reg register_def OnCommit_def OnRollback_def OnCommitFailure_def)
  with Cons show ?case by (simp add: reg registered_for_def)
qed

lemmas registered_lists = callbacks_of_fold[of newTxCallbacks AfterCommit, simplified]
  callbacks_of_fold[of newTxCallbacks AfterRollback, simplified]
  callbacks_of_fold[of newTxCallbacks AfterCommitFailure, simplified]

lemma newTxCallbacks_simps [simp]:
  "\<not> terminated newTxCallbacks" "cbs_commit newTxCallbacks = []" "cbs_rollback newTxCallbacks = []"
  "cbs_commitFailure newTxCallbacks = []"
  by (simp_all add: newTxCallbacks_def terminated_def)

definition outer_ctx :: TxCtx where
  "outer_ctx = \<lparr>tx_inside = False, tx_bufferHolder = True, tx_callbacksHolder = True, tx_queue = False\<rparr>"

definition idle :: "('db, 'e) world \<Rightarrow> bool" where
  "idle w \<longleftrightarrow> w_buffer w = None \<and> w_callbacks w = None"

definition opened :: "'db \<Rightarrow> ('db, 'e) world \<Rightarrow> ('db, 'e) world" where
  "opened db w = w\<lparr>w_db := db, w_buffer := Some newBuffer, w_callbacks := Some newTxCallbacks,
     w_queue := Some \<lparr>aq_tasks = [], aq_claimed = True, aq_finished = False\<rparr>\<rparr>"

abbreviation owner_handle :: AfterCommitHandle where
  "owner_handle \<equiv> \<lparr>ah_baseline = 0, ah_owner = True\<rparr>"

definition outer_end ::
  "('db, 'e) TxEnv \<Rightarrow> closure_end \<Rightarrow> ('db, 'e) world \<Rightarrow> (tx_result \<times> ('db, 'e) world) option" where
  "outer_end env e w =
     (case e of
            Panics \<Rightarrow> map_option (Pair Panicked) (rollbackPath env None OwnBuffer OwnCallbacks owner_handle PanicRollback w)
          | ReturnsError \<Rightarrow>
              map_option (Pair (Failed ErrClosure)) (rollbackPath env None OwnBuffer OwnCallbacks owner_handle ErrorRollback w)
          | Returns \<Rightarrow>
              (case doCommit env None w of
                 (False, w) \<Rightarrow>
                   map_option (Pair (Failed ErrCommit))
                     (drainCallbacks runCommitFailure OwnCallbacks
                        (emit [TransactionExecuted False] (dropAfterCommit owner_handle (dropBuffer OwnBuffer w))))
               | (True, w) \<Rightarrow> commitPath env OwnBuffer OwnCallbacks owner_handle w))"

lemma Transaction_outer:
  assumes "idle w" "te_live env (w_db w)" "te_begin env (w_db w) = (True, db0)"
    and scope: "scope env body fin (w_savepoints w) db0 = (e, held, n, db)"
  obtains out where "list_all bookkeeping out"
    "Transaction env outer_ctx (runClosure env body fin) w =
       map_option (\<lambda>(r, w). (r, releaseHolders OwnBuffer OwnCallbacks w))
         (outer_end env e (at n db out (hold held (opened db0 w))))"
proof -
  let ?ctx = "\<lparr>tx_inside = True, tx_bufferHolder = True, tx_callbacksHolder = True, tx_queue = True\<rparr>"
  have "inner_ctx ?ctx" by (simp add: inner_ctx_def)
  moreover have "open_world (opened db0 w)" by (simp add: open_world_def opened_def newBuffer_def)
  ultimately have "simulates (runClosure env body fin) (scope env body fin) ?ctx (opened db0 w)"
    by (rule runClosure_scope)
  with scope obtain out where out: "list_all bookkeeping out"
    "runClosure env body fin ?ctx (opened db0 w) = Some (e, at n db out (hold held (opened db0 w)))"
    by (auto simp: simulates_def opened_def)
  have install: "InstallBuffer outer_ctx (w\<lparr>w_db := db0\<rparr>) = (OwnBuffer, w\<lparr>w_db := db0, w_buffer := Some newBuffer\<rparr>)"
    "installTxCallbacks outer_ctx (w\<lparr>w_db := db0, w_buffer := Some newBuffer\<rparr>) =
       (OwnCallbacks, w\<lparr>w_db := db0, w_buffer := Some newBuffer, w_callbacks := Some newTxCallbacks\<rparr>)"
    "installQueue outer_ctx (w\<lparr>w_db := db0, w_buffer := Some newBuffer, w_callbacks := Some newTxCallbacks\<rparr>) =
       (owner_handle, opened db0 w)"
    using assms(1)
    by (simp_all add: idle_def InstallBuffer_def installTxCallbacks_def installQueue_def outer_ctx_def
        InstallAfterCommitQueue_def opened_def)
  have ctx: "outer_ctx\<lparr>tx_inside := True, tx_queue := True\<rparr> = ?ctx" by (simp add: outer_ctx_def)
  have "Transaction env outer_ctx (runClosure env body fin) w = runScope env None outer_ctx (runClosure env body fin) (w\<lparr>w_db := db0\<rparr>)"
    using assms by (simp add: Transaction_def outer_ctx_def)
  also note runScope_def
  finally show thesis
    by (intro that[OF out(1)]) (simp only: install ctx out(2) prod.case option.case outer_end_def, cases e, simp_all split: prod.split bool.split)
qed

lemma flush_all:
  "\<forall>entry \<in> set es. deliver entry = DeliveryOk \<Longrightarrow> flushEntries deliver es = (DeliveryOk, [], map Delivered es)"
  by (induction es) auto

definition after_end :: "closure_end \<Rightarrow> bool \<Rightarrow> 'e held \<Rightarrow> 'e BufferedEvent tx_effect list" where
  "after_end e committed held =
     (if e \<noteq> Returns then
        map (\<lambda>fn. RanCallback AfterRollback (cb_id fn)) (registered_for AfterRollback (h_regs held))
      else if committed then
        map Delivered (h_events held) @ map (\<lambda>t. RanTask (task_id t)) (h_tasks held) @
        map (\<lambda>fn. RanCallback AfterCommit (cb_id fn)) (registered_for AfterCommit (h_regs held))
      else
        map (\<lambda>fn. RanCallback AfterCommitFailure (cb_id fn)) (registered_for AfterCommitFailure (h_regs held)))"

lemma w_out_emit [simp]: "w_out (emit out w) = w_out w @ out"
  by (simp add: emit_def)

lemma held_world:
  "w_buffer (at n db out (hold held (opened db0 w))) = Some (newBuffer\<lparr>bd_events := h_events held\<rparr>)"
  "w_callbacks (at n db out (hold held (opened db0 w))) = Some (fold register (h_regs held) newTxCallbacks)"
  "w_queue (at n db out (hold held (opened db0 w))) = Some \<lparr>aq_tasks = h_tasks held, aq_claimed = True, aq_finished = False\<rparr>"
  "w_out (at n db out (hold held (opened db0 w))) = w_out w @ out"
  by (simp_all add: at_def hold_def opened_def newBuffer_def)

lemma rollbackPath_outer:
  assumes "list_all bookkeeping out"
  shows "\<exists>w'. rollbackPath env None OwnBuffer OwnCallbacks owner_handle cause (at n db out (hold held (opened db0 w))) = Some w' \<and>
    observed (w_out w') = observed (w_out w) @ map (\<lambda>fn. RanCallback AfterRollback (cb_id fn)) (registered_for AfterRollback (h_regs held))"
proof -
  obtain ok db' where rb: "te_rollback env db = (ok, db')" by force
  show ?thesis using assms
    by (simp add: rollbackPath_def dropAfterCommit_def dropBuffer_def doRollback_def rb drainCallbacks_def
        held_world run_drains registered_lists Let_def) (simp add: emit_def held_world registered_lists run_drains)
qed

lemma commit_outer:
  assumes "list_all bookkeeping out" "\<forall>entry \<in> set (h_events held). te_deliver env entry = DeliveryOk"
  shows "\<exists>w'. commitPath env OwnBuffer OwnCallbacks owner_handle (at n db out (hold held (opened db0 w))) =
      Some (if list_ex task_fails (h_tasks held) then Failed ErrTask else Done, w') \<and>
    observed (w_out w') = observed (w_out w) @ after_end Returns True held"
proof -
  have flush: "flushBuffer env OwnBuffer (at n db out (hold held (opened db0 w))) =
      (DeliveryOk, emit (map Delivered (h_events held))
        ((at n db out (hold held (opened db0 w)))\<lparr>w_buffer := Some \<lparr>bd_events = [], bd_flushed = True, bd_dropped = False\<rparr>\<rparr>))"
    using assms(2) by (simp add: flushBuffer_def held_world Flush_def newBuffer_def flush_all)
  show ?thesis using assms(1) unfolding commitPath_def flush
    by (simp add: drainAfterCommit_def emit_def held_world FireAfterCommit_def drainCallbacks_def after_end_def
        registered_lists run_drains)
qed

lemma commit_failure_outer:
  assumes "list_all bookkeeping out"
  shows "\<exists>w'. drainCallbacks runCommitFailure OwnCallbacks (emit [TransactionExecuted False]
      (dropAfterCommit owner_handle (dropBuffer OwnBuffer (at n db out (hold held (opened db0 w)))))) = Some w' \<and>
    observed (w_out w') = observed (w_out w) @ after_end Returns False held"
  using assms
  by (simp add: dropAfterCommit_def dropBuffer_def drainCallbacks_def held_world after_end_def)
    (simp add: emit_def held_world registered_lists run_drains)

lemma observed_release [simp]: "w_out (releaseHolders hb hc w) = w_out w"
  "idle (releaseHolders OwnBuffer OwnCallbacks w)"
  by (simp_all add: releaseHolders_def idle_def)


definition demo_event :: "string \<Rightarrow> string BufferedEvent" where
  "demo_event name = \<lparr>be_event = name, be_kind = KindDispatch, be_delay = 0\<rparr>"

definition demo_env :: "(stmt list, string) TxEnv" where
  "demo_env = \<lparr>te_live = (\<lambda>_. True), te_begin = Pair True, te_exec = (\<lambda>s db. (True, db @ [s])),
     te_commit = Pair True, te_rollback = Pair True,
     te_deliver = (\<lambda>entry. if be_event entry = ''boom'' then DeliveryPanic else DeliveryOk)\<rparr>"

definition demo_world :: "(stmt list, string) world" where
  "demo_world = \<lparr>w_db = [], w_savepoints = 0, w_buffer = None, w_callbacks = None, w_queue = None, w_out = []\<rparr>"

definition demo_body :: "string action list" where
  "demo_body = [Exec 1, Dispatch (demo_event ''a''), Register AfterCommit (Callback 1 [] CbReturns),
     Nested [Dispatch (demo_event ''b''), Register AfterCommit (Callback 2 [] CbReturns)] ReturnsError True,
     Enqueue (Task 7 False)]"

lemmas demo_tx_defs = demo_body_def demo_env_def demo_world_def demo_event_def nested_scope_def undo_def held_both_def
  held_nothing_def regs_only_def after_end_def registered_for_def idle_def


lemma flush_panic:
  "\<forall>entry \<in> set es. deliver entry = DeliveryOk \<Longrightarrow> deliver x = DeliveryPanic \<Longrightarrow>
    flushEntries deliver (es @ x # rest) = (DeliveryPanic, [], map Delivered es @ [DeliveryFailed x])"
  by (induction es) auto

text \<open>C33: when the transaction has committed and the delivery of one of its events panics, the
  panic reaches the caller, the events before it have been delivered, and the rollback
  callbacks run, although the data is committed; the commit callbacks and the after-commit tasks
  do not run.\<close>

theorem Transaction_panicking_delivery:
  assumes "idle w" "te_live env (w_db w)" "te_begin env (w_db w) = (True, db0)"
    and scope: "scope env body fin (w_savepoints w) db0 = (Returns, held, n, db)"
    and commit: "te_commit env db = (True, db')"
    and events: "h_events held = es @ x # rest" "\<forall>entry \<in> set es. te_deliver env entry = DeliveryOk"
      "te_deliver env x = DeliveryPanic"
  shows "\<exists>w'. Transaction env outer_ctx (runClosure env body fin) w = Some (Panicked, w') \<and>
    observed (w_out w') = observed (w_out w) @ map Delivered es @
      DeliveryFailed x # map (\<lambda>fn. RanCallback AfterRollback (cb_id fn)) (registered_for AfterRollback (h_regs held))"
proof -
  obtain out where out: "list_all bookkeeping out" and run: "Transaction env outer_ctx (runClosure env body fin) w =
       map_option (\<lambda>(r, w). (r, releaseHolders OwnBuffer OwnCallbacks w))
         (outer_end env Returns (at n db out (hold held (opened db0 w))))"
    using Transaction_outer[OF assms(1-4)] by blast
  have ended: "outer_end env Returns (at n db out (hold held (opened db0 w))) =
      commitPath env OwnBuffer OwnCallbacks owner_handle (at n db' out (hold held (opened db0 w)))"
    by (simp add: outer_end_def doCommit_def commit)
  obtain ok db'' where rb: "te_rollback env db' = (ok, db'')" by force
  have flush: "flushBuffer env OwnBuffer (at n db' out (hold held (opened db0 w))) =
      (DeliveryPanic, emit (map Delivered es @ [DeliveryFailed x])
        ((at n db' out (hold held (opened db0 w)))\<lparr>w_buffer := Some \<lparr>bd_events = [], bd_flushed = True, bd_dropped = False\<rparr>\<rparr>))"
    using events by (simp add: flushBuffer_def held_world Flush_def newBuffer_def flush_panic)
  show ?thesis using out unfolding run ended commitPath_def flush
    by (simp add: emit_def rollbackPath_def dropAfterCommit_def dropBuffer_def doRollback_def rb drainCallbacks_def
        held_world run_drains registered_lists Let_def)
qed

theorem Transaction_panicking_delivery_witness:
  "\<exists>w'. Transaction demo_env outer_ctx (runClosure demo_env
       [Dispatch (demo_event ''boom''), Register AfterRollback (Callback 3 [] CbReturns)] Returns) demo_world = Some (Panicked, w') \<and>
     observed (w_out w') = [DeliveryFailed (demo_event ''boom''), RanCallback AfterRollback 3]"
proof -
  obtain e held n db where s: "scope demo_env [Dispatch (demo_event ''boom''), Register AfterRollback (Callback 3 [] CbReturns)]
      Returns (w_savepoints demo_world) [] = (e, held, n, db)"
    by (metis prod_cases4)
  then have parts: "e = Returns" "h_events held = [] @ demo_event ''boom'' # []"
    "h_regs held = [(AfterRollback, Callback 3 [] CbReturns)]"
    by (auto simp: demo_tx_defs)
  have pre: "idle demo_world" "te_live demo_env (w_db demo_world)" "te_begin demo_env (w_db demo_world) = (True, [])"
    "te_commit demo_env db = (True, db)" "te_deliver demo_env (demo_event ''boom'') = DeliveryPanic"
    by (simp_all add: demo_tx_defs)
  show ?thesis
    using Transaction_panicking_delivery[OF pre(1-3) s[unfolded parts(1)] pre(4) parts(2) _ pre(5)]
    by (simp add: parts demo_world_def registered_for_def)
qed

end
