(* ===== verification/Go_Strconv.thy ===== *)
theory Go_Strconv
  imports Go_Strings
begin

text \<open>
  What the modelled code uses of Go's \<open>strconv\<close> and \<open>encoding/hex\<close>: decimal
  integers of 64 bits, and hexadecimal byte strings, with their round trips.
\<close>

subsection \<open>Decimal integers\<close>

definition digit_char :: "nat \<Rightarrow> char" where
  "digit_char n = char_at (48 + n)"

definition digit_value :: "char \<Rightarrow> nat option" where
  "digit_value c = (let n = byte_of c in if 48 \<le> n \<and> n \<le> 57 then Some (n - 48) else None)"

fun decimal :: "nat \<Rightarrow> string" where
  "decimal n = (if n < 10 then [digit_char n] else decimal (n div 10) @ [digit_char (n mod 10)])"

declare decimal.simps [simp del]

definition FormatInt :: "int \<Rightarrow> string" where
  "FormatInt i = (if i < 0 then CHR ''-'' # decimal (nat (- i)) else decimal (nat i))"

fun scan_decimal :: "nat \<Rightarrow> string \<Rightarrow> nat option" where
  "scan_decimal acc [] = Some acc"
| "scan_decimal acc (c # s) =
     (case digit_value c of None \<Rightarrow> None | Some d \<Rightarrow> scan_decimal (acc * 10 + d) s)"

definition parse_digits :: "string \<Rightarrow> nat option" where
  "parse_digits s = (if s = [] then None else scan_decimal 0 s)"

text \<open>\<open>strconv.ParseInt(s, 10, 64)\<close>; \<^const>\<open>None\<close> is its error, for a syntax that is not
  a decimal number and for a number that does not fit.\<close>

definition ParseInt :: "string \<Rightarrow> int option" where
  "ParseInt s =
     (case s of
        [] \<Rightarrow> None
      | c # t \<Rightarrow>
          let neg = (c = CHR ''-''); digits = (if c = CHR ''-'' \<or> c = CHR ''+'' then t else s) in
          (case parse_digits digits of
             None \<Rightarrow> None
           | Some n \<Rightarrow>
               if neg then (if n \<le> 2 ^ 63 then Some (- int n) else None)
               else (if n < 2 ^ 63 then Some (int n) else None)))"

lemma digit_value_char [simp]: "n < 10 \<Longrightarrow> digit_value (digit_char n) = Some n"
  by (simp add: digit_value_def digit_char_def)

lemma scan_decimal_append:
  "scan_decimal acc (s @ t) = (case scan_decimal acc s of None \<Rightarrow> None | Some n \<Rightarrow> scan_decimal n t)"
  by (induction s arbitrary: acc) (auto split: option.splits)

lemma scan_decimal_decimal: "scan_decimal 0 (decimal n) = Some n"
proof (induction n rule: decimal.induct)
  case (1 n)
  then show ?case
    by (subst decimal.simps) (auto simp: scan_decimal_append)
qed

lemma decimal_nonempty [simp]: "decimal n \<noteq> []"
  by (subst decimal.simps) simp

lemma decimal_bytes: "c \<in> set (decimal n) \<Longrightarrow> 48 \<le> byte_of c \<and> byte_of c \<le> 57"
proof (induction n rule: decimal.induct)
  case (1 n)
  show ?case
  proof (cases "n < 10")
    case True
    then show ?thesis using "1.prems" by (subst (asm) decimal.simps) (auto simp: digit_char_def)
  next
    case False
    then have "c \<in> set (decimal (n div 10)) \<or> c = digit_char (n mod 10)"
      using "1.prems" by (subst (asm) decimal.simps) auto
    then show ?thesis using "1.IH" False by (auto simp: digit_char_def)
  qed
qed

lemma parse_digits_decimal: "parse_digits (decimal n) = Some n"
  by (simp add: parse_digits_def scan_decimal_decimal)

lemma ParseInt_FormatInt:
  assumes "- (2 ^ 63) \<le> i" "i < 2 ^ 63"
  shows "ParseInt (FormatInt i) = Some i"
proof (cases "i < 0")
  case True
  have "nat (- i) \<le> 2 ^ 63" using assms by (simp add: nat_le_iff)
  with True show ?thesis by (simp add: FormatInt_def ParseInt_def parse_digits_decimal)
next
  case False
  obtain c t where ct: "decimal (nat i) = c # t" by (cases "decimal (nat i)") auto
  have "48 \<le> byte_of c" using decimal_bytes[of c "nat i"] ct by simp
  then have "c \<noteq> CHR ''-''" "c \<noteq> CHR ''+''" by (auto simp: byte_of_def)
  moreover have "nat i < 2 ^ 63" using assms False by (simp add: nat_less_iff)
  ultimately show ?thesis
    using False parse_digits_decimal[of "nat i"] by (simp add: FormatInt_def ParseInt_def ct)
qed

lemma FormatInt_bytes: "c \<in> set (FormatInt i) \<Longrightarrow> byte_of c = 45 \<or> 48 \<le> byte_of c \<and> byte_of c \<le> 57"
  using decimal_bytes[of c "nat i"] decimal_bytes[of c "nat (- i)"]
  by (auto simp: FormatInt_def byte_of_def split: if_splits)

lemma FormatInt_nonempty [simp]: "FormatInt i \<noteq> []"
  by (simp add: FormatInt_def)

subsection \<open>Hexadecimal\<close>

definition lowerhex :: "nat \<Rightarrow> char" where
  "lowerhex n = (if n < 10 then char_at (48 + n) else char_at (87 + n))"

definition EncodeToString :: "string \<Rightarrow> string" where
  "EncodeToString bs = concat (map (\<lambda>b. [lowerhex (byte_of b div 16), lowerhex (byte_of b mod 16)]) bs)"

fun DecodeString :: "string \<Rightarrow> string option" where
  "DecodeString [] = Some []"
| "DecodeString [c] = None"
| "DecodeString (a # b # s) =
     (case (unhex a, unhex b) of
        (Some hi, Some lo) \<Rightarrow> map_option (\<lambda>r. char_at (16 * hi + lo) # r) (DecodeString s)
      | _ \<Rightarrow> None)"

definition ToUpper_char :: "char \<Rightarrow> char" where
  "ToUpper_char c =
     (if 97 \<le> (of_char c :: nat) \<and> (of_char c :: nat) \<le> 122 then char_of ((of_char c :: nat) - 32) else c)"

definition ToUpper :: "string \<Rightarrow> string" where
  "ToUpper s = map ToUpper_char s"

lemma unhex_lowerhex [simp]: "n < 16 \<Longrightarrow> unhex (lowerhex n) = Some n"
  by (auto simp: unhex_def lowerhex_def Let_def)

lemma byte_div_less [simp]: "byte_of c div 16 < 16"
  using byte_of_less[of c] by linarith

lemma lowerhex_bytes:
  assumes "n < 16"
  shows "48 \<le> byte_of (lowerhex n) \<and> byte_of (lowerhex n) \<le> 57 \<or> 97 \<le> byte_of (lowerhex n) \<and> byte_of (lowerhex n) \<le> 102"
  using assms by (cases "n < 10") (simp_all add: lowerhex_def)

lemma EncodeToString_bytes:
  "c \<in> set (EncodeToString bs) \<Longrightarrow> 48 \<le> byte_of c \<and> byte_of c \<le> 57 \<or> 97 \<le> byte_of c \<and> byte_of c \<le> 102"
proof (induction bs)
  case (Cons b bs)
  then have "c \<in> set (EncodeToString bs) \<or> c = lowerhex (byte_of b div 16) \<or> c = lowerhex (byte_of b mod 16)"
    by (auto simp: EncodeToString_def)
  then show ?case
    using Cons.IH lowerhex_bytes[of "byte_of b div 16"] lowerhex_bytes[of "byte_of b mod 16"] by auto
qed (simp add: EncodeToString_def)

lemma length_EncodeToString [simp]: "length (EncodeToString bs) = 2 * length bs"
  by (induction bs) (auto simp: EncodeToString_def)

lemma DecodeString_EncodeToString [simp]: "DecodeString (EncodeToString bs) = Some bs"
proof (induction bs)
  case (Cons b bs)
  have "16 * (byte_of b div 16) + byte_of b mod 16 = byte_of b" by simp
  with Cons show ?case by (simp add: EncodeToString_def)
qed (simp add: EncodeToString_def)

lemma unhex_ToUpper_char: "unhex c \<noteq> None \<Longrightarrow> unhex (ToUpper_char c) = unhex c"
  by (auto simp: unhex_def ToUpper_char_def byte_of_def Let_def of_char_of split: if_splits)

lemma DecodeString_ToUpper: "DecodeString s = Some bs \<Longrightarrow> DecodeString (ToUpper s) = Some bs"
  by (induction s arbitrary: bs rule: DecodeString.induct)
    (auto simp: ToUpper_def unhex_ToUpper_char split: option.splits)

end
