(* ===== verification/Go_Time.thy ===== *)
theory Go_Time
  imports Prelude
begin

text \<open>
  What the components use of Go's package \<open>time\<close>: 64-bit seconds that wrap, and the wall clock of a
  location. An instant is a number of nanoseconds since the Unix epoch. A location is the function
  that gives, at each instant, the offset of the local clock from UTC in seconds; the time zone
  database that holds these functions is not part of the program, so a location is a parameter.
  The Gregorian date of a day is computed as Go computes it, by cycles of 400, 100, 4 and 1 years.
\<close>

definition wrap64 :: "int \<Rightarrow> int" where
  "wrap64 i = (i + 2 ^ 63) mod 2 ^ 64 - 2 ^ 63"

definition second :: duration where
  "second = 1000000000"

definition minute :: duration where
  "minute = 60 * second"

lemma wrap64_id: "- (2 ^ 63) \<le> i \<Longrightarrow> i < 2 ^ 63 \<Longrightarrow> wrap64 i = i"
  by (simp add: wrap64_def)

lemma minute_pos [simp]: "0 < minute" "minute \<noteq> 0"
  by (simp_all add: minute_def second_def)

subsection \<open>Dates\<close>

definition is_leap :: "int \<Rightarrow> bool" where
  "is_leap y \<longleftrightarrow> y mod 4 = 0 \<and> (y mod 100 \<noteq> 0 \<or> y mod 400 = 0)"

definition month_lengths :: "int \<Rightarrow> int list" where
  "month_lengths y = [31, if is_leap y then 29 else 28, 31, 30, 31, 30, 31, 31, 30, 31, 30, 31]"

text \<open>Days are counted from the first of January of the year 1.\<close>

definition year_and_yday :: "int \<Rightarrow> int \<times> int" where
  "year_and_yday d =
     (let a = d div 146097; d = d mod 146097;
          b = min 3 (d div 36524); d = d - 36524 * b;
          c = d div 1461; d = d mod 1461;
          e = min 3 (d div 365)
      in (400 * a + 100 * b + 4 * c + e + 1, d - 365 * e))"

fun month_and_day :: "int \<Rightarrow> int list \<Rightarrow> int \<Rightarrow> int \<times> int" where
  "month_and_day m [] d = (m, d + 1)"
| "month_and_day m [_] d = (m, d + 1)"
| "month_and_day m (l # ls) d = (if d < l then (m, d + 1) else month_and_day (m + 1) ls (d - l))"

record wall =
  w_Year :: int
  w_Month :: int
  w_Day :: int
  w_Weekday :: int
  w_Hour :: int
  w_Minute :: int

definition wall_of_seconds :: "int \<Rightarrow> wall" where
  "wall_of_seconds s =
     (let d = s div 86400 + 719162; (y, yday) = year_and_yday d; (m, day) = month_and_day 1 (month_lengths y) yday
      in \<lparr>w_Year = y, w_Month = m, w_Day = day, w_Weekday = (d + 1) mod 7,
          w_Hour = s mod 86400 div 3600, w_Minute = s mod 3600 div 60\<rparr>)"

type_synonym location = "instant \<Rightarrow> int"

definition wall_clock :: "location \<Rightarrow> instant \<Rightarrow> wall" where
  "wall_clock loc t = wall_of_seconds (t div second + loc t)"

definition UTC :: location where
  "UTC t = 0"

subsection \<open>The dates are those of the Gregorian calendar\<close>

definition days_before_year :: "int \<Rightarrow> int" where
  "days_before_year y = 365 * (y - 1) + (y - 1) div 4 - (y - 1) div 100 + (y - 1) div 400"

definition day_number :: "int \<Rightarrow> int \<Rightarrow> int \<Rightarrow> int" where
  "day_number y m day = days_before_year y + sum_list (take (nat (m - 1)) (month_lengths y)) + (day - 1)"

lemma mod_zero_iff:
  fixes k q r :: int
  assumes "0 < r" "r \<le> k"
  shows "(k * q + r) mod k = 0 \<longleftrightarrow> r = k"
proof (cases "r = k")
  case False
  then have "(k * q + r) mod k = r" using assms by (simp add: mod_pos_pos_trivial)
  with False assms show ?thesis by simp
qed simp

lemma cycles:
  fixes a b c e :: int
  assumes "0 \<le> b" "b \<le> 3" "0 \<le> c" "c \<le> 24" "0 \<le> e" "e \<le> 3"
  shows "days_before_year (400 * a + 100 * b + 4 * c + e + 1) = 146097 * a + 36524 * b + 1461 * c + 365 * e"
    "is_leap (400 * a + 100 * b + 4 * c + e + 1) \<longleftrightarrow> e = 3 \<and> (c < 24 \<or> b = 3)"
proof -
  define y where "y = 400 * a + 100 * b + 4 * c + e"
  have y4: "y = 4 * (100 * a + 25 * b + c) + e" and y100: "y = 100 * (4 * a + b) + (4 * c + e)"
    and y400: "y = 400 * a + (100 * b + 4 * c + e)" by (simp_all add: y_def)
  have "y div 4 = 100 * a + 25 * b + c" by (rule int_div_pos_eq[OF y4]) (use assms in simp_all)
  moreover have "y div 100 = 4 * a + b" by (rule int_div_pos_eq[OF y100]) (use assms in simp_all)
  moreover have "y div 400 = a" by (rule int_div_pos_eq[OF y400]) (use assms in simp_all)
  ultimately show "days_before_year (400 * a + 100 * b + 4 * c + e + 1) = 146097 * a + 36524 * b + 1461 * c + 365 * e"
    unfolding y_def[symmetric] by (simp add: days_before_year_def y_def)
  have "(y + 1) mod 4 = 0 \<longleftrightarrow> e + 1 = 4"
    using mod_zero_iff[of "e + 1" 4 "100 * a + 25 * b + c"] assms unfolding y4 by (simp add: add.assoc)
  moreover have "(y + 1) mod 100 = 0 \<longleftrightarrow> 4 * c + e + 1 = 100"
    using mod_zero_iff[of "4 * c + e + 1" 100 "4 * a + b"] assms unfolding y100 by (simp add: add.assoc)
  moreover have "(y + 1) mod 400 = 0 \<longleftrightarrow> 100 * b + 4 * c + e + 1 = 400"
    using mod_zero_iff[of "100 * b + 4 * c + e + 1" 400 a] assms unfolding y400 by (simp add: add.assoc)
  ultimately show "is_leap (400 * a + 100 * b + 4 * c + e + 1) \<longleftrightarrow> e = 3 \<and> (c < 24 \<or> b = 3)"
    unfolding y_def[symmetric] is_leap_def using assms by auto
qed

lemma cycle_split:
  fixes r k :: int
  assumes "0 \<le> r" "0 < k"
  shows "0 \<le> r div k" "k * (r div k) \<le> r" "r < k * (r div k) + k" "r = k * (r div k) + r mod k" "0 \<le> r mod k" "r mod k < k"
proof -
  show eq: "r = k * (r div k) + r mod k" by simp
  show "0 \<le> r div k" "0 \<le> r mod k" "r mod k < k" using assms by (simp_all add: pos_imp_zdiv_nonneg_iff)
  with eq show "k * (r div k) \<le> r" "r < k * (r div k) + k" by linarith+
qed

lemma capped_split:
  fixes r k q :: int
  assumes "0 \<le> r" "0 < k" "b = min 3 (r div k)"
  shows "0 \<le> b" "b \<le> 3" "0 \<le> r - k * b" "b < 3 \<Longrightarrow> r - k * b < k"
proof -
  note split = cycle_split[OF assms(1,2)]
  show "0 \<le> b" "b \<le> 3" using split(1) assms(3) by simp_all
  show "0 \<le> r - k * b" using split(2) mult_left_mono[of b "r div k" k] assms(2,3) by linarith
  show "r - k * b < k" if "b < 3" using that split(3) assms(3) by (simp add: min_def split: if_splits)
qed

lemma year_and_yday_correct:
  assumes "year_and_yday d = (y, yday)"
  shows "days_before_year y + yday = d" "0 \<le> yday" "yday < (if is_leap y then 366 else 365)"
proof -
  define a where "a = d div 146097"
  define r where "r = d mod 146097"
  define b where "b = min 3 (r div 36524)"
  define r' where "r' = r - 36524 * b"
  define c where "c = r' div 1461"
  define r'' where "r'' = r' mod 1461"
  define e where "e = min 3 (r'' div 365)"
  have "year_and_yday d = (400 * a + 100 * b + 4 * c + e + 1, r'' - 365 * e)"
    unfolding year_and_yday_def Let_def e_def r''_def c_def r'_def b_def r_def a_def by (rule refl)
  then have y: "y = 400 * a + 100 * b + 4 * c + e + 1" and yday: "yday = r'' - 365 * e"
    using assms by (simp_all only: prod.inject)
  have r: "0 \<le> r" "r < 146097" "d = 146097 * a + r" by (simp_all add: r_def a_def)
  have k: "0 < (36524 :: int)" "0 < (1461 :: int)" "0 < (365 :: int)" by simp_all
  have b: "0 \<le> b" "b \<le> 3" "0 \<le> r'" "b < 3 \<Longrightarrow> r' < 36524"
    unfolding r'_def by (fact capped_split[OF r(1) k(1) b_def])+
  have b': "r' \<le> 36524"
  proof (cases "b < 3")
    case False
    then have "b = 3" using b(2) by linarith
    then show ?thesis using r(2) unfolding r'_def by linarith
  qed (use b(4) in linarith)
  have c: "0 \<le> c" "0 \<le> r''" "r'' < 1461" "r' = 1461 * c + r''"
    unfolding c_def r''_def by (fact cycle_split[OF b(3) k(2)])+
  then have c': "c \<le> 24" "c = 24 \<Longrightarrow> b < 3 \<Longrightarrow> r'' < 1460" using b' b(4) by linarith+
  have e: "0 \<le> e" "e \<le> 3" "0 \<le> yday" "e < 3 \<Longrightarrow> yday < 365"
    unfolding yday by (fact capped_split[OF c(2) k(3) e_def])+
  have e': "yday < 366" "r'' < 1460 \<Longrightarrow> yday < 365"
  proof -
    have "e < 3 \<or> yday = r'' - 1095" using e(2) unfolding yday by linarith
    then show "yday < 366" "r'' < 1460 \<Longrightarrow> yday < 365" using e(4) c(3) by linarith+
  qed
  note cyc = cycles[OF b(1,2) c(1) c'(1) e(1,2), of a]
  show "days_before_year y + yday = d"
    unfolding y cyc(1) yday using r(3) c(4) r'_def by simp
  show "0 \<le> yday" by (rule e(3))
  show "yday < (if is_leap y then 366 else 365)"
  proof (cases "is_leap y")
    case False
    then consider "e < 3" | "c = 24" "b < 3" using cyc(2) c'(1) b(2) e(2) unfolding y by linarith
    then have "yday < 365" by cases (use e(4) e'(2) c'(2) in blast)+
    with False show ?thesis by simp
  qed (use e'(1) in simp)
qed

lemma month_and_day_correct:
  assumes "ls \<noteq> []" "0 \<le> d" "d < sum_list ls" "month_and_day m ls d = (m', day)" "\<forall>l \<in> set ls. l \<le> 31"
  shows "m \<le> m'" "m' < m + int (length ls)" "1 \<le> day" "day \<le> 31"
    "sum_list (take (nat (m' - m)) ls) + (day - 1) = d" "day \<le> ls ! nat (m' - m)"
proof -
  have "m \<le> m' \<and> m' < m + int (length ls) \<and> 1 \<le> day \<and> day \<le> 31 \<and>
    sum_list (take (nat (m' - m)) ls) + (day - 1) = d \<and> day \<le> ls ! nat (m' - m)"
    using assms
  proof (induction m ls d arbitrary: m' day rule: month_and_day.induct)
    case (3 m l k ls d)
    show ?case
    proof (cases "d < l")
      case False
      then have IH: "m + 1 \<le> m' \<and> m' < m + 1 + int (length (k # ls)) \<and> 1 \<le> day \<and> day \<le> 31 \<and>
          sum_list (take (nat (m' - (m + 1))) (k # ls)) + (day - 1) = d - l \<and> day \<le> (k # ls) ! nat (m' - (m + 1))"
        using 3(1)[of m' day] 3(3-) by simp
      then have "nat (m' - m) = Suc (nat (m' - (m + 1)))" by linarith
      with IH show ?thesis by simp
    qed (use 3 in auto)
  qed auto
  then show "m \<le> m'" "m' < m + int (length ls)" "1 \<le> day" "day \<le> 31"
    "sum_list (take (nat (m' - m)) ls) + (day - 1) = d" "day \<le> ls ! nat (m' - m)" by blast+
qed

text \<open>The wall clock shows a date of the Gregorian calendar, and the day it shows is the day of the instant.\<close>

lemma wall_of_seconds_correct:
  assumes "w = wall_of_seconds s"
  shows "w_Month w \<in> {1..12}" "w_Day w \<in> {1..31}" "w_Day w \<le> month_lengths (w_Year w) ! nat (w_Month w - 1)"
    "day_number (w_Year w) (w_Month w) (w_Day w) = s div 86400 + 719162"
proof -
  obtain y yday where y: "year_and_yday (s div 86400 + 719162) = (y, yday)" by force
  obtain m day where m: "month_and_day 1 (month_lengths y) yday = (m, day)" by force
  have w: "w_Year w = y" "w_Month w = m" "w_Day w = day" using y m assms by (simp_all add: wall_of_seconds_def Let_def)
  have ls: "month_lengths y \<noteq> []" "length (month_lengths y) = 12" "\<forall>l \<in> set (month_lengths y). l \<le> 31"
    "sum_list (month_lengths y) = (if is_leap y then 366 else 365)" by (simp_all add: month_lengths_def)
  note correct = month_and_day_correct[OF ls(1) year_and_yday_correct(2)[OF y] _ m ls(3)]
  have less: "yday < sum_list (month_lengths y)" using year_and_yday_correct(3)[OF y] ls(4) by simp
  show "w_Month w \<in> {1..12}" "w_Day w \<in> {1..31}" "w_Day w \<le> month_lengths (w_Year w) ! nat (w_Month w - 1)"
    using correct[OF less] ls(2) unfolding w by simp_all
  show "day_number (w_Year w) (w_Month w) (w_Day w) = s div 86400 + 719162"
    using correct(5)[OF less] year_and_yday_correct(1)[OF y] unfolding w day_number_def by simp
qed

lemma wall_clock_ranges:
  "w_Month (wall_clock loc t) \<in> {1..12}" "w_Day (wall_clock loc t) \<in> {1..31}"
  "w_Weekday (wall_clock loc t) \<in> {0..6}" "w_Hour (wall_clock loc t) \<in> {0..23}" "w_Minute (wall_clock loc t) \<in> {0..59}"
proof -
  let ?s = "t div second + loc t"
  show "w_Month (wall_clock loc t) \<in> {1..12}" "w_Day (wall_clock loc t) \<in> {1..31}"
    using wall_of_seconds_correct[OF refl, of ?s] by (simp_all add: wall_clock_def)
  have part: "0 \<le> x mod n div k" "x mod n div k \<le> n div k - 1" if "0 < k" "0 < n" "k dvd n" for x n k :: int
  proof -
    have x: "0 \<le> x mod n" "x mod n < n" using that by simp_all
    then show "0 \<le> x mod n div k" using that(1) cycle_split(1) by blast
    have "x mod n < k * (n div k)" using x(2) that(3) by simp
    then have "k * (x mod n div k) < k * (n div k)" using cycle_split(2)[OF x(1) that(1)] by linarith
    then show "x mod n div k \<le> n div k - 1" using that(1) by simp
  qed
  have fields: "w_Hour (wall_clock loc t) = ?s mod 86400 div 3600" "w_Minute (wall_clock loc t) = ?s mod 3600 div 60"
    "w_Weekday (wall_clock loc t) = (?s div 86400 + 719162 + 1) mod 7 div 1"
    by (simp_all only: wall_clock_def wall_of_seconds_def split_beta Let_def wall.select_convs div_by_1)
  have ends: "(86400 :: int) div 3600 - 1 = 23" "(3600 :: int) div 60 - 1 = 59" "(7 :: int) div 1 - 1 = 6"
    "(3600 :: int) dvd 86400" "(60 :: int) dvd 3600" "(1 :: int) dvd 7" by simp_all
  show "w_Hour (wall_clock loc t) \<in> {0..23}" "w_Minute (wall_clock loc t) \<in> {0..59}" "w_Weekday (wall_clock loc t) \<in> {0..6}"
    unfolding fields atLeastAtMost_iff ends(1-3)[symmetric] by (intro conjI part; simp add: ends)+
qed

end
