(* ===== verification/Webhook.thy ===== *)
theory Webhook
  imports Go_Strconv Go_Time
begin

text \<open>
  Signing and verifying webhook deliveries: \<open>src/webhook/signer.go\<close>,
  \<open>src/webhook/verifier.go\<close> and the in-memory nonce store of
  \<open>src/webhook/drivers/nonce/memory.go\<close>.

  The MAC is a parameter, a function of the secret and the message, as any
  \<open>Algorithm\<close> of the code is. Instants are nanoseconds since the Unix epoch; a verification
  reads the clock once. \<open>time.Unix\<close> and \<open>Time.Sub\<close> are kept as they are on 64 bits: the
  seconds wrap, the difference saturates, and the negation of the least duration is itself.
  Of the white space that \<open>strings.TrimSpace\<close> trims, that of ASCII is modelled.
\<close>

subsection \<open>Time on 64 bits\<close>

definition unixToInternal :: int where
  "unixToInternal = 62135596800"

definition time_Unix :: "int \<Rightarrow> instant" where
  "time_Unix ts = (wrap64 (ts + unixToInternal) - unixToInternal) * second"

definition Time_Unix :: "instant \<Rightarrow> int" where
  "Time_Unix t = t div second"

definition time_Sub :: "instant \<Rightarrow> instant \<Rightarrow> duration" where
  "time_Sub t u =
     (if t - u < - (2 ^ 63) then - (2 ^ 63) else if t - u \<ge> 2 ^ 63 then 2 ^ 63 - 1 else t - u)"

definition neg64 :: "duration \<Rightarrow> duration" where
  "neg64 d = wrap64 (- d)"

subsection \<open>The signer\<close>

datatype webhook_error =
    ErrSignatureMismatch
  | ErrTimestampOutOfTolerance
  | ErrReplay
  | ErrMalformedHeader
  | ErrMissingSecret
  | ErrNoAlgorithm
  | ErrNonceStore string

type_synonym mac = "string \<Rightarrow> string \<Rightarrow> string"

record Signer =
  sg_Algorithm :: "mac option"
  sg_Secret :: string

definition framed :: "string \<Rightarrow> string \<Rightarrow> string" where
  "framed ts payload = ts @ CHR ''.'' # payload"

definition Sign :: "Signer \<Rightarrow> instant \<Rightarrow> string \<Rightarrow> webhook_error + string \<times> string" where
  "Sign s now payload =
     (case sg_Algorithm s of
        None \<Rightarrow> Inl ErrNoAlgorithm
      | Some alg \<Rightarrow>
          if sg_Secret s = [] then Inl ErrMissingSecret
          else
            let ts = FormatInt (Time_Unix now); mac = alg (sg_Secret s) (framed ts payload)
            in Inr (EncodeToString mac, ts))"

definition Header :: "Signer \<Rightarrow> instant \<Rightarrow> string \<Rightarrow> webhook_error + string" where
  "Header s now payload =
     (case Sign s now payload of
        Inl e \<Rightarrow> Inl e
      | Inr (sig, ts) \<Rightarrow> Inr (''t='' @ ts @ '',v1='' @ sig))"

subsection \<open>The verifier\<close>

record Verifier =
  vf_Algorithm :: "mac option"
  vf_Secret :: string
  vf_Tolerance :: duration
  vf_DisableTimestampCheck :: bool
  vf_Nonces :: bool

definition defaultTolerance :: duration where
  "defaultTolerance = 5 * 60 * second"

definition NewVerifier :: "mac \<Rightarrow> string \<Rightarrow> Verifier" where
  "NewVerifier hmacSHA256 secret =
     \<lparr>vf_Algorithm = Some hmacSHA256, vf_Secret = secret, vf_Tolerance = defaultTolerance,
      vf_DisableTimestampCheck = False, vf_Nonces = False\<rparr>"

definition tolerance :: "Verifier \<Rightarrow> duration" where
  "tolerance v = (if vf_Tolerance v > 0 then vf_Tolerance v else defaultTolerance)"

definition is_space :: "char \<Rightarrow> bool" where
  "is_space c \<longleftrightarrow> byte_of c = 32 \<or> 9 \<le> byte_of c \<and> byte_of c \<le> 13"

definition TrimSpace :: "string \<Rightarrow> string" where
  "TrimSpace s = rev (dropWhile is_space (rev (dropWhile is_space s)))"

fun parseParts :: "string list \<Rightarrow> int option \<Rightarrow> string option \<Rightarrow> webhook_error + int \<times> string" where
  "parseParts [] ts sig =
     (case (ts, sig) of (Some t, Some s) \<Rightarrow> Inr (t, s) | _ \<Rightarrow> Inl ErrMalformedHeader)"
| "parseParts (part # parts) ts sig =
     (let part = TrimSpace part in
      case index_byte part (CHR ''='') of
        None \<Rightarrow> Inl ErrMalformedHeader
      | Some eq \<Rightarrow>
          if eq = 0 \<or> eq = length part - 1 then Inl ErrMalformedHeader
          else
            let key = take eq part; val = drop (eq + 1) part in
            if key = ''t'' then
              (case ParseInt val of None \<Rightarrow> Inl ErrMalformedHeader | Some n \<Rightarrow> parseParts parts (Some n) sig)
            else if key = ''v1'' then
              (if val = [] \<or> odd (length val) then Inl ErrMalformedHeader else parseParts parts ts (Some val))
            else parseParts parts ts sig)"

definition parseHeader :: "string \<Rightarrow> webhook_error + int \<times> string" where
  "parseHeader header =
     (if header = [] then Inl ErrMalformedHeader else parseParts (split_byte (CHR '','') header) None None)"

definition timestamp_ok :: "Verifier \<Rightarrow> instant \<Rightarrow> int \<Rightarrow> bool" where
  "timestamp_ok v now ts =
     (let delta = time_Sub now (time_Unix ts); delta = (if delta < 0 then neg64 delta else delta)
      in \<not> delta > tolerance v)"

type_synonym 's nonce_mark = "instant \<Rightarrow> string \<Rightarrow> duration \<Rightarrow> 's \<Rightarrow> (string + bool) \<times> 's"

definition VerifyContext ::
  "Verifier \<Rightarrow> 's nonce_mark \<Rightarrow> instant \<Rightarrow> string \<Rightarrow> string \<Rightarrow> 's \<Rightarrow> webhook_error option \<times> 's" where
  "VerifyContext v checkAndMark now payload header s =
     (case vf_Algorithm v of
        None \<Rightarrow> (Some ErrNoAlgorithm, s)
      | Some alg \<Rightarrow>
          if vf_Secret v = [] then (Some ErrMissingSecret, s)
          else
            (case parseHeader header of
               Inl e \<Rightarrow> (Some e, s)
             | Inr (ts, sigHex) \<Rightarrow>
                 if \<not> vf_DisableTimestampCheck v \<and> \<not> timestamp_ok v now ts
                 then (Some ErrTimestampOutOfTolerance, s)
                 else
                   (case DecodeString sigHex of
                      None \<Rightarrow> (Some ErrMalformedHeader, s)
                    | Some supplied \<Rightarrow>
                        if alg (vf_Secret v) (framed (FormatInt ts) payload) \<noteq> supplied
                        then (Some ErrSignatureMismatch, s)
                        else if vf_Nonces v then
                          (case checkAndMark now sigHex (tolerance v) s of
                             (Inl e, s) \<Rightarrow> (Some (ErrNonceStore e), s)
                           | (Inr seen, s) \<Rightarrow> (if seen then Some ErrReplay else None, s))
                        else (None, s))))"

subsection \<open>The nonce store\<close>

type_synonym Memory = "(string, instant) gomap"

definition CheckAndMark :: "Memory nonce_mark" where
  "CheckAndMark now nonce ttl items =
     (case map_of items nonce of
        Some exp \<Rightarrow>
          if \<not> now > exp then (Inr True, items) else (Inr False, AList.update nonce (now + ttl) items)
      | None \<Rightarrow> (Inr False, AList.update nonce (now + ttl) items))"

definition seen :: "instant \<Rightarrow> string \<Rightarrow> Memory \<Rightarrow> bool" where
  "seen now nonce items = (case map_of items nonce of None \<Rightarrow> False | Some exp \<Rightarrow> \<not> now > exp)"

definition collect :: "instant \<Rightarrow> Memory \<Rightarrow> Memory" where
  "collect now items = filter (\<lambda>(_, exp). \<not> now > exp) items"

end
