(* ===== verification/Webhook_Props.thy ===== *)
theory Webhook_Props
  imports Webhook
begin

text \<open>
  Correctness of webhook verification: what a signer produces verifies, what verifies carries the
  right MAC and a fresh timestamp, and a delivery is accepted at most once. The contract of a
  nonce store is a locale, and the in-memory store is an instance of it.
\<close>

subsection \<open>Header values\<close>

definition plain :: "string \<Rightarrow> bool" where
  "plain s \<longleftrightarrow> (\<forall>c \<in> set s. is_alnum c \<or> c = CHR ''-'')"

lemma plain_not_special:
  assumes "is_alnum c \<or> c = CHR ''-''"
  shows "c \<noteq> CHR '',''" "c \<noteq> CHR ''=''" "\<not> is_space c"
  using assms by (auto simp: is_alnum_def is_space_def byte_of_def Let_def)

lemma plain_FormatInt: "plain (FormatInt i)"
proof -
  have "c = CHR ''-''" if "byte_of c = 45" for c
  proof -
    have "c = char_at (byte_of c)" by simp
    also have "\<dots> = char_at (byte_of (CHR ''-''))" using that by (simp add: byte_of_def)
    finally show ?thesis by simp
  qed
  then show ?thesis
    unfolding plain_def is_alnum_def Let_def using FormatInt_bytes by blast
qed

lemma plain_EncodeToString: "plain (EncodeToString bs)"
  unfolding plain_def is_alnum_def Let_def using EncodeToString_bytes[of _ bs] by fastforce

lemma ToUpper_char_bytes:
  "ToUpper_char c = (if 97 \<le> byte_of c \<and> byte_of c \<le> 122 then char_at (byte_of c - 32) else c)"
  unfolding ToUpper_char_def byte_of_def char_at_def ..

lemma byte_of_ToUpper_char:
  "byte_of (ToUpper_char c) = (if 97 \<le> byte_of c \<and> byte_of c \<le> 122 then byte_of c - 32 else byte_of c)"
  using byte_of_char_at[of "byte_of c - 32"] unfolding ToUpper_char_bytes by auto

lemma is_alnum_ToUpper_char:
  assumes "48 \<le> byte_of c \<and> byte_of c \<le> 57 \<or> 97 \<le> byte_of c \<and> byte_of c \<le> 102"
  shows "is_alnum (ToUpper_char c)"
proof (cases "97 \<le> byte_of c")
  case True
  then have "byte_of (ToUpper_char c) = byte_of c - 32" using assms by (simp add: byte_of_ToUpper_char)
  moreover have "65 \<le> byte_of c - 32 \<and> byte_of c - 32 \<le> 90" using True assms by linarith
  ultimately show ?thesis unfolding is_alnum_def Let_def by presburger
next
  case False
  then have "ToUpper_char c = c" by (simp add: ToUpper_char_bytes)
  moreover have "48 \<le> byte_of c \<and> byte_of c \<le> 57" using False assms by linarith
  ultimately show ?thesis unfolding is_alnum_def Let_def by presburger
qed

lemma plain_ToUpper: "plain (ToUpper (EncodeToString bs))"
  unfolding plain_def ToUpper_def
  using is_alnum_ToUpper_char[OF EncodeToString_bytes] by simp

lemma dropWhile_none: "\<forall>c \<in> set s. \<not> P c \<Longrightarrow> dropWhile P s = s"
  by (cases s) auto

lemma TrimSpace_plain: "\<forall>c \<in> set s. \<not> is_space c \<Longrightarrow> TrimSpace s = s"
  using dropWhile_none[of s is_space] dropWhile_none[of "rev s" is_space] by (simp add: TrimSpace_def)

lemma plain_free:
  assumes "plain s"
  shows "CHR '','' \<notin> set s" "CHR ''='' \<notin> set s" "\<forall>c \<in> set s. \<not> is_space c"
proof -
  have free: "is_alnum c \<or> c = CHR ''-''" if "c \<in> set s" for c using assms that by (simp add: plain_def)
  show "CHR '','' \<notin> set s" using plain_not_special(1)[OF free] by blast
  show "CHR ''='' \<notin> set s" using plain_not_special(2)[OF free] by blast
  show "\<forall>c \<in> set s. \<not> is_space c" using plain_not_special(3)[OF free] by blast
qed

lemma parseHeader_plain:
  assumes "ParseInt ts = Some i" "plain ts" "plain sig" "sig \<noteq> []" "even (length sig)"
  shows "parseHeader (''t='' @ ts @ '',v1='' @ sig) = Inr (i, sig)"
proof -
  have "ts \<noteq> []" using assms(1) by (auto simp: ParseInt_def)
  have split: "split_byte (CHR '','') (''t='' @ ts @ '',v1='' @ sig) = [''t='' @ ts, ''v1='' @ sig]"
    using split_byte_append[of "CHR '',''" "''t='' @ ts" "''v1='' @ sig"] split_byte_atom[of "CHR '',''" "''v1='' @ sig"]
      plain_free[OF assms(2)] plain_free[OF assms(3)] by simp
  have trim: "TrimSpace (''t='' @ ts) = ''t='' @ ts" "TrimSpace (''v1='' @ sig) = ''v1='' @ sig"
    using plain_free[OF assms(2)] plain_free[OF assms(3)]
    by (intro TrimSpace_plain; simp add: is_space_def byte_of_def)+
  have "parseParts [''v1='' @ sig] (Some i) None = Inr (i, sig)"
    using assms(4,5) trim(2) by (simp add: Let_def)
  then have "parseParts [''t='' @ ts, ''v1='' @ sig] None None = Inr (i, sig)"
    using assms(1) \<open>ts \<noteq> []\<close> trim(1) by (simp add: Let_def del: parseParts.simps(2)) (simp add: Let_def)
  then show ?thesis unfolding parseHeader_def split by simp
qed

subsection \<open>Freshness\<close>

definition unwrapped :: "int \<Rightarrow> bool" where
  "unwrapped ts \<longleftrightarrow> - (2 ^ 62) \<le> ts \<and> ts < 2 ^ 62"

lemma time_Unix_unwrapped: "unwrapped ts \<Longrightarrow> time_Unix ts = ts * second"
  by (simp add: unwrapped_def time_Unix_def wrap64_id unixToInternal_def)

lemma neg64_cases: "- (2 ^ 63) \<le> d \<Longrightarrow> d < 0 \<Longrightarrow> neg64 d = (if d = - (2 ^ 63) then d else - d)"
  by (auto simp: neg64_def wrap64_def)

lemma tolerance_pos: "0 < tolerance v"
  by (simp add: tolerance_def defaultTolerance_def second_def)

lemma timestamp_ok_iff:
  assumes "unwrapped ts" "tolerance v < 2 ^ 63 - 1"
  shows "timestamp_ok v now ts \<longleftrightarrow> \<bar>now - ts * second\<bar> \<le> tolerance v \<or> ts * second - now \<ge> 2 ^ 63"
proof -
  define d where "d = now - ts * second"
  have sub: "time_Sub now (time_Unix ts) = (if d < - (2 ^ 63) then - (2 ^ 63) else if d \<ge> 2 ^ 63 then 2 ^ 63 - 1 else d)"
    using time_Unix_unwrapped[OF assms(1)] by (simp add: time_Sub_def d_def)
  have neg: "ts * second - now = - d" by (simp add: d_def)
  consider "d \<le> - (2 ^ 63)" | "- (2 ^ 63) < d" "d < 0" | "0 \<le> d" "d < 2 ^ 63" | "2 ^ 63 \<le> d" by linarith
  then have "timestamp_ok v now ts \<longleftrightarrow> \<bar>d\<bar> \<le> tolerance v \<or> - d \<ge> 2 ^ 63"
  proof cases
    case 1
    then have "time_Sub now (time_Unix ts) = - (2 ^ 63)" by (simp add: sub)
    then have "timestamp_ok v now ts" using tolerance_pos[of v] neg64_cases[of "- (2 ^ 63)"] by (simp add: timestamp_ok_def)
    with 1 show ?thesis by linarith
  next
    case 2
    then show ?thesis using neg64_cases[of d] by (simp add: timestamp_ok_def sub not_less)
  next
    case 3
    then show ?thesis by (simp add: timestamp_ok_def sub not_less)
  next
    case 4
    then show ?thesis using assms(2) by (simp add: timestamp_ok_def sub)
  qed
  then show ?thesis unfolding neg d_def .
qed

subsection \<open>The contract of a nonce store\<close>

inductive nonce_steps ::
  "'s nonce_mark \<Rightarrow> (instant \<Rightarrow> 's \<Rightarrow> 's) \<Rightarrow> instant \<Rightarrow> 's \<Rightarrow> instant \<Rightarrow> 's \<Rightarrow> bool"
  for mark sweep t s where
  nonce_refl: "nonce_steps mark sweep t s t s"
| nonce_wait: "nonce_steps mark sweep t s t1 s1 \<Longrightarrow> t1 \<le> t2 \<Longrightarrow> nonce_steps mark sweep t s t2 s1"
| nonce_mark: "nonce_steps mark sweep t s t1 s1 \<Longrightarrow> nonce_steps mark sweep t s t1 (snd (mark t1 k ttl s1))"
| nonce_sweep: "nonce_steps mark sweep t s t1 s1 \<Longrightarrow> nonce_steps mark sweep t s t1 (sweep t1 s1)"

locale nonce_store =
  fixes ok :: "'s \<Rightarrow> bool" and until :: "'s \<Rightarrow> string \<Rightarrow> instant option"
    and mark :: "'s nonce_mark" and sweep :: "instant \<Rightarrow> 's \<Rightarrow> 's"
  assumes mark_ok: "ok s \<Longrightarrow> ok (snd (mark now k ttl s))"
    and sweep_ok: "ok s \<Longrightarrow> ok (sweep now s)"
    and mark_seen: "ok s \<Longrightarrow> until s k = Some e \<Longrightarrow> now \<le> e \<Longrightarrow> mark now k ttl s = (Inr True, s)"
    and mark_new: "ok s \<Longrightarrow> \<forall>e. until s k = Some e \<longrightarrow> e < now \<Longrightarrow>
      fst (mark now k ttl s) = Inr False \<and> until (snd (mark now k ttl s)) = (until s)(k \<mapsto> now + ttl)"
    and sweep_until: "ok s \<Longrightarrow> until s k = Some e \<Longrightarrow> now \<le> e \<Longrightarrow> until (sweep now s) k = Some e"
begin

lemma mark_keeps:
  assumes "ok s" "until s k = Some e" "now \<le> e"
  shows "until (snd (mark now k' ttl s)) k = Some e"
proof (cases "\<exists>e'. until s k' = Some e' \<and> now \<le> e'")
  case True
  then show ?thesis using mark_seen[OF assms(1)] assms(2) by fastforce
next
  case False
  then have "\<forall>e'. until s k' = Some e' \<longrightarrow> e' < now" by (meson not_le)
  moreover from this have "k' \<noteq> k" using assms(2,3) by force
  ultimately show ?thesis using mark_new[OF assms(1)] assms(2) by simp
qed

lemma steps_keep:
  "nonce_steps mark sweep t s t' s' \<Longrightarrow> ok s \<Longrightarrow> until s k = Some e \<Longrightarrow> t' \<le> e \<Longrightarrow> ok s' \<and> until s' k = Some e"
  by (induction rule: nonce_steps.induct) (auto intro: mark_ok sweep_ok mark_keeps sweep_until)

lemma marked:
  assumes "ok s" "fst (mark now k ttl s) = Inr False"
  shows "until (snd (mark now k ttl s)) k = Some (now + ttl)"
proof -
  have "\<forall>e. until s k = Some e \<longrightarrow> e < now"
    using mark_seen[OF assms(1), of k _ now ttl] assms(2) by force
  with mark_new[OF assms(1)] show ?thesis by simp
qed

lemma verified_once:
  assumes ok: "ok s" and first: "VerifyContext v mark t1 payload header s = (None, s1)"
    and v: "vf_Nonces v" "\<not> vf_DisableTimestampCheck v" "tolerance v < 2 ^ 63 - 1"
    and ts: "parseHeader header = Inr (ts, sig)" "unwrapped ts" "ts * second \<le> t1"
    and later: "nonce_steps mark sweep t1 s1 t2 s2"
  shows "fst (VerifyContext v mark t2 payload' header s2) \<noteq> None"
proof -
  from first obtain alg where alg: "vf_Algorithm v = Some alg" "vf_Secret v \<noteq> []"
    by (auto simp: VerifyContext_def split: option.splits if_splits)
  obtain supplied where decode: "DecodeString sig = Some supplied"
    using first alg v ts(1) by (auto simp: VerifyContext_def split: option.splits if_splits)
  have "mark t1 sig (tolerance v) s = (Inr False, s1)"
    using first alg v ts(1) decode
    by (auto simp: VerifyContext_def split: if_splits prod.splits sum.splits)
  then have marked: "until s1 sig = Some (t1 + tolerance v)" "ok s1"
    using marked[OF ok, of t1 sig "tolerance v"] mark_ok[OF ok, of t1 sig "tolerance v"] by simp_all
  show ?thesis
  proof (cases "t2 \<le> t1 + tolerance v")
    case True
    then have "ok s2 \<and> until s2 sig = Some (t1 + tolerance v)" using steps_keep[OF later marked(2,1)] by blast
    then have "mark t2 sig (tolerance v) s2 = (Inr True, s2)" using mark_seen True by blast
    then show ?thesis using alg v ts(1) decode by (simp add: VerifyContext_def)
  next
    case False
    then have late: "tolerance v < t2 - ts * second" using ts(3) by linarith
    then have "\<not> \<bar>t2 - ts * second\<bar> \<le> tolerance v" "\<not> ts * second - t2 \<ge> 2 ^ 63"
      using tolerance_pos[of v] by simp_all
    then have "\<not> timestamp_ok v t2 ts" using timestamp_ok_iff[OF ts(2) v(3), of t2] by blast
    then show ?thesis using alg v ts(1) by (simp add: VerifyContext_def)
  qed
qed

end

lemma collect_until:
  "keys_distinct items \<Longrightarrow> map_of (collect now items) k =
    (case map_of items k of None \<Rightarrow> None | Some e \<Rightarrow> if now \<le> e then Some e else None)"
  by (simp add: collect_def map_of_filter_distinct not_less split: option.splits)

lemma collect_distinct: "keys_distinct items \<Longrightarrow> keys_distinct (collect now items)"
  by (simp add: collect_def keys_distinct_filter)

interpretation memory_nonces: nonce_store keys_distinct map_of CheckAndMark collect
  by unfold_locales
    (auto simp: CheckAndMark_def collect_until update_conv' split: option.splits
      intro: keys_distinct_update collect_distinct)

subsection \<open>The properties\<close>

definition header_value :: "int \<Rightarrow> string \<Rightarrow> string" where
  "header_value ts sig = ''t='' @ FormatInt ts @ '',v1='' @ sig"

lemma unwrapped_ParseInt: "unwrapped ts \<Longrightarrow> ParseInt (FormatInt ts) = Some ts"
  by (rule ParseInt_FormatInt) (simp_all add: unwrapped_def)

lemma parse_header_value:
  assumes "unwrapped ts" "bs \<noteq> []"
  shows "parseHeader (header_value ts (EncodeToString bs)) = Inr (ts, EncodeToString bs)"
    "parseHeader (header_value ts (ToUpper (EncodeToString bs))) = Inr (ts, ToUpper (EncodeToString bs))"
proof -
  have "EncodeToString bs \<noteq> []" using assms(2) length_EncodeToString[of bs] by (metis length_0_conv mult_eq_0_iff zero_neq_numeral)
  moreover from this have "ToUpper (EncodeToString bs) \<noteq> []" by (simp add: ToUpper_def)
  moreover have "length (ToUpper (EncodeToString bs)) = 2 * length bs" by (simp add: ToUpper_def)
  ultimately show "parseHeader (header_value ts (EncodeToString bs)) = Inr (ts, EncodeToString bs)"
    "parseHeader (header_value ts (ToUpper (EncodeToString bs))) = Inr (ts, ToUpper (EncodeToString bs))"
    unfolding header_value_def
    using parseHeader_plain[OF unwrapped_ParseInt[OF assms(1)] plain_FormatInt plain_EncodeToString]
      parseHeader_plain[OF unwrapped_ParseInt[OF assms(1)] plain_FormatInt plain_ToUpper]
    by simp_all
qed

lemma Header_value:
  assumes "sg_Algorithm s = Some alg" "sg_Secret s \<noteq> []"
  shows "Header s now payload = Inr (header_value (Time_Unix now)
    (EncodeToString (alg (sg_Secret s) (framed (FormatInt (Time_Unix now)) payload))))"
  using assms by (simp add: Header_def Sign_def header_value_def Let_def)

lemma VerifyContext_accepts:
  "VerifyContext v mark now payload header s = (None, s') \<longleftrightarrow>
   (\<exists>alg ts sig. vf_Algorithm v = Some alg \<and> vf_Secret v \<noteq> [] \<and> parseHeader header = Inr (ts, sig) \<and>
      (vf_DisableTimestampCheck v \<or> timestamp_ok v now ts) \<and>
      DecodeString sig = Some (alg (vf_Secret v) (framed (FormatInt ts) payload)) \<and>
      (if vf_Nonces v then mark now sig (tolerance v) s = (Inr False, s') else s' = s))"
  by (auto simp: VerifyContext_def split: option.splits if_splits sum.splits prod.splits)

text \<open>C35: a header that the signer makes for a payload is accepted by a verifier with the same
  algorithm and secret, as long as the clock is within the tolerance of the signing second and, with
  a nonce store, the signature has not been seen.\<close>

theorem webhook_roundtrip:
  assumes "sg_Algorithm s = Some alg" "vf_Algorithm v = Some alg"
    "sg_Secret s = secret" "vf_Secret v = secret" "secret \<noteq> []" "\<forall>m. alg secret m \<noteq> []"
    and time: "unwrapped (Time_Unix t1)" "\<bar>t2 - Time_Unix t1 * second\<bar> \<le> tolerance v" "tolerance v < 2 ^ 63 - 1"
    and header: "Header s t1 payload = Inr header"
    and fresh: "\<not> seen t2 (EncodeToString (alg secret (framed (FormatInt (Time_Unix t1)) payload))) items"
  shows "fst (VerifyContext v CheckAndMark t2 payload header items) = None"
proof -
  let ?mac = "alg secret (framed (FormatInt (Time_Unix t1)) payload)"
  have "header = header_value (Time_Unix t1) (EncodeToString ?mac)"
    using Header_value[OF assms(1), of t1 payload] header assms(3,5) by simp
  then have parsed: "parseHeader header = Inr (Time_Unix t1, EncodeToString ?mac)"
    using parse_header_value(1)[OF time(1)] assms(6) by blast
  have "timestamp_ok v t2 (Time_Unix t1)" using timestamp_ok_iff[OF time(1,3)] time(2) by blast
  moreover obtain items' where "CheckAndMark t2 (EncodeToString ?mac) (tolerance v) items = (Inr False, items')"
    using fresh by (auto simp: seen_def CheckAndMark_def split: option.splits)
  ultimately have "VerifyContext v CheckAndMark t2 payload header items = (None, if vf_Nonces v then items' else items)"
    unfolding VerifyContext_accepts using assms(2,4,5) parsed by auto
  then show ?thesis by simp
qed

definition demo_mac :: mac where
  "demo_mac secret m = [CHR 0x4F, CHR 0xAB]"

definition demo_signer :: Signer where
  "demo_signer = \<lparr>sg_Algorithm = Some demo_mac, sg_Secret = ''key''\<rparr>"

definition demo_verifier :: Verifier where
  "demo_verifier = (NewVerifier demo_mac ''key'')\<lparr>vf_Nonces := True\<rparr>"

lemmas demo_webhook_defs = demo_signer_def demo_verifier_def NewVerifier_def

lemma demo_facts:
  "unwrapped (Time_Unix (7 * second))" "tolerance demo_verifier = 300 * second" "tolerance demo_verifier < 2 ^ 63 - 1"
  "Time_Unix (7 * second) = 7" "\<forall>m. demo_mac secret m \<noteq> []"
  by (simp_all add: unwrapped_def Time_Unix_def second_def tolerance_def demo_webhook_defs defaultTolerance_def demo_mac_def)

theorem webhook_roundtrip_witness:
  "\<exists>header. Header demo_signer (7 * second) ''hi'' = Inr header \<and>
     fst (VerifyContext demo_verifier CheckAndMark (20 * second) ''hi'' header []) = None"
proof -
  obtain header where header: "Header demo_signer (7 * second) ''hi'' = Inr header"
    using Header_value[of demo_signer demo_mac "7 * second" "''hi''"] by (simp add: demo_signer_def)
  have "\<bar>20 * second - Time_Unix (7 * second) * second\<bar> \<le> tolerance demo_verifier"
    unfolding demo_facts(2,4) by (simp add: second_def)
  then show ?thesis
    using webhook_roundtrip[of demo_signer demo_mac demo_verifier "''key''" "7 * second" "20 * second" "''hi''" header "[]"]
      header demo_facts
    by (simp add: demo_webhook_defs seen_def)
qed

text \<open>C34: acceptance means that the header carries the MAC of exactly this timestamp and payload
  under the shared secret, and that the timestamp is within the tolerance of the clock, or else lies
  so far in the future that the difference no longer fits a 64-bit duration; no other timestamp
  is accepted, and one of the latter kind with a correct MAC always is.\<close>

theorem webhook_sound:
  assumes "\<not> vf_DisableTimestampCheck v" "\<not> vf_Nonces v" "tolerance v < 2 ^ 63 - 1"
    and alg: "vf_Algorithm v = Some alg" "vf_Secret v \<noteq> []"
    and header: "parseHeader header = Inr (ts, sig)" "unwrapped ts"
  shows "VerifyContext v mark now payload header s = (None, s) \<longleftrightarrow>
    DecodeString sig = Some (alg (vf_Secret v) (FormatInt ts @ ''.'' @ payload)) \<and>
    (\<bar>now - ts * second\<bar> \<le> tolerance v \<or> ts * second - now \<ge> 2 ^ 63)"
  unfolding VerifyContext_accepts using assms timestamp_ok_iff[OF header(2) assms(3), of now]
  by (auto simp: framed_def)

theorem webhook_sound_witness:
  "VerifyContext (demo_verifier\<lparr>vf_Nonces := False\<rparr>) (CheckAndMark) 0 ''hi''
     (header_value 1700000000000 (EncodeToString (demo_mac ''key'' []))) [] = (None, [])"
proof -
  let ?v = "demo_verifier\<lparr>vf_Nonces := False\<rparr>"
  have "unwrapped 1700000000000" by (simp add: unwrapped_def)
  moreover from this have
    "parseHeader (header_value 1700000000000 (EncodeToString (demo_mac ''key'' []))) =
       Inr (1700000000000, EncodeToString (demo_mac ''key'' []))"
    using parse_header_value(1) demo_facts(5) by blast
  moreover have "tolerance ?v < 2 ^ 63 - 1"
    by (simp add: tolerance_def demo_webhook_defs defaultTolerance_def second_def)
  ultimately show ?thesis
    using webhook_sound[of ?v demo_mac _ 1700000000000 "EncodeToString (demo_mac ''key'' [])" CheckAndMark 0 "''hi''" "[]"]
    by (simp add: demo_webhook_defs demo_mac_def second_def)
qed


lemma demo_accepts:
  "VerifyContext demo_verifier CheckAndMark (20 * second) payload (header_value 7 (EncodeToString (demo_mac ''key'' []))) [] =
     (None, [(EncodeToString (demo_mac ''key'' []), 320 * second)])"
  "parseHeader (header_value 7 (EncodeToString (demo_mac ''key'' []))) = Inr (7, EncodeToString (demo_mac ''key'' []))"
proof -
  have un: "unwrapped 7" by (simp add: unwrapped_def)
  show "parseHeader (header_value 7 (EncodeToString (demo_mac ''key'' []))) = Inr (7, EncodeToString (demo_mac ''key'' []))"
    using parse_header_value(1)[OF un] demo_facts(5) by blast
  moreover have "timestamp_ok demo_verifier (20 * second) 7"
    using timestamp_ok_iff[OF un demo_facts(3), of "20 * second"] unfolding demo_facts(2) by (simp add: second_def)
  moreover have "CheckAndMark (20 * second) k (300 * second) [] = (Inr False, [(k, 320 * second)])" for k
    by (simp add: CheckAndMark_def second_def)
  ultimately show "VerifyContext demo_verifier CheckAndMark (20 * second) payload (header_value 7 (EncodeToString (demo_mac ''key'' []))) [] =
     (None, [(EncodeToString (demo_mac ''key'' []), 320 * second)])"
    unfolding VerifyContext_accepts demo_facts(2) by (auto simp: demo_webhook_defs demo_mac_def)
qed


text \<open>C36: the nonce is the signature as it is written in the header and hex decoding ignores the
  case of the digits: after a header with a lower-case signature is accepted, the same header with
  the signature in upper case is accepted too, at the same instant, whenever that changes it.\<close>

theorem webhook_case_replay:
  assumes first: "VerifyContext v CheckAndMark now payload (header_value ts (EncodeToString bs)) [] = (None, items)"
    and "unwrapped ts" "bs \<noteq> []" "ToUpper (EncodeToString bs) \<noteq> EncodeToString bs" "vf_Nonces v"
  shows "fst (VerifyContext v CheckAndMark now payload (header_value ts (ToUpper (EncodeToString bs))) items) = None"
proof -
  let ?up = "ToUpper (EncodeToString bs)"
  have items: "items = [(EncodeToString bs, now + tolerance v)]"
    using first assms(5) parse_header_value(1)[OF assms(2,3)] unfolding VerifyContext_accepts
    by (auto simp: CheckAndMark_def)
  then have "CheckAndMark now ?up (tolerance v) items = (Inr False, items @ [(?up, now + tolerance v)])"
    using assms(4) by (auto simp: CheckAndMark_def)
  moreover have "DecodeString ?up = DecodeString (EncodeToString bs)" by (simp add: DecodeString_ToUpper)
  ultimately have "VerifyContext v CheckAndMark now payload (header_value ts ?up) items = (None, items @ [(?up, now + tolerance v)])"
    using first assms(5) parse_header_value[OF assms(2,3)] unfolding VerifyContext_accepts by auto
  then show ?thesis by simp
qed

theorem webhook_case_replay_witness:
  "fst (VerifyContext demo_verifier CheckAndMark (20 * second) ''hi'' (header_value 7 (ToUpper (EncodeToString (demo_mac ''key'' []))))
     [(EncodeToString (demo_mac ''key'' []), 320 * second)]) = None"
proof -
  have "ToUpper (EncodeToString (demo_mac ''key'' [])) \<noteq> EncodeToString (demo_mac ''key'' [])" by code_simp
  then show ?thesis
    using webhook_case_replay[OF demo_accepts(1)[of "''hi''"] _ demo_facts(5)[rule_format]]
    by (simp add: unwrapped_def demo_webhook_defs)
qed

end
