(* ===== verification/Cron.thy ===== *)
theory Cron
  imports Go_Strconv Go_Time
begin

text \<open>
  Cron expressions and schedules: \<open>src/scheduler/expression.go\<close> and
  \<open>src/scheduler/schedule.go\<close>. A time carries its location, which is an argument here. The loop of
  \<open>makeRange\<close> adds on 64 bits and can wrap; its fuel is more than the iterations it can make.
  \<open>strings.Fields\<close> splits at the white space of Unicode, in UTF-8.
\<close>

subsection \<open>Fields of a string\<close>

definition space_width :: "string \<Rightarrow> nat" where
  "space_width s =
     (case map byte_of s of
        [] \<Rightarrow> 0
      | a # bs \<Rightarrow>
          if a = 32 \<or> 9 \<le> a \<and> a \<le> 13 then 1
          else if take 1 bs \<in> {[0x85], [0xA0]} \<and> a = 0xC2 then 2
          else if a = 0xE1 \<and> take 2 bs = [0x9A, 0x80]
            \<or> a = 0xE2 \<and> take 1 bs = [0x80] \<and> take 1 (drop 1 bs) \<in> set (map (\<lambda>n. [n]) ([0x80..<0x8B] @ [0xA8, 0xA9, 0xAF]))
            \<or> a = 0xE2 \<and> take 2 bs = [0x81, 0x9F]
            \<or> a = 0xE3 \<and> take 2 bs = [0x80, 0x80] then 3
          else 0)"

fun fields_from :: "nat \<Rightarrow> string \<Rightarrow> string \<Rightarrow> string list" where
  "fields_from _ word [] = (if word = [] then [] else [word])"
| "fields_from (Suc k) word (_ # s) = fields_from k word s"
| "fields_from 0 word (c # s) =
     (case space_width (c # s) of
        0 \<Rightarrow> fields_from 0 (word @ [c]) s
      | Suc k \<Rightarrow> (if word = [] then [] else [word]) @ fields_from k [] s)"

definition Fields :: "string \<Rightarrow> string list" where
  "Fields s = fields_from 0 [] s"

definition Atoi :: "string \<Rightarrow> int option" where
  "Atoi s = ParseInt s"

subsection \<open>Expressions\<close>

datatype cron_error =
    FieldCount nat
  | NotANumber
  | ErrInvalidCronStep
  | InvalidRange string
  | RangeOutOfBounds string
  | ValueOutOfBounds int
  | InvalidField string cron_error

record Expression =
  e_minute :: "int list"
  e_hour :: "int list"
  e_dayOfMonth :: "int list"
  e_month :: "int list"
  e_dayOfWeek :: "int list"
  e_raw :: string

fun range_loop :: "nat \<Rightarrow> int \<Rightarrow> int \<Rightarrow> int \<Rightarrow> int list" where
  "range_loop 0 i hi step = []"
| "range_loop (Suc n) i hi step = (if i \<le> hi then i # range_loop n (wrap64 (i + step)) hi step else [])"

definition makeRange :: "int \<Rightarrow> int \<Rightarrow> int \<Rightarrow> int list" where
  "makeRange lo hi step = range_loop (nat (hi - lo) + 4) lo hi step"

fun parseList :: "string list \<Rightarrow> int \<Rightarrow> int \<Rightarrow> cron_error + int list" where
  "parseList [] lo hi = Inr []"
| "parseList (part # parts) lo hi =
     (case Atoi part of
        None \<Rightarrow> Inl NotANumber
      | Some val \<Rightarrow>
          if val < lo \<or> val > hi then Inl (ValueOutOfBounds val)
          else (case parseList parts lo hi of Inl e \<Rightarrow> Inl e | Inr vals \<Rightarrow> Inr (val # vals)))"

definition parseField :: "string \<Rightarrow> int \<Rightarrow> int \<Rightarrow> cron_error + int list" where
  "parseField field lo hi =
     (if field = ''*'' then Inr (makeRange lo hi 1)
      else if has_prefix field ''*/'' then
        (case Atoi (drop 2 field) of
           None \<Rightarrow> Inl NotANumber
         | Some step \<Rightarrow> if step \<le> 0 then Inl ErrInvalidCronStep else Inr (makeRange lo hi step))
      else if CHR ''-'' \<in> set field then
        (case split_byte (CHR ''-'') field of
           [a, b] \<Rightarrow>
             (case Atoi a of
                None \<Rightarrow> Inl NotANumber
              | Some start \<Rightarrow>
                  (case Atoi b of
                     None \<Rightarrow> Inl NotANumber
                   | Some stop \<Rightarrow>
                       if start < lo \<or> stop > hi \<or> start > stop then Inl (RangeOutOfBounds field)
                       else Inr (makeRange start stop 1)))
         | _ \<Rightarrow> Inl (InvalidRange field))
      else if CHR '','' \<in> set field then parseList (split_byte (CHR '','') field) lo hi
      else
        (case Atoi field of
           None \<Rightarrow> Inl NotANumber
         | Some val \<Rightarrow> if val < lo \<or> val > hi then Inl (ValueOutOfBounds val) else Inr [val]))"

definition named_expression :: "string \<Rightarrow> string" where
  "named_expression expr =
     (if expr = ''@yearly'' \<or> expr = ''@annually'' then ''0 0 1 1 *''
      else if expr = ''@monthly'' then ''0 0 1 * *''
      else if expr = ''@weekly'' then ''0 0 * * 0''
      else if expr = ''@daily'' \<or> expr = ''@midnight'' then ''0 0 * * *''
      else if expr = ''@hourly'' then ''0 * * * *''
      else expr)"

definition in_field :: "string \<Rightarrow> cron_error + 'a \<Rightarrow> ('a \<Rightarrow> cron_error + 'b) \<Rightarrow> cron_error + 'b" where
  "in_field name r k = (case r of Inl e \<Rightarrow> Inl (InvalidField name e) | Inr v \<Rightarrow> k v)"

definition ParseExpression :: "string \<Rightarrow> cron_error + Expression" where
  "ParseExpression expr0 =
     (let expr = named_expression expr0; fields = Fields expr in
      if length fields \<noteq> 5 then Inl (FieldCount (length fields))
      else
        in_field ''minute'' (parseField (fields ! 0) 0 59) (\<lambda>minute.
        in_field ''hour'' (parseField (fields ! 1) 0 23) (\<lambda>hour.
        in_field ''day of month'' (parseField (fields ! 2) 1 31) (\<lambda>dayOfMonth.
        in_field ''month'' (parseField (fields ! 3) 1 12) (\<lambda>month.
        in_field ''day of week'' (parseField (fields ! 4) 0 6) (\<lambda>dayOfWeek.
          Inr \<lparr>e_minute = minute, e_hour = hour, e_dayOfMonth = dayOfMonth, e_month = month,
               e_dayOfWeek = dayOfWeek, e_raw = expr\<rparr>))))))"

definition expr_IsDue :: "Expression \<Rightarrow> location \<Rightarrow> instant \<Rightarrow> bool" where
  "expr_IsDue e loc t =
     (let w = wall_clock loc t in
      if w_Minute w \<notin> set (e_minute e) then False
      else if w_Hour w \<notin> set (e_hour e) then False
      else if w_Month w \<notin> set (e_month e) then False
      else
        let dayOfMonthMatch = (e_dayOfMonth e = [] \<or> w_Day w \<in> set (e_dayOfMonth e));
            dayOfWeekMatch = (e_dayOfWeek e = [] \<or> w_Weekday w \<in> set (e_dayOfWeek e));
            fields = Fields (e_raw e)
        in if e_raw e \<noteq> [] \<and> length fields \<ge> 5 then
             (if fields ! 2 = ''*'' \<and> fields ! 4 = ''*'' then dayOfMonthMatch \<and> dayOfWeekMatch
              else if fields ! 2 \<noteq> ''*'' \<and> fields ! 4 \<noteq> ''*'' then dayOfMonthMatch \<or> dayOfWeekMatch
              else dayOfMonthMatch \<and> dayOfWeekMatch)
           else dayOfMonthMatch \<and> dayOfWeekMatch)"

definition zeroTime :: instant where
  "zeroTime = - 62135596800 * second"

definition maxIterations :: nat where
  "maxIterations = 4 * 365 * 24 * 60"

fun next_loop :: "nat \<Rightarrow> Expression \<Rightarrow> location \<Rightarrow> instant \<Rightarrow> instant" where
  "next_loop 0 e loc t = zeroTime"
| "next_loop (Suc n) e loc t = (if expr_IsDue e loc t then t else next_loop n e loc (t + minute))"

definition Next :: "Expression \<Rightarrow> location \<Rightarrow> instant \<Rightarrow> instant" where
  "Next e loc from = next_loop maxIterations e loc (from - from mod minute + minute)"

subsection \<open>Schedules\<close>

datatype sched_error = InvalidCron string cron_error | ErrInvalidDayOfMonth int

record Schedule =
  s_expression :: string
  s_minute :: string
  s_hour :: string
  s_dayOfMonth :: string
  s_month :: string
  s_dayOfWeek :: string
  s_validationErr :: "sched_error list"

definition NewSchedule :: Schedule where
  "NewSchedule = \<lparr>s_expression = [], s_minute = ''*'', s_hour = ''*'', s_dayOfMonth = ''*'', s_month = ''*'',
     s_dayOfWeek = ''*'', s_validationErr = []\<rparr>"

definition buildExpression :: "Schedule \<Rightarrow> Schedule" where
  "buildExpression s = s\<lparr>s_expression :=
     s_minute s @ '' '' @ s_hour s @ '' '' @ s_dayOfMonth s @ '' '' @ s_month s @ '' '' @ s_dayOfWeek s\<rparr>"

definition GetExpression :: "Schedule \<Rightarrow> string \<times> Schedule" where
  "GetExpression s = (let s = (if s_expression s = [] then buildExpression s else s) in (s_expression s, s))"

definition sched_IsDue :: "Schedule \<Rightarrow> location \<Rightarrow> instant \<Rightarrow> bool \<times> Schedule" where
  "sched_IsDue s loc t =
     (if s_validationErr s \<noteq> [] then (False, s)
      else
        let s = (if s_expression s = [] then buildExpression s else s) in
        case ParseExpression (s_expression s) of
          Inl _ \<Rightarrow> (False, s)
        | Inr expr \<Rightarrow> (expr_IsDue expr loc t, s))"

definition NextRun :: "Schedule \<Rightarrow> location \<Rightarrow> instant \<Rightarrow> instant \<times> Schedule" where
  "NextRun s loc from =
     (let s = (if s_expression s = [] then buildExpression s else s) in
      case ParseExpression (s_expression s) of
        Inl _ \<Rightarrow> (zeroTime, s)
      | Inr expr \<Rightarrow> (Next expr loc from, s))"

definition EveryMinute :: "Schedule \<Rightarrow> Schedule" where
  "EveryMinute s = buildExpression (s\<lparr>s_minute := ''*''\<rparr>)"

definition EveryFiveMinutes :: "Schedule \<Rightarrow> Schedule" where
  "EveryFiveMinutes s = buildExpression (s\<lparr>s_minute := ''*/5''\<rparr>)"

definition EveryTenMinutes :: "Schedule \<Rightarrow> Schedule" where
  "EveryTenMinutes s = buildExpression (s\<lparr>s_minute := ''*/10''\<rparr>)"

definition EveryFifteenMinutes :: "Schedule \<Rightarrow> Schedule" where
  "EveryFifteenMinutes s = buildExpression (s\<lparr>s_minute := ''*/15''\<rparr>)"

definition EveryThirtyMinutes :: "Schedule \<Rightarrow> Schedule" where
  "EveryThirtyMinutes s = buildExpression (s\<lparr>s_minute := ''*/30''\<rparr>)"

definition Hourly :: "Schedule \<Rightarrow> Schedule" where
  "Hourly s = buildExpression (s\<lparr>s_minute := ''0''\<rparr>)"

definition HourlyAt :: "int \<Rightarrow> Schedule \<Rightarrow> Schedule" where
  "HourlyAt m s = buildExpression (s\<lparr>s_minute := FormatInt m\<rparr>)"

definition Daily :: "Schedule \<Rightarrow> Schedule" where
  "Daily s = buildExpression (s\<lparr>s_minute := ''0'', s_hour := ''0''\<rparr>)"

definition set_time :: "string \<Rightarrow> Schedule \<Rightarrow> Schedule" where
  "set_time time s =
     (case split_byte (CHR '':'') time of [h, m] \<Rightarrow> s\<lparr>s_hour := h, s_minute := m\<rparr> | _ \<Rightarrow> s)"

definition DailyAt :: "string \<Rightarrow> Schedule \<Rightarrow> Schedule" where
  "DailyAt time s = buildExpression (set_time time s)"

definition sched_At :: "string \<Rightarrow> Schedule \<Rightarrow> Schedule" where
  "sched_At time s = DailyAt time s"

definition Weekly :: "Schedule \<Rightarrow> Schedule" where
  "Weekly s = buildExpression (s\<lparr>s_minute := ''0'', s_hour := ''0'', s_dayOfWeek := ''0''\<rparr>)"

definition Monthly :: "Schedule \<Rightarrow> Schedule" where
  "Monthly s = buildExpression (s\<lparr>s_minute := ''0'', s_hour := ''0'', s_dayOfMonth := ''1''\<rparr>)"

definition MonthlyOn :: "int \<Rightarrow> string \<Rightarrow> Schedule \<Rightarrow> Schedule" where
  "MonthlyOn day time s = buildExpression (set_time time (s\<lparr>s_dayOfMonth := FormatInt day\<rparr>))"

definition Yearly :: "Schedule \<Rightarrow> Schedule" where
  "Yearly s = buildExpression (s\<lparr>s_minute := ''0'', s_hour := ''0'', s_dayOfMonth := ''1'', s_month := ''1''\<rparr>)"

definition sched_Cron :: "string \<Rightarrow> Schedule \<Rightarrow> Schedule" where
  "sched_Cron expression s0 =
     (let s = s0\<lparr>s_expression := expression\<rparr>; parts = Fields expression;
          s = (if length parts \<ge> 5
               then s\<lparr>s_minute := parts ! 0, s_hour := parts ! 1, s_dayOfMonth := parts ! 2, s_month := parts ! 3,
                      s_dayOfWeek := parts ! 4\<rparr>
               else s)
      in case ParseExpression expression of
           Inl err \<Rightarrow> s\<lparr>s_validationErr := s_validationErr s @ [InvalidCron expression err]\<rparr>
         | Inr _ \<Rightarrow> s)"

definition Days :: "int list \<Rightarrow> Schedule \<Rightarrow> Schedule" where
  "Days days s =
     (if days = [] then s
      else
        case find (\<lambda>day. day < 1 \<or> day > 31) days of
          Some day \<Rightarrow> s\<lparr>s_validationErr := s_validationErr s @ [ErrInvalidDayOfMonth day]\<rparr>
        | None \<Rightarrow> buildExpression (s\<lparr>s_dayOfMonth := join_byte (CHR '','') (map FormatInt days)\<rparr>))"

definition set_dayOfWeek :: "string \<Rightarrow> Schedule \<Rightarrow> Schedule" where
  "set_dayOfWeek dow s = buildExpression (s\<lparr>s_dayOfWeek := dow\<rparr>)"

definition Weekdays :: "Schedule \<Rightarrow> Schedule" where
  "Weekdays s = set_dayOfWeek ''1-5'' s"

definition Weekends :: "Schedule \<Rightarrow> Schedule" where
  "Weekends s = set_dayOfWeek ''0,6'' s"

definition Sundays :: "Schedule \<Rightarrow> Schedule" where
  "Sundays s = set_dayOfWeek ''0'' s"

definition Mondays :: "Schedule \<Rightarrow> Schedule" where
  "Mondays s = set_dayOfWeek ''1'' s"

definition Tuesdays :: "Schedule \<Rightarrow> Schedule" where
  "Tuesdays s = set_dayOfWeek ''2'' s"

definition Wednesdays :: "Schedule \<Rightarrow> Schedule" where
  "Wednesdays s = set_dayOfWeek ''3'' s"

definition Thursdays :: "Schedule \<Rightarrow> Schedule" where
  "Thursdays s = set_dayOfWeek ''4'' s"

definition Fridays :: "Schedule \<Rightarrow> Schedule" where
  "Fridays s = set_dayOfWeek ''5'' s"

definition Saturdays :: "Schedule \<Rightarrow> Schedule" where
  "Saturdays s = set_dayOfWeek ''6'' s"

end
