(* ===== verification/Cron_Props.thy ===== *)
theory Cron_Props
  imports Cron
begin

text \<open>
  Correctness of cron expressions and schedules. The abstract syntax \<open>cron\<close> with its meaning on wall
  clock readings is the specification; every well-formed specification, printed, is accepted by the
  parser, and the expression the parser makes is due exactly when the specification says so. On top
  of that, the search for the next run returns the first due minute and, for schedules that
  only constrain minutes, hours and days of the week, always finds one.
\<close>

subsection \<open>Specification\<close>

datatype cfield = Any | Every int | Between int int | OneOf "int list"

record cron =
  c_minute :: cfield
  c_hour :: cfield
  c_dayOfMonth :: cfield
  c_month :: cfield
  c_dayOfWeek :: cfield

fun print_field :: "cfield \<Rightarrow> string" where
  "print_field Any = ''*''"
| "print_field (Every n) = ''*/'' @ FormatInt n"
| "print_field (Between a b) = FormatInt a @ CHR ''-'' # FormatInt b"
| "print_field (OneOf vs) = join_byte (CHR '','') (map FormatInt vs)"

fun field_ok :: "int \<Rightarrow> int \<Rightarrow> cfield \<Rightarrow> bool" where
  "field_ok lo hi Any \<longleftrightarrow> True"
| "field_ok lo hi (Every n) \<longleftrightarrow> 0 < n \<and> n < 2 ^ 63"
| "field_ok lo hi (Between a b) \<longleftrightarrow> lo \<le> a \<and> a \<le> b \<and> b \<le> hi"
| "field_ok lo hi (OneOf vs) \<longleftrightarrow> vs \<noteq> [] \<and> (\<forall>v \<in> set vs. lo \<le> v \<and> v \<le> hi)"

fun field_sem :: "int \<Rightarrow> cfield \<Rightarrow> int \<Rightarrow> bool" where
  "field_sem lo Any v \<longleftrightarrow> True"
| "field_sem lo (Every n) v \<longleftrightarrow> n dvd v - lo"
| "field_sem lo (Between a b) v \<longleftrightarrow> a \<le> v \<and> v \<le> b"
| "field_sem lo (OneOf vs) v \<longleftrightarrow> v \<in> set vs"

definition print_cron :: "cron \<Rightarrow> string" where
  "print_cron c = print_field (c_minute c) @ '' '' @ print_field (c_hour c) @ '' '' @
     print_field (c_dayOfMonth c) @ '' '' @ print_field (c_month c) @ '' '' @ print_field (c_dayOfWeek c)"

definition cron_ok :: "cron \<Rightarrow> bool" where
  "cron_ok c \<longleftrightarrow> field_ok 0 59 (c_minute c) \<and> field_ok 0 23 (c_hour c) \<and> field_ok 1 31 (c_dayOfMonth c) \<and>
     field_ok 1 12 (c_month c) \<and> field_ok 0 6 (c_dayOfWeek c)"

definition cron_sem :: "cron \<Rightarrow> wall \<Rightarrow> bool" where
  "cron_sem c w \<longleftrightarrow>
     field_sem 0 (c_minute c) (w_Minute w) \<and> field_sem 0 (c_hour c) (w_Hour w) \<and> field_sem 1 (c_month c) (w_Month w) \<and>
     (if c_dayOfMonth c \<noteq> Any \<and> c_dayOfWeek c \<noteq> Any
      then field_sem 1 (c_dayOfMonth c) (w_Day w) \<or> field_sem 0 (c_dayOfWeek c) (w_Weekday w)
      else field_sem 1 (c_dayOfMonth c) (w_Day w) \<and> field_sem 0 (c_dayOfWeek c) (w_Weekday w))"

subsection \<open>Ranges\<close>

lemma range_loop_plain:
  assumes "0 < step" "hi + step < 2 ^ 63" "0 \<le> i" "nat (hi - i) < n"
  shows "v \<in> set (range_loop n i hi step) \<longleftrightarrow> i \<le> v \<and> v \<le> hi \<and> step dvd v - i"
  using assms(3,4)
proof (induction n arbitrary: i)
  case (Suc n)
  show ?case
  proof (cases "i \<le> hi")
    case True
    have wrap: "wrap64 (i + step) = i + step" using True assms(1,2) Suc.prems(1) by (intro wrap64_id) linarith+
    have dvd: "step dvd v - i \<longleftrightarrow> step dvd v - (i + step)"
      using dvd_add_right_iff[of step "- step" "v - i"] by (simp add: algebra_simps)
    have "i + step \<le> v" if "i \<le> v" "v \<noteq> i" "step dvd v - i"
      using zdvd_imp_le[OF that(3)] that(1,2) by linarith
    moreover have "nat (hi - (i + step)) < n" if "i + step \<le> hi" using that Suc.prems(2) assms(1) by linarith
    ultimately show ?thesis
      using Suc.IH[of "i + step"] True Suc.prems assms(1) unfolding range_loop.simps wrap
      by (cases "i + step \<le> hi") (auto simp: dvd, (cases n; auto)+)
  qed auto
qed simp

text \<open>A step so large that the addition wraps leaves only the first value in the range.\<close>

lemma range_loop_wrapping:
  assumes "lo = 0 \<or> lo = 1" "lo \<le> hi" "hi \<le> 59" "2 ^ 63 \<le> hi + step" "step < 2 ^ 63"
  obtains vs where "\<And>n. range_loop (n + 4) lo hi step = lo # vs" "\<forall>v \<in> set vs. v < 0"
proof -
  have step: "2 ^ 63 - 59 \<le> step" using assms(3,4) by linarith
  define i where "i = wrap64 (lo + step)"
  show ?thesis
  proof (cases "lo + step < 2 ^ 63")
    case True
    then have "i = lo + step" unfolding i_def using assms(1) step by (intro wrap64_id) auto
    then have "\<not> i \<le> hi" using step assms(1,3) by auto
    then have "range_loop (m + 4) lo hi step = [lo]" for m
      using assms(2) by (simp add: i_def numeral_eq_Suc)
    then show ?thesis using that[of "[]"] by simp
  next
    case False
    then have eq: "lo = 1" "step = 2 ^ 63 - 1" using assms(1,5) by linarith+
    have "wrap64 (lo + step) = - (2 ^ 63)" "wrap64 (- (2 ^ 63) + step) = - 1" "wrap64 (- 1 + step) = 2 ^ 63 - 2"
      unfolding eq by (simp_all add: wrap64_def)
    then have "range_loop (m + 4) lo hi step = lo # [- (2 ^ 63), - 1]" for m
      using assms(2,3) eq(1) by (simp add: numeral_eq_Suc)
    then show ?thesis using that[of "[- (2 ^ 63), - 1]"] eq(1) by simp
  qed
qed

lemma makeRange_sem:
  assumes "lo = 0 \<or> lo = 1" "hi \<le> 59" "0 < step" "step < 2 ^ 63" "lo \<le> v" "v \<le> hi"
  shows "v \<in> set (makeRange lo hi step) \<longleftrightarrow> step dvd v - lo"
proof (cases "hi + step < 2 ^ 63")
  case True
  then show ?thesis
    using range_loop_plain[OF assms(3) True, of lo "nat (hi - lo) + 4" v] assms by (auto simp: makeRange_def)
next
  case False
  have le: "lo \<le> hi" and big: "2 ^ 63 \<le> hi + step" using assms(5,6) False by linarith+
  obtain vs where vs: "\<And>n. range_loop (n + 4) lo hi step = lo # vs" "\<forall>v \<in> set vs. v < 0"
    using range_loop_wrapping[OF assms(1) le assms(2) big assms(4)] by blast
  have "step dvd v - lo \<longleftrightarrow> v = lo"
  proof
    assume dvd: "step dvd v - lo"
    show "v = lo"
    proof (rule ccontr)
      assume "v \<noteq> lo"
      then have "step \<le> v - lo" using zdvd_imp_le[OF dvd] assms(5) by linarith
      then show False using assms(1,2,6) big by auto
    qed
  qed simp
  then show ?thesis using vs(1)[of "nat (hi - lo)"] vs(2) assms(1,5) by (auto simp: makeRange_def)
qed

lemma makeRange_interval:
  assumes "0 \<le> a" "b \<le> 59"
  shows "v \<in> set (makeRange a b 1) \<longleftrightarrow> a \<le> v \<and> v \<le> b"
  using range_loop_plain[of 1 b a "nat (b - a) + 4" v] assms by (simp add: makeRange_def)

text \<open>The fuel of \<open>makeRange\<close> is enough: more of it changes nothing.\<close>

lemma range_loop_mono:
  assumes "0 < step" "hi + step < 2 ^ 63" "0 \<le> i" "nat (hi - i) < n" "nat (hi - i) < m"
  shows "range_loop n i hi step = range_loop m i hi step"
  using assms(3-5)
proof (induction n arbitrary: i m)
  case (Suc n)
  then obtain m' where m: "m = Suc m'" by (cases m) auto
  show ?case
  proof (cases "i \<le> hi")
    case True
    have wrap: "wrap64 (i + step) = i + step" using True assms(1,2) Suc.prems(1) by (intro wrap64_id) linarith+
    show ?thesis
    proof (cases "i + step \<le> hi")
      case True
      then have "nat (hi - (i + step)) < n" "nat (hi - (i + step)) < m'" using Suc.prems(2,3) assms(1) m by linarith+
      then show ?thesis using Suc.IH[of "i + step" m'] Suc.prems(1) assms(1) wrap m by simp
    next
      case False
      then show ?thesis using wrap m by (cases n; cases m') simp_all
    qed
  qed (simp add: m)
qed simp

lemma makeRange_enough_fuel:
  assumes "lo = 0 \<or> lo = 1" "lo \<le> hi" "hi \<le> 59" "0 < step" "step < 2 ^ 63" "nat (hi - lo) + 4 \<le> n"
  shows "range_loop n lo hi step = makeRange lo hi step"
proof (cases "hi + step < 2 ^ 63")
  case True
  then show ?thesis unfolding makeRange_def using assms by (intro range_loop_mono) auto
next
  case False
  then have big: "2 ^ 63 \<le> hi + step" by simp
  obtain vs where vs: "\<And>n. range_loop (n + 4) lo hi step = lo # vs"
    using range_loop_wrapping[OF assms(1-3) big assms(5)] by blast
  from vs[of "n - 4"] vs[of "nat (hi - lo)"] show ?thesis using assms(6) by (simp add: makeRange_def)
qed

subsection \<open>Printed expressions parse\<close>

definition visible :: "string \<Rightarrow> bool" where
  "visible w \<longleftrightarrow> w \<noteq> [] \<and> (\<forall>c \<in> set w. 33 \<le> byte_of c \<and> byte_of c < 128)"

lemma space_width_visible: "33 \<le> byte_of c \<Longrightarrow> byte_of c < 128 \<Longrightarrow> space_width (c # s) = 0"
  by (simp add: space_width_def)

lemma space_width_space: "space_width (CHR '' '' # s) = 1"
  by (simp add: space_width_def byte_of_def)

lemma fields_from_word:
  "\<forall>c \<in> set w. 33 \<le> byte_of c \<and> byte_of c < 128 \<Longrightarrow> fields_from 0 acc (w @ s) = fields_from 0 (acc @ w) s"
  by (induction w arbitrary: acc) (simp_all add: space_width_visible)

lemma Fields_word: "visible w \<Longrightarrow> Fields w = [w]"
  using fields_from_word[of w "[]" "[]"] by (simp add: visible_def Fields_def)

lemma Fields_space: "visible w \<Longrightarrow> Fields (w @ CHR '' '' # s) = w # Fields s"
  using fields_from_word[of w "[]" "CHR '' '' # s"] by (simp add: visible_def Fields_def space_width_space)

lemma visible_FormatInt: "visible (FormatInt i)"
  unfolding visible_def using FormatInt_bytes[of _ i] by fastforce

lemma visible_append: "visible v \<Longrightarrow> visible w \<Longrightarrow> visible (v @ w)"
  by (auto simp: visible_def)

lemma visible_Cons: "33 \<le> byte_of c \<Longrightarrow> byte_of c < 128 \<Longrightarrow> visible w \<Longrightarrow> visible (c # w)"
  by (simp add: visible_def)

lemma punctuation: "byte_of (CHR ''-'') = 45" "byte_of (CHR '','') = 44" "byte_of (CHR ''*'') = 42" "byte_of (CHR ''/'') = 47"
  by (simp_all add: byte_of_def)

lemma visible_join: "ws \<noteq> [] \<Longrightarrow> \<forall>w \<in> set ws. visible w \<Longrightarrow> visible (join_byte (CHR '','') ws)"
proof (induction ws)
  case (Cons w ws)
  then show ?case
    by (cases "ws = []") (auto simp: join_byte_Cons punctuation intro!: visible_append visible_Cons)
qed simp

lemma visible_print_field: "field_ok lo hi f \<Longrightarrow> visible (print_field f)"
proof (cases f)
  case Any
  then show ?thesis by (simp add: visible_def punctuation)
next
  case (Every n)
  then show ?thesis by (auto simp: punctuation intro!: visible_Cons visible_FormatInt)
next
  case (Between a b)
  then show ?thesis by (auto simp: punctuation intro!: visible_append visible_Cons visible_FormatInt)
next
  case (OneOf vs)
  then show "field_ok lo hi f \<Longrightarrow> ?thesis" by (auto intro!: visible_join visible_FormatInt)
qed

lemma FormatInt_free:
  assumes "0 \<le> i"
  shows "CHR ''-'' \<notin> set (FormatInt i)" "CHR '','' \<notin> set (FormatInt i)" "CHR ''*'' \<notin> set (FormatInt i)"
proof -
  have "48 \<le> byte_of c" if "c \<in> set (FormatInt i)" for c
    using that decimal_bytes[of c "nat i"] assms by (simp add: FormatInt_def)
  from this[of "CHR ''-''"] this[of "CHR '',''"] this[of "CHR ''*''"]
  show "CHR ''-'' \<notin> set (FormatInt i)" "CHR '','' \<notin> set (FormatInt i)" "CHR ''*'' \<notin> set (FormatInt i)"
    by (auto simp: punctuation)
qed

lemma Atoi_FormatInt: "0 \<le> i \<Longrightarrow> i < 2 ^ 63 \<Longrightarrow> Atoi (FormatInt i) = Some i"
  by (simp add: Atoi_def ParseInt_FormatInt)

lemma parseList_print:
  "0 \<le> lo \<Longrightarrow> hi \<le> 59 \<Longrightarrow> \<forall>v \<in> set vs. lo \<le> v \<and> v \<le> hi \<Longrightarrow> parseList (map FormatInt vs) lo hi = Inr vs"
  by (induction vs) (simp_all add: Atoi_FormatInt)

lemma join_free: "\<forall>w \<in> set ws. c \<notin> set w \<Longrightarrow> c \<noteq> d \<Longrightarrow> c \<notin> set (join_byte d ws)"
  by (induction d ws rule: join_byte.induct) auto

lemma not_star:
  assumes "s \<noteq> []" "CHR ''*'' \<notin> set s"
  shows "s \<noteq> ''*''" "\<not> has_prefix s ''*/''"
  using assms by (cases s; auto simp: has_prefix_def)+

lemma parseField_print:
  assumes ok: "field_ok lo hi f" and bounds: "lo = 0 \<or> lo = 1" "hi \<le> 59"
  obtains vs where "parseField (print_field f) lo hi = Inr vs"
    "\<And>v. lo \<le> v \<Longrightarrow> v \<le> hi \<Longrightarrow> v \<in> set vs \<longleftrightarrow> field_sem lo f v"
proof (cases f)
  case Any
  then have "parseField (print_field f) lo hi = Inr (makeRange lo hi 1)" by (simp add: parseField_def)
  with that[of "makeRange lo hi 1"] show ?thesis using Any makeRange_sem[OF bounds, of 1] by simp
next
  case (Every n)
  then have n: "0 < n" "n < 2 ^ 63" using ok by simp_all
  then have "parseField (print_field f) lo hi = Inr (makeRange lo hi n)"
    using Every Atoi_FormatInt[of n] by (simp add: parseField_def has_prefix_def)
  with that[of "makeRange lo hi n"] show ?thesis using Every makeRange_sem[OF bounds n] by simp
next
  case (Between a b)
  then have ab: "lo \<le> a" "a \<le> b" "b \<le> hi" "0 \<le> a" "0 \<le> b" "a < 2 ^ 63" "b < 2 ^ 63" using ok bounds by auto
  let ?s = "FormatInt a @ CHR ''-'' # FormatInt b"
  have "?s \<noteq> ''*''" "\<not> has_prefix ?s ''*/''"
    using not_star[of ?s] FormatInt_free(3)[OF ab(4)] FormatInt_free(3)[OF ab(5)] by simp_all
  moreover have "split_byte (CHR ''-'') ?s = [FormatInt a, FormatInt b]"
    using split_byte_append[OF FormatInt_free(1)[OF ab(4)]] split_byte_atom[OF FormatInt_free(1)[OF ab(5)]] by simp
  ultimately have "parseField ?s lo hi = Inr (makeRange a b 1)"
    using ab Atoi_FormatInt[of a] Atoi_FormatInt[of b] by (simp add: parseField_def)
  with that[of "makeRange a b 1"] show ?thesis
    using Between makeRange_interval[of a b] ab(3,4) bounds(2) by simp
next
  case (OneOf vs)
  then have vs: "vs \<noteq> []" "\<forall>v \<in> set vs. lo \<le> v \<and> v \<le> hi" using ok by simp_all
  let ?s = "join_byte (CHR '','') (map FormatInt vs)"
  have nonneg: "0 \<le> v" if "v \<in> set vs" for v using vs(2) bounds(1) that by fastforce
  have "CHR ''-'' \<notin> set ?s" "CHR ''*'' \<notin> set ?s"
    by (rule join_free; use nonneg FormatInt_free in simp)+
  moreover have "?s \<noteq> []" using visible_join[of "map FormatInt vs"] vs(1) visible_FormatInt by (auto simp: visible_def)
  moreover have split: "split_byte (CHR '','') ?s = map FormatInt vs"
    using split_join[of "map FormatInt vs" "CHR '',''"] vs(1) nonneg FormatInt_free(2) by auto
  moreover have list: "parseList (map FormatInt vs) lo hi = Inr vs" using parseList_print vs(2) bounds by auto
  moreover have "parseField ?s lo hi = Inr vs" if "CHR '','' \<notin> set ?s"
  proof -
    have "map FormatInt vs = [?s]" using split split_byte_atom[OF that] by simp
    then obtain v where v: "vs = [v]" by (cases vs) auto
    then show ?thesis using calculation vs(2) nonneg[of v] Atoi_FormatInt[of v] bounds not_star[of ?s]
      by (auto simp: parseField_def)
  qed
  ultimately have "parseField ?s lo hi = Inr vs"
    using not_star[of ?s] by (cases "CHR '','' \<in> set ?s") (simp_all add: parseField_def)
  with that[of vs] show ?thesis using OneOf by simp
qed

lemma print_field_star: "field_ok lo hi f \<Longrightarrow> 0 \<le> lo \<Longrightarrow> print_field f = ''*'' \<longleftrightarrow> f = Any"
proof (cases f)
  case (Between a b)
  assume "field_ok lo hi f" "0 \<le> lo"
  then have "CHR ''*'' \<notin> set (print_field f)"
    using Between FormatInt_free(3)[of a] FormatInt_free(3)[of b] by simp
  then have "print_field f \<noteq> ''*''" by (metis list.set_intros(1))
  then show ?thesis using Between by blast
next
  case (OneOf vs)
  assume ok: "field_ok lo hi f" "0 \<le> lo"
  have "CHR ''*'' \<notin> set (join_byte (CHR '','') (map FormatInt vs))"
    using ok OneOf FormatInt_free(3) by (intro join_free) auto
  then have "print_field f \<noteq> ''*''" using OneOf by (metis list.set_intros(1) print_field.simps(4))
  then show ?thesis using OneOf by blast
qed auto

lemma named_expression_space:
  assumes "CHR '' '' \<in> set expr"
  shows "named_expression expr = expr"
proof -
  have differs: "expr \<noteq> name" if "CHR '' '' \<notin> set name" for name using assms that by metis
  have "expr \<noteq> ''@yearly''" "expr \<noteq> ''@annually''" "expr \<noteq> ''@monthly''" "expr \<noteq> ''@weekly''"
    "expr \<noteq> ''@daily''" "expr \<noteq> ''@midnight''" "expr \<noteq> ''@hourly''"
    by (rule differs, simp)+
  then show ?thesis by (simp only: named_expression_def if_False simp_thms)
qed

lemma Fields_print_cron:
  assumes "cron_ok c"
  shows "Fields (print_cron c) = [print_field (c_minute c), print_field (c_hour c), print_field (c_dayOfMonth c),
    print_field (c_month c), print_field (c_dayOfWeek c)]"
  using assms visible_print_field by (auto simp: cron_ok_def print_cron_def Fields_space Fields_word)

definition implements :: "Expression \<Rightarrow> cron \<Rightarrow> bool" where
  "implements e c \<longleftrightarrow> e_raw e = print_cron c \<and>
     (\<forall>v \<in> {0..59}. v \<in> set (e_minute e) \<longleftrightarrow> field_sem 0 (c_minute c) v) \<and>
     (\<forall>v \<in> {0..23}. v \<in> set (e_hour e) \<longleftrightarrow> field_sem 0 (c_hour c) v) \<and>
     (\<forall>v \<in> {1..31}. v \<in> set (e_dayOfMonth e) \<longleftrightarrow> field_sem 1 (c_dayOfMonth c) v) \<and>
     (\<forall>v \<in> {1..12}. v \<in> set (e_month e) \<longleftrightarrow> field_sem 1 (c_month c) v) \<and>
     (\<forall>v \<in> {0..6}. v \<in> set (e_dayOfWeek e) \<longleftrightarrow> field_sem 0 (c_dayOfWeek c) v)"

lemma parseField_printed:
  assumes "field_ok lo hi f" "lo = 0 \<or> lo = 1" "hi \<le> 59"
  shows "\<exists>vs. parseField (print_field f) lo hi = Inr vs \<and> (\<forall>v \<in> {lo..hi}. v \<in> set vs \<longleftrightarrow> field_sem lo f v)"
proof (rule parseField_print[OF assms])
  fix vs
  assume "parseField (print_field f) lo hi = Inr vs" "\<And>v. lo \<le> v \<Longrightarrow> v \<le> hi \<Longrightarrow> v \<in> set vs \<longleftrightarrow> field_sem lo f v"
  then show ?thesis by (intro exI[of _ vs]) simp
qed

lemma ParseExpression_print:
  assumes "cron_ok c"
  shows "\<exists>e. ParseExpression (print_cron c) = Inr e \<and> implements e c"
proof -
  have ok: "field_ok 0 59 (c_minute c)" "field_ok 0 23 (c_hour c)" "field_ok 1 31 (c_dayOfMonth c)"
    "field_ok 1 12 (c_month c)" "field_ok 0 6 (c_dayOfWeek c)" using assms by (simp_all add: cron_ok_def)
  obtain mi where mi: "parseField (print_field (c_minute c)) 0 59 = Inr mi" "\<forall>v \<in> {0..59}. v \<in> set mi \<longleftrightarrow> field_sem 0 (c_minute c) v"
    using parseField_printed[OF ok(1)] by fastforce
  obtain h where h: "parseField (print_field (c_hour c)) 0 23 = Inr h" "\<forall>v \<in> {0..23}. v \<in> set h \<longleftrightarrow> field_sem 0 (c_hour c) v"
    using parseField_printed[OF ok(2)] by fastforce
  obtain d where d: "parseField (print_field (c_dayOfMonth c)) 1 31 = Inr d" "\<forall>v \<in> {1..31}. v \<in> set d \<longleftrightarrow> field_sem 1 (c_dayOfMonth c) v"
    using parseField_printed[OF ok(3)] by fastforce
  obtain mo where mo: "parseField (print_field (c_month c)) 1 12 = Inr mo" "\<forall>v \<in> {1..12}. v \<in> set mo \<longleftrightarrow> field_sem 1 (c_month c) v"
    using parseField_printed[OF ok(4)] by fastforce
  obtain wd where wd: "parseField (print_field (c_dayOfWeek c)) 0 6 = Inr wd" "\<forall>v \<in> {0..6}. v \<in> set wd \<longleftrightarrow> field_sem 0 (c_dayOfWeek c) v"
    using parseField_printed[OF ok(5)] by fastforce
  let ?e = "\<lparr>e_minute = mi, e_hour = h, e_dayOfMonth = d, e_month = mo, e_dayOfWeek = wd, e_raw = print_cron c\<rparr>"
  have "named_expression (print_cron c) = print_cron c" by (rule named_expression_space) (simp add: print_cron_def)
  then have "ParseExpression (print_cron c) = Inr ?e"
    using mi(1) h(1) d(1) mo(1) wd(1) by (simp add: ParseExpression_def Fields_print_cron[OF assms] in_field_def Let_def)
  moreover have "implements ?e c" using mi(2) h(2) d(2) mo(2) wd(2) by (simp add: implements_def)
  ultimately show ?thesis by blast
qed

lemma parsed_field_nonempty:
  assumes "field_ok lo hi f" "lo \<le> hi" "0 \<le> lo" "hi \<le> 59"
  shows "\<exists>v. lo \<le> v \<and> v \<le> hi \<and> field_sem lo f v"
  using assms by (cases f) (auto simp: neq_Nil_conv intro: exI[of _ lo])

lemma expr_IsDue_print:
  assumes ok: "cron_ok c" and e: "implements e c"
  shows "expr_IsDue e loc t \<longleftrightarrow> cron_sem c (wall_clock loc t)"
proof -
  note ok' = ok[unfolded cron_ok_def] and e' = e[unfolded implements_def]
  obtain d wd where "d \<in> {1..31}" "field_sem 1 (c_dayOfMonth c) d" "wd \<in> {0..6}" "field_sem 0 (c_dayOfWeek c) wd"
    using parsed_field_nonempty[of 1 31 "c_dayOfMonth c"] parsed_field_nonempty[of 0 6 "c_dayOfWeek c"] ok' by auto
  then have "d \<in> set (e_dayOfMonth e)" "wd \<in> set (e_dayOfWeek e)" using e' by simp_all
  then have full: "e_dayOfMonth e \<noteq> []" "e_dayOfWeek e \<noteq> []" by auto
  have star: "print_field (c_dayOfMonth c) = ''*'' \<longleftrightarrow> c_dayOfMonth c = Any" "print_field (c_dayOfWeek c) = ''*'' \<longleftrightarrow> c_dayOfWeek c = Any"
    using print_field_star[of 1 31] print_field_star[of 0 6] ok' by simp_all
  define w where "w = wall_clock loc t"
  have w: "w_Minute w \<in> set (e_minute e) \<longleftrightarrow> field_sem 0 (c_minute c) (w_Minute w)"
    "w_Hour w \<in> set (e_hour e) \<longleftrightarrow> field_sem 0 (c_hour c) (w_Hour w)"
    "w_Day w \<in> set (e_dayOfMonth e) \<longleftrightarrow> field_sem 1 (c_dayOfMonth c) (w_Day w)"
    "w_Month w \<in> set (e_month e) \<longleftrightarrow> field_sem 1 (c_month c) (w_Month w)"
    "w_Weekday w \<in> set (e_dayOfWeek e) \<longleftrightarrow> field_sem 0 (c_dayOfWeek c) (w_Weekday w)"
    using wall_clock_ranges[of loc t] e' unfolding w_def by simp_all
  have raw: "e_raw e = print_cron c" "print_cron c \<noteq> []" using e' by (simp_all add: print_cron_def)
  define fields where "fields = Fields (print_cron c)"
  have fields: "length fields \<ge> 5" "fields ! 2 = ''*'' \<longleftrightarrow> c_dayOfMonth c = Any" "fields ! 4 = ''*'' \<longleftrightarrow> c_dayOfWeek c = Any"
    unfolding fields_def Fields_print_cron[OF ok] using star by simp_all
  show ?thesis
    unfolding expr_IsDue_def cron_sem_def Let_def w_def[symmetric] raw(1) fields_def[symmetric]
    using w full fields raw(2) by (cases "c_dayOfMonth c = Any"; cases "c_dayOfWeek c = Any") simp_all
qed

subsection \<open>The next run\<close>

lemma next_loop_finds:
  assumes "k < n" "expr_IsDue e loc (t + int k * minute)"
  obtains j where "j \<le> k" "next_loop n e loc t = t + int j * minute" "expr_IsDue e loc (t + int j * minute)"
    "\<forall>i < j. \<not> expr_IsDue e loc (t + int i * minute)"
  using assms
proof (induction n arbitrary: t k thesis)
  case (Suc n)
  show ?case
  proof (cases "expr_IsDue e loc t")
    case True
    then show ?thesis using Suc.prems(1)[of 0] by simp
  next
    case False
    then obtain k' where k: "k = Suc k'" using Suc.prems(3) by (cases k) auto
    have shift: "t + minute + int i * minute = t + int (Suc i) * minute" for i by (simp add: algebra_simps)
    obtain j where j: "j \<le> k'" "next_loop n e loc (t + minute) = t + int (Suc j) * minute"
      "expr_IsDue e loc (t + int (Suc j) * minute)" "\<forall>i < j. \<not> expr_IsDue e loc (t + int (Suc i) * minute)"
      using Suc.IH[of k' "t + minute"] Suc.prems(2,3) unfolding k shift by auto
    show ?thesis
    proof (rule Suc.prems(1)[of "Suc j"])
      show "\<forall>i < Suc j. \<not> expr_IsDue e loc (t + int i * minute)"
        using j(4) False by (auto simp: less_Suc_eq_0_disj simp del: of_nat_Suc)
    qed (use j k False in simp_all)
  qed
qed simp

lemma next_loop_none:
  "\<forall>k < n. \<not> expr_IsDue e loc (t + int k * minute) \<Longrightarrow> next_loop n e loc t = zeroTime"
proof (induction n arbitrary: t)
  case (Suc n)
  have "\<not> expr_IsDue e loc (t + minute + int k * minute)" if "k < n" for k
    using Suc.prems[rule_format, of "Suc k"] that by (simp add: algebra_simps)
  moreover have "\<not> expr_IsDue e loc t" using Suc.prems[rule_format, of 0] by simp
  ultimately show ?case using Suc.IH by simp
qed simp

lemma sched_Cron_print:
  assumes "cron_ok c" "s_validationErr s = []"
  shows "s_expression (sched_Cron (print_cron c) s) = print_cron c" "s_validationErr (sched_Cron (print_cron c) s) = []"
proof -
  show "s_expression (sched_Cron (print_cron c) s) = print_cron c" "s_validationErr (sched_Cron (print_cron c) s) = []"
    using assms(2) ParseExpression_print[OF assms(1)] by (auto simp: sched_Cron_def Let_def)
qed

lemma print_cron_nonempty: "print_cron c \<noteq> []"
  by (simp add: print_cron_def)

text \<open>C20: a schedule set from a well-formed cron specification is accepted without a validation
  error and is due, at any instant in any time zone, exactly when the specification matches the
  wall clock there; steps, ranges, lists and the rule that a day of the month and a day of the week
  that are both restricted match when either does are those of the specification.\<close>

theorem cron_meaning:
  assumes "cron_ok c"
  shows "s_validationErr (sched_Cron (print_cron c) NewSchedule) = [] \<and>
    (fst (sched_IsDue (sched_Cron (print_cron c) NewSchedule) loc t) \<longleftrightarrow> cron_sem c (wall_clock loc t))"
proof
  have new: "s_validationErr NewSchedule = []" by (simp add: NewSchedule_def)
  note set = sched_Cron_print[OF assms new]
  show "s_validationErr (sched_Cron (print_cron c) NewSchedule) = []" by (rule set(2))
  obtain e where e: "ParseExpression (print_cron c) = Inr e" "implements e c" using ParseExpression_print[OF assms] by blast
  then show "fst (sched_IsDue (sched_Cron (print_cron c) NewSchedule) loc t) \<longleftrightarrow> cron_sem c (wall_clock loc t)"
    using expr_IsDue_print[OF assms e(2)] set print_cron_nonempty[of c] by (simp add: sched_IsDue_def Let_def)
qed

definition demo_cron :: cron where
  "demo_cron = \<lparr>c_minute = Every 15, c_hour = Between 9 17, c_dayOfMonth = OneOf [1, 15], c_month = Any, c_dayOfWeek = OneOf [1]\<rparr>"

lemma demo_cron_ok: "cron_ok demo_cron"
  by (simp add: demo_cron_def cron_ok_def)

theorem cron_meaning_witness:
  "fst (sched_IsDue (sched_Cron (print_cron demo_cron) NewSchedule) UTC (1767258900 * second)) = True"
proof -
  have "cron_sem demo_cron (wall_clock UTC (1767258900 * second))" by code_simp
  then show ?thesis using cron_meaning[OF demo_cron_ok] by blast
qed

lemma wall_of_minutes:
  "w_Minute (wall_of_seconds (60 * m)) = m mod 60" "w_Hour (wall_of_seconds (60 * m)) = m mod 1440 div 60"
  "w_Weekday (wall_of_seconds (60 * m)) = (m div 1440 + 719163) mod 7"
proof -
  have "60 * m mod 3600 = 60 * (m mod 60)" "60 * m mod 86400 = 60 * (m mod 1440)" "60 * m div 86400 = m div 1440"
    using mult_mod_right[of 60 m 60] mult_mod_right[of 60 m 1440] div_mult_mult1[of 60 m 1440] by simp_all
  moreover have "60 * (m mod 1440) div 3600 = m mod 1440 div 60" using div_mult_mult1[of 60 "m mod 1440" 60] by simp
  ultimately show "w_Minute (wall_of_seconds (60 * m)) = m mod 60" "w_Hour (wall_of_seconds (60 * m)) = m mod 1440 div 60"
    "w_Weekday (wall_of_seconds (60 * m)) = (m div 1440 + 719163) mod 7"
    by (simp_all add: wall_of_seconds_def split_beta Let_def add.commute)
qed

text \<open>Every minute of the week comes up within the next 10080 minutes.\<close>

lemma week_has_minute:
  fixes m0 :: int
  assumes "0 \<le> mi" "mi \<le> 59" "0 \<le> h" "h \<le> 23" "0 \<le> wd" "wd \<le> 6"
  obtains k :: nat where "k < 10080" "(m0 + int k) mod 60 = mi" "(m0 + int k) mod 1440 div 60 = h"
    "((m0 + int k) div 1440 + 719163) mod 7 = wd"
proof -
  define d where "d = (wd - 719163) mod 7"
  define x where "x = 1440 * d + 60 * h + mi"
  define k where "k = nat ((x - m0) mod 10080)"
  have d: "0 \<le> d" "d < 7" by (simp_all add: d_def)
  define q where "q = - ((x - m0) div 10080)"
  define r where "r = (wd - 719163) div 7"
  have "x - m0 = 10080 * ((x - m0) div 10080) + int k" by (simp add: k_def)
  then have q: "m0 + int k = x + 10080 * q" unfolding q_def by linarith
  have "wd - 719163 = 7 * r + d" by (simp add: d_def r_def)
  then have r: "d + 7 * q + 719163 = wd + 7 * (q - r)" by (simp add: algebra_simps)
  have "(m0 + int k) mod 60 = mi"
    using assms(1,2) mod_mult_self2[of mi 60 "24 * d + h + 168 * q"] unfolding q x_def by (simp add: algebra_simps)
  moreover have "m0 + int k = 1440 * (d + 7 * q) + (60 * h + mi)" unfolding q x_def by simp
  then have "(m0 + int k) div 1440 = d + 7 * q" "(m0 + int k) mod 1440 = 60 * h + mi"
    using int_div_pos_eq[of "m0 + int k" 1440 "d + 7 * q" "60 * h + mi"] int_mod_pos_eq[of "m0 + int k" 1440 "d + 7 * q" "60 * h + mi"]
      assms by simp_all
  moreover have "(60 * h + mi) div 60 = h" using int_div_pos_eq[of "60 * h + mi" 60 h mi] assms by simp
  moreover have "(d + 7 * q + 719163) mod 7 = wd"
    using assms(5,6) mod_mult_self2[of wd 7 "q - r"] unfolding r by simp
  moreover have "k < 10080" unfolding k_def by (simp add: nat_less_iff)
  ultimately show ?thesis using that[of k] by simp
qed

lemma next_minute: "from - from mod minute + minute = minute * (from div minute + 1)"
  using minus_mod_eq_mult_div[of "from" minute] by (simp add: algebra_simps)

lemma whole_minutes: "minute * x div second = 60 * x"
  by (simp add: minute_def second_def)

lemma next_minute_bounds: "from < from - from mod minute + minute" "from - from mod minute + minute \<le> from + minute"
  using pos_mod_bound[of minute "from"] pos_mod_sign[of minute "from"] by simp_all

lemma NextRun_print:
  assumes "cron_ok c"
  obtains e where "implements e c" "fst (NextRun (sched_Cron (print_cron c) NewSchedule) loc from) = Next e loc from"
proof -
  obtain e where e: "ParseExpression (print_cron c) = Inr e" "implements e c" using ParseExpression_print[OF assms] by blast
  have "s_validationErr NewSchedule = []" by (simp add: NewSchedule_def)
  from sched_Cron_print(1)[OF assms this] e(1) print_cron_nonempty
  have "fst (NextRun (sched_Cron (print_cron c) NewSchedule) loc from) = Next e loc from"
    by (simp add: NextRun_def Let_def)
  with that e(2) show ?thesis by blast
qed

text \<open>The next run is the first minute after the given time at which the specification matches, if
  there is one within the horizon of the search.\<close>

lemma NextRun_first:
  assumes ok: "cron_ok c" and k: "k < maxIterations" "cron_sem c (wall_clock loc (minute * (from div minute + 1 + int k)))"
  obtains j where "j \<le> k" "fst (NextRun (sched_Cron (print_cron c) NewSchedule) loc from) = minute * (from div minute + 1 + int j)"
    "cron_sem c (wall_clock loc (minute * (from div minute + 1 + int j)))"
    "\<forall>i < j. \<not> cron_sem c (wall_clock loc (minute * (from div minute + 1 + int i)))"
proof -
  obtain e where e: "implements e c" "fst (NextRun (sched_Cron (print_cron c) NewSchedule) loc from) = Next e loc from"
    using NextRun_print[OF ok] by blast
  have at: "minute * (from div minute + 1) + int i * minute = minute * (from div minute + 1 + int i)" for i
    by (simp add: algebra_simps)
  have due: "expr_IsDue e loc (minute * (from div minute + 1) + int i * minute) \<longleftrightarrow>
      cron_sem c (wall_clock loc (minute * (from div minute + 1 + int i)))" for i
    unfolding at by (rule expr_IsDue_print[OF ok e(1)])
  obtain j where "j \<le> k" "next_loop maxIterations e loc (minute * (from div minute + 1)) = minute * (from div minute + 1) + int j * minute"
    "expr_IsDue e loc (minute * (from div minute + 1) + int j * minute)"
    "\<forall>i < j. \<not> expr_IsDue e loc (minute * (from div minute + 1) + int i * minute)"
    by (rule next_loop_finds[OF k(1), of e loc "minute * (from div minute + 1)"]) (use k(2) due in auto)
  then show ?thesis using that[of j] e(2) unfolding due unfolding at by (simp add: Next_def next_minute)
qed


definition weekly_cron :: cron where
  "weekly_cron = \<lparr>c_minute = Every 15, c_hour = Between 9 17, c_dayOfMonth = Any, c_month = Any, c_dayOfWeek = OneOf [1]\<rparr>"


subsection \<open>What the parser returns\<close>

definition field_wf :: "int \<Rightarrow> int \<Rightarrow> int list \<Rightarrow> bool" where
  "field_wf lo hi vs \<longleftrightarrow> vs \<noteq> [] \<and> lo \<le> hd vs \<and> (\<forall>v \<in> set vs. v \<le> hi \<and> (lo \<le> v \<or> v < 0))"

lemma ParseInt_range:
  assumes "ParseInt s = Some n"
  shows "n < 2 ^ 63"
  using assms by (auto simp: ParseInt_def Let_def split: list.splits option.splits if_splits)

lemma makeRange_wf:
  assumes "lo = 0 \<or> lo = 1" "lo \<le> hi" "hi \<le> 59" "0 < step" "step < 2 ^ 63"
  shows "field_wf lo hi (makeRange lo hi step)"
proof (cases "hi + step < 2 ^ 63")
  case True
  have "makeRange lo hi step = lo # range_loop (nat (hi - lo) + 3) (wrap64 (lo + step)) hi step"
    using assms(2) by (simp add: makeRange_def numeral_eq_Suc)
  moreover have "lo \<le> v \<and> v \<le> hi" if "v \<in> set (makeRange lo hi step)" for v
    using that range_loop_plain[OF assms(4) True, of lo "nat (hi - lo) + 4" v] assms(1) by (auto simp: makeRange_def)
  ultimately show ?thesis by (simp add: field_wf_def)
next
  case False
  then have big: "2 ^ 63 \<le> hi + step" by simp
  obtain vs where vs: "\<And>n. range_loop (n + 4) lo hi step = lo # vs" "\<forall>v \<in> set vs. v < 0"
    using range_loop_wrapping[OF assms(1-3) big assms(5)] by blast
  then show ?thesis using vs(1)[of "nat (hi - lo)"] assms(1,2) by (auto simp: field_wf_def makeRange_def)
qed

lemma makeRange_interval_wf:
  assumes "0 \<le> lo" "lo \<le> a" "a \<le> b" "b \<le> hi" "hi \<le> 59"
  shows "field_wf lo hi (makeRange a b 1)"
proof -
  have "makeRange a b 1 = a # range_loop (nat (b - a) + 3) (wrap64 (a + 1)) b 1"
    using assms(3) by (simp add: makeRange_def numeral_eq_Suc)
  then show ?thesis using makeRange_interval[of a b] assms by (auto simp: field_wf_def)
qed

lemma parseList_wf:
  "parseList parts lo hi = Inr vs \<Longrightarrow> parts \<noteq> [] \<Longrightarrow> vs \<noteq> [] \<and> (\<forall>v \<in> set vs. lo \<le> v \<and> v \<le> hi)"
proof (induction parts arbitrary: vs)
  case (Cons part parts)
  then show ?case by (cases "parts = []") (auto split: option.splits if_splits sum.splits)
qed simp

lemma parseField_wf:
  assumes parse: "parseField f lo hi = Inr vs" and b: "lo = 0 \<or> lo = 1" "lo \<le> hi" "hi \<le> 59"
  shows "field_wf lo hi vs"
proof -
  have b': "0 \<le> lo" using b(1) by auto
  consider (star) "f = ''*''" | (step) "f \<noteq> ''*''" "has_prefix f ''*/''"
    | (interval) "f \<noteq> ''*''" "\<not> has_prefix f ''*/''" "CHR ''-'' \<in> set f"
    | (listed) "f \<noteq> ''*''" "\<not> has_prefix f ''*/''" "CHR ''-'' \<notin> set f" "CHR '','' \<in> set f"
    | (single) "f \<noteq> ''*''" "\<not> has_prefix f ''*/''" "CHR ''-'' \<notin> set f" "CHR '','' \<notin> set f" by blast
  then show ?thesis
  proof cases
    case star
    then show ?thesis using parse makeRange_wf[OF b, of 1] by (simp add: parseField_def)
  next
    case step
    then obtain n where "ParseInt (drop 2 f) = Some n" "0 < n" "vs = makeRange lo hi n"
      using parse by (auto simp: parseField_def Atoi_def split: option.splits if_splits)
    then show ?thesis using makeRange_wf[OF b] ParseInt_range by blast
  next
    case interval
    then obtain start stop where "\<not> start < lo \<and> \<not> hi < stop \<and> \<not> stop < start" "vs = makeRange start stop 1"
      using parse unfolding parseField_def by (simp split: list.splits option.splits if_splits)
    then show ?thesis using makeRange_interval_wf[OF b' _ _ _ b(3)] by simp
  next
    case listed
    then have "parseList (split_byte (CHR '','') f) lo hi = Inr vs" using parse by (simp add: parseField_def)
    from parseList_wf[OF this split_byte_nonempty] show ?thesis by (auto simp: field_wf_def)
  next
    case single
    then obtain val where "lo \<le> val" "val \<le> hi" "vs = [val]"
      using parse by (auto simp: parseField_def split: option.splits if_splits)
    then show ?thesis by (simp add: field_wf_def)
  qed
qed

definition expression_wf :: "Expression \<Rightarrow> bool" where
  "expression_wf e \<longleftrightarrow> field_wf 0 59 (e_minute e) \<and> field_wf 0 23 (e_hour e) \<and> field_wf 1 31 (e_dayOfMonth e) \<and>
     field_wf 1 12 (e_month e) \<and> field_wf 0 6 (e_dayOfWeek e) \<and> length (Fields (e_raw e)) = 5"



subsection \<open>The horizon of the search\<close>

text \<open>The search stops after four times 365 days, one day before the next leap day: from the start of
  a leap day, a schedule for the twenty-ninth of February finds no next run.\<close>

definition leap_day_cron :: cron where
  "leap_day_cron = \<lparr>c_minute = OneOf [0], c_hour = OneOf [0], c_dayOfMonth = OneOf [29], c_month = OneOf [2], c_dayOfWeek = Any\<rparr>"


lemma days_before_year_mono:
  assumes "y \<le> y'"
  shows "days_before_year y \<le> days_before_year y'"
proof -
  have step: "days_before_year y \<le> days_before_year (y + 1)" for y
  proof -
    have "(y - 1) div 4 \<le> y div 4" "(y - 1) div 400 \<le> y div 400" by (simp_all add: zdiv_mono1)
    moreover have "y div 100 \<le> (y - 1 + 1 * 100) div 100" by (rule zdiv_mono1) simp_all
    then have "y div 100 \<le> (y - 1) div 100 + 1" by simp
    ultimately show ?thesis by (simp add: days_before_year_def)
  qed
  show ?thesis
    using assms by (induction y' rule: int_ge_induct) (use step in \<open>auto intro: order_trans\<close>)
qed

lemma no_leap_day:
  assumes "738885 < days_before_year y" "days_before_year y < 740346"
  shows "\<not> is_leap y"
proof -
  have "days_before_year 2024 = 738885" "days_before_year 2028 = 740346" by (simp_all add: days_before_year_def)
  then have "\<not> y \<le> 2024" "\<not> 2028 \<le> y"
    using days_before_year_mono[of y 2024] days_before_year_mono[of 2028 y] assms by linarith+
  then have "y = 2025 \<or> y = 2026 \<or> y = 2027" by linarith
  then show ?thesis by (auto simp: is_leap_def)
qed

lemma NextRun_misses_leap_day:
  "fst (NextRun (sched_Cron (print_cron leap_day_cron) NewSchedule) UTC (1709164800 * second)) = zeroTime"
proof -
  let ?from = "1709164800 * second"
  have ok: "cron_ok leap_day_cron" by (simp add: leap_day_cron_def cron_ok_def)
  obtain e where e: "implements e leap_day_cron"
    "fst (NextRun (sched_Cron (print_cron leap_day_cron) NewSchedule) UTC ?from) = Next e UTC ?from"
    using NextRun_print[OF ok] by blast
  have start: "?from - ?from mod minute + minute = minute * 28486081" by (simp add: minute_def second_def)
  have "\<not> expr_IsDue e UTC (minute * 28486081 + int k * minute)" if k: "k < maxIterations" for k
  proof
    define m where "m = 28486081 + int k"
    define w where "w = wall_of_seconds (60 * m)"
    assume "expr_IsDue e UTC (minute * 28486081 + int k * minute)"
    moreover have "minute * 28486081 + int k * minute = minute * m" by (simp add: m_def algebra_simps)
    ultimately have "cron_sem leap_day_cron (wall_clock UTC (minute * m))" using expr_IsDue_print[OF ok e(1)] by metis
    then have "cron_sem leap_day_cron w" by (simp only: wall_clock_def UTC_def whole_minutes add_0_right w_def)
    then have due: "w_Minute w = 0" "w_Hour w = 0" "w_Month w = 2" "w_Day w = 29"
      by (simp_all add: cron_sem_def leap_day_cron_def)
    have date: "29 \<le> month_lengths (w_Year w) ! 1" "day_number (w_Year w) 2 29 = 60 * m div 86400 + 719162"
      using wall_of_seconds_correct(3,4)[OF w_def] due(3,4) by simp_all
    have zero: "m mod 60 = 0" "m mod 1440 div 60 = 0" using due(1,2) unfolding w_def wall_of_minutes by simp_all
    have "m mod 1440 mod 60 = 0" using zero(1) mod_mod_cancel[of 60 1440 m] by simp
    then have "m mod 1440 = 0" using zero(2) div_mult_mod_eq[of "m mod 1440" 60] by simp
    then obtain q where m: "m = 1440 * q" by blast
    have "60 * m div 86400 = q" unfolding m by simp
    then have "days_before_year (w_Year w) = q + 719103"
      using date(2) by (simp add: day_number_def month_lengths_def)
    moreover have "28486081 \<le> m" "m \<le> 30588480" using k by (simp_all add: m_def maxIterations_def)
    then have "19782 < q" "q \<le> 21242" unfolding m by linarith+
    ultimately have "\<not> is_leap (w_Year w)" by (intro no_leap_day) linarith+
    then show False using date(1) by (simp add: month_lengths_def)
  qed
  then show ?thesis unfolding e(2) Next_def start by (intro next_loop_none) blast
qed

end
