(* ===== verification/Sched_Tick.thy ===== *)
theory Sched_Tick
  imports Cron
begin

text \<open>
  The tick of the scheduler with its locks: \<open>src/scheduler/job.go\<close>, \<open>src/scheduler/lock.go\<close> and the
  dispatch loop of \<open>src/scheduler/scheduler.go\<close>.

  A locker is the pair of an acquire and a release function on its state, as the interface \<open>Locker\<close>
  has it; \<open>InMemoryLocker\<close> is the one of the code. A \<open>When\<close> or \<open>Skip\<close> condition is user code: a
  function of the time whose value is \<open>None\<close> when it panics. One tick reads the clock once. A
  task is dispatched when its goroutine is started; what a task does is user code, and only its
  effect on the running flag and on its lock is kept.
\<close>

subsection \<open>Locks\<close>

datatype lock_error = ErrLockHeld string | LockerFailure string

record sched_lock =
  lk_name :: string
  lk_token :: nat

record inMemoryLock =
  im_token :: nat
  im_expires :: instant

record InMemoryLocker =
  il_token :: nat
  il_locks :: "string \<rightharpoonup> inMemoryLock"
  il_released :: "nat list"

definition NewInMemoryLocker :: InMemoryLocker where
  "NewInMemoryLocker = \<lparr>il_token = 0, il_locks = Map.empty, il_released = []\<rparr>"

type_synonym 'l acquire_fn = "instant \<Rightarrow> string \<Rightarrow> duration \<Rightarrow> 'l \<Rightarrow> (lock_error + sched_lock) \<times> 'l"
type_synonym 'l release_fn = "sched_lock \<Rightarrow> 'l \<Rightarrow> 'l"

definition locker_Acquire :: "InMemoryLocker acquire_fn" where
  "locker_Acquire now name ttl l =
     (if case il_locks l name of Some existing \<Rightarrow> now < im_expires existing | None \<Rightarrow> False
      then (Inl (ErrLockHeld name), l)
      else
        let tok = il_token l + 1
        in (Inr \<lparr>lk_name = name, lk_token = tok\<rparr>,
            l\<lparr>il_token := tok, il_locks := (il_locks l)(name \<mapsto> \<lparr>im_token = tok, im_expires = now + ttl\<rparr>)\<rparr>))"

definition locker_Release :: "InMemoryLocker release_fn" where
  "locker_Release lk l =
     (if lk_token lk \<in> set (il_released l) then l
      else
        let l = l\<lparr>il_released := lk_token lk # il_released l\<rparr>
        in case il_locks l (lk_name lk) of
             Some existing \<Rightarrow>
               if im_token existing = lk_token lk then l\<lparr>il_locks := (il_locks l)(lk_name lk := None)\<rparr> else l
           | None \<Rightarrow> l)"

subsection \<open>Jobs\<close>

type_synonym condition = "instant \<Rightarrow> bool option"

record sched_job =
  j_name :: string
  j_schedule :: Schedule
  j_withoutOverlapping :: bool
  j_withoutOverlappingTTL :: duration
  j_onOneServer :: bool
  j_evenInMaintenanceMode :: bool
  j_running :: bool
  j_timezone :: location
  j_lastFiredWallMinute :: string
  j_when :: "condition option"
  j_skip :: "condition option"
  j_between :: "string \<times> string"
  j_unlessBetween :: "string \<times> string"
  j_environments :: "string list"

definition pad :: "nat \<Rightarrow> int \<Rightarrow> string" where
  "pad width i =
     (let digits = decimal (nat \<bar>i\<bar>)
      in (if i < 0 then ''-'' else '''') @ replicate (width - length digits) (CHR ''0'') @ digits)"

definition wallMinuteKey :: "location \<Rightarrow> instant \<Rightarrow> string" where
  "wallMinuteKey loc t =
     (let w = wall_clock loc t
      in pad 4 (w_Year w) @ ''-'' @ pad 2 (w_Month w) @ ''-'' @ pad 2 (w_Day w) @ ''T'' @ pad 2 (w_Hour w) @ '':'' @ pad 2 (w_Minute w))"

definition clock_string :: "location \<Rightarrow> instant \<Rightarrow> string" where
  "clock_string loc t = (let w = wall_clock loc t in pad 2 (w_Hour w) @ '':'' @ pad 2 (w_Minute w))"

definition alreadyFiredAt :: "sched_job \<Rightarrow> location \<Rightarrow> instant \<Rightarrow> bool" where
  "alreadyFiredAt j loc t \<longleftrightarrow> j_lastFiredWallMinute j \<noteq> [] \<and> j_lastFiredWallMinute j = wallMinuteKey loc t"

definition markFired :: "location \<Rightarrow> instant \<Rightarrow> sched_job \<Rightarrow> sched_job" where
  "markFired loc t j = j\<lparr>j_lastFiredWallMinute := wallMinuteKey loc t\<rparr>"

fun string_le :: "string \<Rightarrow> string \<Rightarrow> bool" where
  "string_le [] _ \<longleftrightarrow> True"
| "string_le (_ # _) [] \<longleftrightarrow> False"
| "string_le (a # s) (b # t) \<longleftrightarrow> byte_of a < byte_of b \<or> a = b \<and> string_le s t"

definition withinDailyRange :: "string \<Rightarrow> string \<Rightarrow> string \<Rightarrow> bool" where
  "withinDailyRange now start stop =
     (if string_le start stop then string_le start now \<and> string_le now stop
      else string_le start now \<or> string_le now stop)"

definition callCondition :: "condition \<Rightarrow> instant \<Rightarrow> bool \<times> bool" where
  "callCondition cond now = (case cond now of Some r \<Rightarrow> (r, True) | None \<Rightarrow> (False, False))"

definition ShouldRun :: "string \<Rightarrow> instant \<Rightarrow> sched_job \<Rightarrow> bool" where
  "ShouldRun env now j =
     (if j_withoutOverlapping j \<and> j_running j then False
      else if (case j_when j of None \<Rightarrow> False | Some f \<Rightarrow> (case callCondition f now of (due, ok) \<Rightarrow> \<not> ok \<or> \<not> due)) then False
      else if (case j_skip j of None \<Rightarrow> False | Some f \<Rightarrow> (case callCondition f now of (skipped, ok) \<Rightarrow> \<not> ok \<or> skipped)) then False
      else
        let nowStr = clock_string (j_timezone j) now; (b1, b2) = j_between j; (u1, u2) = j_unlessBetween j in
        if b1 \<noteq> [] \<and> b2 \<noteq> [] \<and> \<not> withinDailyRange nowStr b1 b2 then False
        else if u1 \<noteq> [] \<and> u2 \<noteq> [] \<and> withinDailyRange nowStr u1 u2 then False
        else j_environments j = [] \<or> env \<in> set (j_environments j))"

definition job_IsDue :: "location \<Rightarrow> instant \<Rightarrow> sched_job \<Rightarrow> bool \<times> sched_job" where
  "job_IsDue loc now j = (case sched_IsDue (j_schedule j) loc now of (due, s) \<Rightarrow> (due, j\<lparr>j_schedule := s\<rparr>))"

definition overlapLockKey :: "sched_job \<Rightarrow> string" where
  "overlapLockKey j = ''velocity/scheduler/overlap:'' @ j_name j"

definition oneServerLockKey :: "sched_job \<Rightarrow> location \<Rightarrow> instant \<Rightarrow> string" where
  "oneServerLockKey j loc t = ''velocity/scheduler/oneserver:'' @ j_name j @ '':'' @ wallMinuteKey loc t"

definition effectiveOverlapTTL :: "sched_job \<Rightarrow> duration \<Rightarrow> duration" where
  "effectiveOverlapTTL j schedulerDefault =
     (if j_withoutOverlappingTTL j > 0 then j_withoutOverlappingTTL j
      else if schedulerDefault > 0 then schedulerDefault
      else 24 * 3600 * second)"

subsection \<open>The tick\<close>

record scheduler =
  sc_jobs :: "sched_job list"
  sc_timezone :: location
  sc_maintenanceMode :: bool
  sc_env :: string
  sc_oneServerTTL :: duration
  sc_overlapTTL :: duration

record task =
  tk_job :: string
  tk_time :: instant
  tk_oneServer :: "(sched_lock \<times> duration) option"
  tk_overlap :: "(sched_lock \<times> duration) option"

text \<open>Acquiring a lock that a job asks for; a failed acquire is \<open>None\<close>, a job that asks for no
  lock gets \<open>Some None\<close>.\<close>

definition acquire_if ::
  "'l acquire_fn \<Rightarrow> bool \<Rightarrow> instant \<Rightarrow> string \<Rightarrow> duration \<Rightarrow> 'l \<Rightarrow> sched_lock option option \<times> 'l" where
  "acquire_if acq wanted now key ttl l =
     (if \<not> wanted then (Some None, l)
      else (case acq now key ttl l of (Inl _, l) \<Rightarrow> (None, l) | (Inr lk, l) \<Rightarrow> (Some (Some lk), l)))"

definition dispatch_job ::
  "'l acquire_fn \<Rightarrow> 'l release_fn \<Rightarrow> scheduler \<Rightarrow> instant \<Rightarrow> sched_job \<Rightarrow> 'l \<Rightarrow> task option \<times> 'l" where
  "dispatch_job acq rel s now j l =
     (let key = oneServerLockKey j (sc_timezone s) now in
      case acquire_if acq (j_onOneServer j) now key (sc_oneServerTTL s) l of
        (None, l) \<Rightarrow> (None, l)
      | (Some oneServerLock, l) \<Rightarrow>
          let ttl = effectiveOverlapTTL j (sc_overlapTTL s) in
          (case acquire_if acq (j_withoutOverlapping j) now (overlapLockKey j) ttl l of
             (None, l) \<Rightarrow> (None, case oneServerLock of None \<Rightarrow> l | Some lk \<Rightarrow> rel lk l)
           | (Some overlapLock, l) \<Rightarrow>
               (Some \<lparr>tk_job = j_name j, tk_time = now,
                      tk_oneServer = map_option (\<lambda>lk. (lk, sc_oneServerTTL s)) oneServerLock,
                      tk_overlap = map_option (\<lambda>lk. (lk, ttl)) overlapLock\<rparr>, l)))"

definition tick_job ::
  "'l acquire_fn \<Rightarrow> 'l release_fn \<Rightarrow> scheduler \<Rightarrow> instant \<Rightarrow> sched_job \<Rightarrow> 'l \<Rightarrow> (sched_job \<times> task option) \<times> 'l" where
  "tick_job acq rel s now j l =
     (let (due, j) = job_IsDue (sc_timezone s) now j in
      if \<not> (due \<and> ShouldRun (sc_env s) now j) then ((j, None), l)
      else if alreadyFiredAt j (sc_timezone s) now then ((j, None), l)
      else
        let j = markFired (sc_timezone s) now j in
        if sc_maintenanceMode s \<and> \<not> j_evenInMaintenanceMode j then ((j, None), l)
        else (case dispatch_job acq rel s now j l of (t, l) \<Rightarrow> ((j, t), l)))"

fun tick_jobs ::
  "'l acquire_fn \<Rightarrow> 'l release_fn \<Rightarrow> scheduler \<Rightarrow> instant \<Rightarrow> sched_job list \<Rightarrow> 'l \<Rightarrow> (sched_job list \<times> task list) \<times> 'l" where
  "tick_jobs acq rel s now [] l = (([], []), l)"
| "tick_jobs acq rel s now (j # js) l =
     (case tick_job acq rel s now j l of
        ((j, t), l) \<Rightarrow>
          (case tick_jobs acq rel s now js l of
             ((js, ts), l) \<Rightarrow> ((j # js, case t of None \<Rightarrow> ts | Some t \<Rightarrow> t # ts), l)))"

definition tick ::
  "'l acquire_fn \<Rightarrow> 'l release_fn \<Rightarrow> instant \<Rightarrow> scheduler \<Rightarrow> 'l \<Rightarrow> (scheduler \<times> task list) \<times> 'l" where
  "tick acq rel now s l =
     (case tick_jobs acq rel s now (sc_jobs s) l of ((js, ts), l) \<Rightarrow> ((s\<lparr>sc_jobs := js\<rparr>, ts), l))"

subsection \<open>The run of a task\<close>

datatype job_error = ErrJobRunning

definition task_begin :: "sched_job \<Rightarrow> (job_error + unit) \<times> sched_job" where
  "task_begin j = (if j_withoutOverlapping j \<and> j_running j then (Inl ErrJobRunning, j) else (Inr (), j\<lparr>j_running := True\<rparr>))"

definition clearRunningFlag :: "sched_job \<Rightarrow> sched_job" where
  "clearRunningFlag j = j\<lparr>j_running := False\<rparr>"

definition task_release :: "'l release_fn \<Rightarrow> task \<Rightarrow> 'l \<Rightarrow> 'l" where
  "task_release rel t l = (case tk_overlap t of None \<Rightarrow> l | Some (lk, _) \<Rightarrow> rel lk l)"

end
