(* ===== verification/Sched_Props.thy ===== *)
theory Sched_Props
  imports Sched_Tick Cron_Props
begin

text \<open>
  Mutual exclusion of scheduled tasks across the hosts of a cluster that share a locker, and the
  suppression of repeated wall clock minutes. The contract of a locker is a locale; its client
  lemmas follow the claims that dispatched tasks have on their locks through acquires and
  releases, and \<open>InMemoryLocker\<close> is an instance.
\<close>

subsection \<open>Claims on locks\<close>

record claim =
  cl_lock :: sched_lock
  cl_start :: instant
  cl_ttl :: duration

definition before_claim :: "claim \<Rightarrow> claim \<Rightarrow> bool" where
  "before_claim a b \<longleftrightarrow> (lk_name (cl_lock a) = lk_name (cl_lock b) \<longrightarrow>
     lk_token (cl_lock a) < lk_token (cl_lock b) \<and> cl_start a + cl_ttl a \<le> cl_start b)"

definition claims_ok ::
  "('l \<Rightarrow> string \<Rightarrow> (nat \<times> instant) option) \<Rightarrow> ('l \<Rightarrow> string \<Rightarrow> nat) \<Rightarrow> instant \<Rightarrow> 'l \<Rightarrow> claim list \<Rightarrow> bool" where
  "claims_ok held issued now l cs \<longleftrightarrow> sorted_wrt before_claim cs \<and>
     (\<forall>c \<in> set cs. cl_start c \<le> now \<and> lk_token (cl_lock c) \<le> issued l (lk_name (cl_lock c)) \<and>
        (now < cl_start c + cl_ttl c \<longrightarrow> held l (lk_name (cl_lock c)) = Some (lk_token (cl_lock c), cl_start c + cl_ttl c)))"

locale lock_service =
  fixes held :: "'l \<Rightarrow> string \<Rightarrow> (nat \<times> instant) option" and issued :: "'l \<Rightarrow> string \<Rightarrow> nat"
    and acq :: "'l acquire_fn" and rel :: "'l release_fn"
  assumes acq_failed: "acq now n ttl l = (Inl err, l') \<Longrightarrow> held l' = held l \<and> issued l' = issued l"
    and acq_name: "acq now n ttl l = (Inr lk, l') \<Longrightarrow> lk_name lk = n"
    and acq_free: "acq now n ttl l = (Inr lk, l') \<Longrightarrow> held l n = Some (k, e) \<Longrightarrow> e \<le> now"
    and acq_held: "acq now n ttl l = (Inr lk, l') \<Longrightarrow> held l' = (held l)(n \<mapsto> (lk_token lk, now + ttl))"
    and acq_token: "acq now n ttl l = (Inr lk, l') \<Longrightarrow> issued l n < lk_token lk \<and> lk_token lk \<le> issued l' n"
    and acq_issued: "acq now n ttl l = (Inr lk, l') \<Longrightarrow> issued l m \<le> issued l' m"
    and rel_other: "held l m = Some (k, e) \<Longrightarrow> m \<noteq> lk_name lk \<or> k \<noteq> lk_token lk \<Longrightarrow> held (rel lk l) m = Some (k, e)"
    and rel_issued: "issued (rel lk l) = issued l"
begin

lemma claims_wait: "claims_ok held issued now l cs \<Longrightarrow> now \<le> now' \<Longrightarrow> claims_ok held issued now' l cs"
  by (fastforce simp: claims_ok_def)

lemma claims_failed: "claims_ok held issued now l cs \<Longrightarrow> acq now n ttl l = (Inl e, l') \<Longrightarrow> claims_ok held issued now l' cs"
  using acq_failed by (simp add: claims_ok_def)

lemma claims_acquired:
  assumes ok: "claims_ok held issued now l cs" and acq: "acq now n ttl l = (Inr lk, l')"
  shows "claims_ok held issued now l' (cs @ [\<lparr>cl_lock = lk, cl_start = now, cl_ttl = ttl\<rparr>])"
proof -
  note name = acq_name[OF acq] and token = acq_token[OF acq] and held = acq_held[OF acq]
  have old: "before_claim c \<lparr>cl_lock = lk, cl_start = now, cl_ttl = ttl\<rparr>" if "c \<in> set cs" for c
  proof -
    have "\<not> now < cl_start c + cl_ttl c" if "lk_name (cl_lock c) = n"
      using ok \<open>c \<in> set cs\<close> that acq_free[OF acq] unfolding claims_ok_def by fastforce
    then show ?thesis using ok that token name by (fastforce simp: before_claim_def claims_ok_def)
  qed
  have "held l' (lk_name (cl_lock c)) = Some (lk_token (cl_lock c), cl_start c + cl_ttl c)"
    if "c \<in> set cs" "now < cl_start c + cl_ttl c" for c
    using ok that old[OF that(1)] name unfolding claims_ok_def held before_claim_def by fastforce
  moreover have "lk_token (cl_lock c) \<le> issued l' (lk_name (cl_lock c))" if "c \<in> set cs" for c
    using ok that acq_issued[OF acq] unfolding claims_ok_def by (meson order_trans)
  ultimately show ?thesis
    using ok old token name held by (auto simp: claims_ok_def sorted_wrt_append)
qed

lemma claims_released:
  assumes ok: "claims_ok held issued now l (as @ c # bs)"
  shows "claims_ok held issued now (rel (cl_lock c) l) (as @ bs)"
proof -
  have "held (rel (cl_lock c) l) (lk_name (cl_lock d)) = Some (lk_token (cl_lock d), cl_start d + cl_ttl d)"
    if "d \<in> set (as @ bs)" "now < cl_start d + cl_ttl d" for d
  proof (rule rel_other)
    show "held l (lk_name (cl_lock d)) = Some (lk_token (cl_lock d), cl_start d + cl_ttl d)"
      using ok that by (auto simp: claims_ok_def)
    show "lk_name (cl_lock d) \<noteq> lk_name (cl_lock c) \<or> lk_token (cl_lock d) \<noteq> lk_token (cl_lock c)"
      using ok that(1) by (fastforce simp: claims_ok_def sorted_wrt_append before_claim_def)
  qed
  then show ?thesis using ok by (auto simp: claims_ok_def sorted_wrt_append rel_issued)
qed

end

subsection \<open>Ticks keep the claims\<close>

definition claim_of :: "instant \<Rightarrow> (sched_lock \<times> duration) option \<Rightarrow> claim list" where
  "claim_of t c = (case c of None \<Rightarrow> [] | Some (lk, ttl) \<Rightarrow> [\<lparr>cl_lock = lk, cl_start = t, cl_ttl = ttl\<rparr>])"

definition task_claims :: "task \<times> bool \<Rightarrow> claim list" where
  "task_claims e = (case e of (tk, finished) \<Rightarrow>
     claim_of (tk_time tk) (tk_oneServer tk) @ (if finished then [] else claim_of (tk_time tk) (tk_overlap tk)))"

definition history_claims :: "(task \<times> bool) list \<Rightarrow> claim list" where
  "history_claims h = concat (map task_claims h)"

lemma history_claims_simps [simp]:
  "history_claims [] = []" "history_claims (e # h) = task_claims e @ history_claims h"
  "history_claims (h @ h') = history_claims h @ history_claims h'"
  by (simp_all add: history_claims_def)

lemma claim_of_simps [simp]:
  "claim_of t None = []" "claim_of t (Some (lk, ttl)) = [\<lparr>cl_lock = lk, cl_start = t, cl_ttl = ttl\<rparr>]"
  by (simp_all add: claim_of_def)

context lock_service
begin

lemma acquire_if_claims:
  assumes "claims_ok held issued now l cs" "acquire_if acq wanted now key ttl l = (r, l')"
  shows "claims_ok held issued now l' (cs @ (case r of Some (Some lk) \<Rightarrow> claim_of now (Some (lk, ttl)) | _ \<Rightarrow> []))"
  using assms claims_failed claims_acquired
  by (auto simp: acquire_if_def split: if_splits prod.splits sum.splits)

lemma dispatch_job_claims:
  assumes ok: "claims_ok held issued now l cs" and d: "dispatch_job acq rel s now j l = (r, l')"
  shows "claims_ok held issued now l' (cs @ (case r of None \<Rightarrow> [] | Some tk \<Rightarrow> task_claims (tk, False)))"
proof -
  let ?key = "oneServerLockKey j (sc_timezone s) now" and ?ttl = "effectiveOverlapTTL j (sc_overlapTTL s)"
  obtain r1 l1 where one: "acquire_if acq (j_onOneServer j) now ?key (sc_oneServerTTL s) l = (r1, l1)" by force
  note ok1 = acquire_if_claims[OF ok one]
  show ?thesis
  proof (cases r1)
    case None
    then show ?thesis using ok1 one d by (auto simp: dispatch_job_def Let_def)
  next
    case (Some lk1)
    obtain r2 l2 where two: "acquire_if acq (j_withoutOverlapping j) now (overlapLockKey j) ?ttl l1 = (r2, l2)" by force
    note ok2 = acquire_if_claims[OF ok1 two]
    show ?thesis
    proof (cases r2)
      case None
      then have "r = None" "l' = (case lk1 of None \<Rightarrow> l2 | Some lk \<Rightarrow> rel lk l2)"
        using one two d Some by (simp_all add: dispatch_job_def Let_def)
      then show ?thesis
        using ok2 Some None claims_released[of now l2 cs _ "[]"] by (cases lk1) fastforce+
    next
      case (Some lk2)
      then show ?thesis
        using ok2 \<open>r1 = Some lk1\<close> one two d
        by (cases lk1; cases lk2) (auto simp: dispatch_job_def Let_def task_claims_def)
    qed
  qed
qed

lemma tick_job_claims:
  assumes "claims_ok held issued now l cs" "tick_job acq rel s now j l = ((j', r), l')"
  shows "claims_ok held issued now l' (cs @ (case r of None \<Rightarrow> [] | Some tk \<Rightarrow> task_claims (tk, False)))"
  using assms dispatch_job_claims[OF assms(1)]
  by (auto simp: tick_job_def Let_def split: prod.splits if_splits)

lemma tick_jobs_claims:
  assumes "claims_ok held issued now l cs" "tick_jobs acq rel s now js l = ((js', ts), l')"
  shows "claims_ok held issued now l' (cs @ history_claims (map (\<lambda>tk. (tk, False)) ts))"
  using assms
proof (induction js arbitrary: l cs js' ts)
  case (Cons j js)
  obtain j1 r l1 where job: "tick_job acq rel s now j l = ((j1, r), l1)" by (metis prod.collapse)
  obtain js2 ts2 where rest: "tick_jobs acq rel s now js l1 = ((js2, ts2), l')" and ts: "ts = (case r of None \<Rightarrow> ts2 | Some tk \<Rightarrow> tk # ts2)"
    using Cons.prems(2) job by (auto split: prod.splits)
  from Cons.IH[OF tick_job_claims[OF Cons.prems(1) job] rest] show ?case
    by (cases r) (simp_all add: ts)
qed simp

lemma tick_claims:
  assumes "claims_ok held issued now l cs" "tick acq rel now s l = ((s', ts), l')"
  shows "claims_ok held issued now l' (cs @ history_claims (map (\<lambda>tk. (tk, False)) ts))"
  using assms tick_jobs_claims[OF assms(1)] by (auto simp: tick_def split: prod.splits)

lemma task_release_claims:
  assumes "claims_ok held issued now l (history_claims h)" "i < length h" "h ! i = (tk, False)"
  shows "claims_ok held issued now (task_release rel tk l) (history_claims (h[i := (tk, True)]))"
proof -
  have h: "h = take i h @ (tk, False) # drop (Suc i) h" using assms(2,3) by (metis id_take_nth_drop)
  have up: "h[i := (tk, True)] = take i h @ (tk, True) # drop (Suc i) h" using assms(2) by (rule upd_conv_take_nth_drop)
  show ?thesis
  proof (cases "tk_overlap tk")
    case None
    then show ?thesis using assms(1) unfolding up
      by (subst (asm) h) (simp add: task_release_def task_claims_def)
  next
    case (Some c)
    obtain lk ttl where c: "c = (lk, ttl)" by force
    have "claims_ok held issued now l ((history_claims (take i h) @ claim_of (tk_time tk) (tk_oneServer tk)) @
        \<lparr>cl_lock = lk, cl_start = tk_time tk, cl_ttl = ttl\<rparr> # history_claims (drop (Suc i) h))"
      using assms(1) by (subst (asm) h) (simp add: task_claims_def Some c)
    from claims_released[OF this] show ?thesis
      unfolding up by (simp add: task_release_def task_claims_def Some c)
  qed
qed

end

subsection \<open>A cluster of schedulers\<close>

text \<open>The hosts tick at any times, in any order, against the locker they share. A task that a tick
  dispatched finishes at some point, or never; the schedulers may be reconfigured, and the flags of
  their jobs change, at any time.\<close>

inductive cluster ::
  "'l acquire_fn \<Rightarrow> 'l release_fn \<Rightarrow> 'l \<Rightarrow> instant \<Rightarrow> (nat \<Rightarrow> scheduler) \<Rightarrow> 'l \<Rightarrow> (task \<times> bool) list \<Rightarrow> bool"
  for acq rel l0 where
  cluster_start: "cluster acq rel l0 now hosts l0 []"
| cluster_tick: "cluster acq rel l0 now hosts l h \<Longrightarrow> now \<le> t \<Longrightarrow> tick acq rel t (hosts n) l = ((s, ts), l') \<Longrightarrow>
    cluster acq rel l0 t (hosts(n := s)) l' (h @ map (\<lambda>tk. (tk, False)) ts)"
| cluster_finish: "cluster acq rel l0 now hosts l h \<Longrightarrow> i < length h \<Longrightarrow> h ! i = (tk, False) \<Longrightarrow>
    cluster acq rel l0 now hosts (task_release rel tk l) (h[i := (tk, True)])"
| cluster_change: "cluster acq rel l0 now hosts l h \<Longrightarrow> cluster acq rel l0 now hosts' l h"

lemma sorted_wrt_concat_nth:
  assumes "sorted_wrt P (concat (map f xs))" "i < j" "j < length xs" "a \<in> set (f (xs ! i))" "b \<in> set (f (xs ! j))"
  shows "P a b"
proof -
  have xs: "xs = take j xs @ xs ! j # drop (Suc j) xs" using assms(3) by (rule id_take_nth_drop)
  have "xs ! i \<in> set (take j xs)" using assms(2,3) by (metis in_set_conv_nth length_take min.absorb4 nth_take)
  then have "a \<in> set (concat (map f (take j xs)))" using assms(4) by auto
  moreover have "b \<in> set (concat (map f (xs ! j # drop (Suc j) xs)))" using assms(5) by auto
  moreover have "concat (map f xs) = concat (map f (take j xs)) @ concat (map f (xs ! j # drop (Suc j) xs))"
    using arg_cong[OF xs, of "\<lambda>xs. concat (map f xs)"] by simp
  ultimately show ?thesis using assms(1) by (metis sorted_wrt_append)
qed

context lock_service
begin

lemma cluster_claims:
  "cluster acq rel l0 now hosts l h \<Longrightarrow> claims_ok held issued now l (history_claims h)"
proof (induction rule: cluster.induct)
  case (cluster_start now hosts)
  then show ?case by (simp add: claims_ok_def)
next
  case (cluster_tick now hosts l h t n s ts l')
  from tick_claims[OF claims_wait[OF cluster_tick.IH cluster_tick.hyps(2)] cluster_tick.hyps(3)]
  show ?case by simp
next
  case (cluster_finish now hosts l h i tk)
  then show ?case by (intro task_release_claims)
qed

lemma exclusive:
  assumes "cluster acq rel l0 now hosts l h" "i < j" "j < length h" "h ! i = (a, fa)" "h ! j = (b, fb)"
  shows "\<And>la lb ttl ttl'. tk_oneServer a = Some (la, ttl) \<Longrightarrow> tk_oneServer b = Some (lb, ttl') \<Longrightarrow> lk_name la = lk_name lb \<Longrightarrow>
      tk_time a + ttl \<le> tk_time b"
    "\<And>la lb ttl ttl'. \<not> fa \<Longrightarrow> \<not> fb \<Longrightarrow> tk_overlap a = Some (la, ttl) \<Longrightarrow> tk_overlap b = Some (lb, ttl') \<Longrightarrow>
      lk_name la = lk_name lb \<Longrightarrow> tk_time a + ttl \<le> tk_time b"
proof -
  have sorted: "sorted_wrt before_claim (concat (map task_claims h))"
    using cluster_claims[OF assms(1)] by (simp add: claims_ok_def history_claims_def)
  note order = sorted_wrt_concat_nth[OF sorted assms(2,3)]
  fix la lb ttl ttl'
  let ?ca = "\<lparr>cl_lock = la, cl_start = tk_time a, cl_ttl = ttl\<rparr>" and ?cb = "\<lparr>cl_lock = lb, cl_start = tk_time b, cl_ttl = ttl'\<rparr>"
  show "tk_time a + ttl \<le> tk_time b"
    if "tk_oneServer a = Some (la, ttl)" "tk_oneServer b = Some (lb, ttl')" "lk_name la = lk_name lb"
    using order[of ?ca ?cb] that assms(4,5) by (simp add: task_claims_def before_claim_def)
  show "tk_time a + ttl \<le> tk_time b"
    if "\<not> fa" "\<not> fb" "tk_overlap a = Some (la, ttl)" "tk_overlap b = Some (lb, ttl')" "lk_name la = lk_name lb"
    using order[of ?ca ?cb] that assms(4,5) by (simp add: task_claims_def before_claim_def)
qed

end

subsection \<open>The in-memory locker\<close>

definition in_memory_held :: "InMemoryLocker \<Rightarrow> string \<Rightarrow> (nat \<times> instant) option" where
  "in_memory_held l n = map_option (\<lambda>e. (im_token e, im_expires e)) (il_locks l n)"

definition in_memory_issued :: "InMemoryLocker \<Rightarrow> string \<Rightarrow> nat" where
  "in_memory_issued l n = il_token l"

interpretation in_memory: lock_service in_memory_held in_memory_issued locker_Acquire locker_Release
  by unfold_locales
    (auto simp: in_memory_held_def in_memory_issued_def locker_Acquire_def locker_Release_def Let_def fun_eq_iff
      split: if_splits option.splits)


definition every_minute :: Schedule where
  "every_minute = sched_Cron (print_cron \<lparr>c_minute = Any, c_hour = Any, c_dayOfMonth = Any, c_month = Any, c_dayOfWeek = Any\<rparr>) NewSchedule"

lemma every_minute_due: "sched_IsDue every_minute loc t = (True, every_minute)"
proof -
  let ?c = "\<lparr>c_minute = Any, c_hour = Any, c_dayOfMonth = Any, c_month = Any, c_dayOfWeek = Any\<rparr>"
  have ok: "cron_ok ?c" by (simp add: cron_ok_def)
  obtain e where e: "ParseExpression (print_cron ?c) = Inr e" "implements e ?c" using ParseExpression_print[OF ok] by blast
  have "expr_IsDue e loc t" using expr_IsDue_print[OF ok e(2)] by (simp add: cron_sem_def)
  moreover have "s_expression every_minute = print_cron ?c" "s_validationErr every_minute = []"
    using sched_Cron_print[OF ok] by (simp_all add: every_minute_def NewSchedule_def)
  ultimately show ?thesis using e(1) print_cron_nonempty[of ?c] by (simp add: sched_IsDue_def Let_def)
qed

definition demo_job :: sched_job where
  "demo_job = \<lparr>j_name = ''report'', j_schedule = every_minute, j_withoutOverlapping = False, j_withoutOverlappingTTL = 0,
     j_onOneServer = True, j_evenInMaintenanceMode = False, j_running = False, j_timezone = UTC, j_lastFiredWallMinute = [],
     j_when = None, j_skip = None, j_between = ([], []), j_unlessBetween = ([], []), j_environments = []\<rparr>"

definition demo_host :: scheduler where
  "demo_host = \<lparr>sc_jobs = [demo_job], sc_timezone = UTC, sc_maintenanceMode = False, sc_env = [], sc_oneServerTTL = 30 * second,
     sc_overlapTTL = 0\<rparr>"

definition demo_task :: "instant \<Rightarrow> nat \<Rightarrow> task" where
  "demo_task t tok = \<lparr>tk_job = ''report'', tk_time = t,
     tk_oneServer = Some (\<lparr>lk_name = oneServerLockKey demo_job UTC 0, lk_token = tok\<rparr>, 30 * second), tk_overlap = None\<rparr>"

lemma demo_minute: "wallMinuteKey UTC (31 * second) = wallMinuteKey UTC 0"
proof -
  have "wall_clock UTC (31 * second) = wall_clock UTC 0" by (simp add: wall_clock_def UTC_def second_def wall_of_seconds_def)
  then show ?thesis by (simp add: wallMinuteKey_def)
qed

lemma demo_tick:
  assumes "t = 0 \<or> t = 31 * second" "\<forall>e. il_locks l (oneServerLockKey demo_job UTC 0) = Some e \<longrightarrow> im_expires e \<le> t"
  obtains s l' where "tick locker_Acquire locker_Release t demo_host l = ((s, [demo_task t (il_token l + 1)]), l')"
    "il_locks l' (oneServerLockKey demo_job UTC 0) = Some \<lparr>im_token = il_token l + 1, im_expires = t + 30 * second\<rparr>"
    "il_token l' = il_token l + 1"
proof -
  have key: "wallMinuteKey UTC t = wallMinuteKey UTC 0" using assms(1) demo_minute by auto
  have job: "oneServerLockKey (markFired UTC t demo_job) UTC t = oneServerLockKey demo_job UTC 0"
    using key by (simp add: oneServerLockKey_def markFired_def)
  have free: "\<not> (case il_locks l (oneServerLockKey demo_job UTC 0) of Some e \<Rightarrow> t < im_expires e | None \<Rightarrow> False)"
    using assms(2) by (auto split: option.splits)
  have due: "job_IsDue UTC t demo_job = (True, demo_job)" by (simp add: job_IsDue_def demo_job_def every_minute_due)
  have run: "ShouldRun [] t demo_job" "\<not> alreadyFiredAt demo_job UTC t" by (simp_all add: ShouldRun_def alreadyFiredAt_def demo_job_def)
  have flags: "j_onOneServer (markFired UTC t demo_job)" "\<not> j_withoutOverlapping (markFired UTC t demo_job)"
    "j_name (markFired UTC t demo_job) = ''report''" by (simp_all add: markFired_def demo_job_def)
  have host: "sc_jobs demo_host = [demo_job]" "sc_timezone demo_host = UTC" "\<not> sc_maintenanceMode demo_host" "sc_env demo_host = []"
    "sc_oneServerTTL demo_host = 30 * second" by (simp_all add: demo_host_def)
  show ?thesis
    using that due run job free flags
    by (simp add: tick_def host tick_job_def dispatch_job_def acquire_if_def locker_Acquire_def Let_def demo_task_def)
qed


subsection \<open>Repeated wall clock minutes\<close>

definition lock_free :: "sched_job \<Rightarrow> bool" where
  "lock_free j \<longleftrightarrow> \<not> j_onOneServer j \<and> \<not> j_withoutOverlapping j"

definition runs_at :: "scheduler \<Rightarrow> sched_job \<Rightarrow> instant \<Rightarrow> bool" where
  "runs_at s j t \<longleftrightarrow> sched_IsDue (j_schedule j) (sc_timezone s) t = (True, j_schedule j) \<and> ShouldRun (sc_env s) t j"

lemma ShouldRun_fired: "ShouldRun env t (j\<lparr>j_lastFiredWallMinute := k\<rparr>) = ShouldRun env t j"
  by (simp add: ShouldRun_def)

lemma wallMinuteKey_nonempty: "wallMinuteKey loc t \<noteq> []"
  by (simp add: wallMinuteKey_def Let_def)

lemma tick_single:
  assumes "sc_jobs s = [j\<lparr>j_lastFiredWallMinute := k\<rparr>]" "lock_free j" "runs_at s j t" "\<not> sc_maintenanceMode s"
  shows "tick acq rel t s l =
    (if k = wallMinuteKey (sc_timezone s) t then ((s, []), l)
     else ((s\<lparr>sc_jobs := [j\<lparr>j_lastFiredWallMinute := wallMinuteKey (sc_timezone s) t\<rparr>]\<rparr>,
            [\<lparr>tk_job = j_name j, tk_time = t, tk_oneServer = None, tk_overlap = None\<rparr>]), l))"
proof -
  let ?j = "j\<lparr>j_lastFiredWallMinute := k\<rparr>"
  have "job_IsDue (sc_timezone s) t ?j = (True, ?j)" "ShouldRun (sc_env s) t ?j"
    using assms(3) by (simp_all add: runs_at_def job_IsDue_def ShouldRun_fired)
  then show ?thesis
    using assms(1,2,4) wallMinuteKey_nonempty[of "sc_timezone s" t]
    by (auto simp: tick_def tick_job_def dispatch_job_def acquire_if_def alreadyFiredAt_def markFired_def lock_free_def Let_def)
qed

text \<open>C39: a tick in the wall clock minute in which a job fired last, such as the repetition of a minute
  when clocks are set back, does not dispatch the job again; but only the last minute is remembered, so
  a job that has fired in another minute in between is dispatched a second time for the same
  wall clock minute.\<close>

theorem repeated_minute:
  assumes s: "sc_jobs s = [j]" "\<not> sc_maintenanceMode s" and j: "lock_free j" "j_lastFiredWallMinute j = []"
    and due: "runs_at s j t1" "runs_at s j t2" "runs_at s j t3"
    and same: "wallMinuteKey (sc_timezone s) t3 = wallMinuteKey (sc_timezone s) t1"
      "wallMinuteKey (sc_timezone s) t2 \<noteq> wallMinuteKey (sc_timezone s) t1"
  shows "case tick acq rel t1 s l of ((s1, ts1), l1) \<Rightarrow>
    map tk_time ts1 = [t1] \<and> snd (fst (tick acq rel t3 s1 l1)) = [] \<and>
    (case tick acq rel t2 s1 l1 of ((s2, ts2), l2) \<Rightarrow>
       map tk_time ts2 = [t2] \<and> map tk_time (snd (fst (tick acq rel t3 s2 l2))) = [t3])"
proof -
  define tz where "tz = sc_timezone s"
  let ?s = "\<lambda>k. s\<lparr>sc_jobs := [j\<lparr>j_lastFiredWallMinute := k\<rparr>]\<rparr>"
  have start: "s = ?s []" using s(1) j(2) by simp
  have runs: "runs_at (?s k) j t \<longleftrightarrow> runs_at s j t" for k t by (simp add: runs_at_def)
  have step: "tick acq rel t (?s k) l =
      (if k = wallMinuteKey tz t then ((?s k, []), l)
       else ((?s (wallMinuteKey tz t), [\<lparr>tk_job = j_name j, tk_time = t, tk_oneServer = None, tk_overlap = None\<rparr>]), l))"
    if "runs_at s j t" for k t
    using tick_single[of "?s k" k j t acq rel l] j(1) s(2) that runs by (simp add: tz_def)
  have first: "tick acq rel t1 s l = ((?s (wallMinuteKey tz t1), [\<lparr>tk_job = j_name j, tk_time = t1, tk_oneServer = None, tk_overlap = None\<rparr>]), l)"
    using step[OF due(1), of "[]"] wallMinuteKey_nonempty[of tz t1] by (subst start) auto
  show ?thesis
    using step[OF due(2), of "wallMinuteKey tz t1"] step[OF due(3), of "wallMinuteKey tz t1"]
      step[OF due(3), of "wallMinuteKey tz t2"] same unfolding tz_def[symmetric] first by simp
qed

text \<open>New York sets its clocks back on 1 November 2026 at 06:00 UTC.\<close>

definition new_york :: location where
  "new_york t = (if t < 1793512800 * second then - 14400 else - 18000)"

definition clock_job :: sched_job where
  "clock_job = demo_job\<lparr>j_onOneServer := False, j_timezone := new_york\<rparr>"

theorem repeated_minute_witness:
  "case tick locker_Acquire locker_Release (1793509200 * second) (demo_host\<lparr>sc_jobs := [clock_job], sc_timezone := new_york\<rparr>) NewInMemoryLocker of
     ((s1, ts1), l1) \<Rightarrow> (case tick locker_Acquire locker_Release (1793511000 * second) s1 l1 of ((s2, ts2), l2) \<Rightarrow>
       map tk_time (snd (fst (tick locker_Acquire locker_Release (1793512800 * second) s2 l2))) = [1793512800 * second])"
proof -
  let ?s = "demo_host\<lparr>sc_jobs := [clock_job], sc_timezone := new_york\<rparr>"
  have "runs_at ?s clock_job t" for t
    by (simp add: runs_at_def clock_job_def demo_job_def demo_host_def every_minute_due ShouldRun_def)
  moreover have "wallMinuteKey new_york (1793512800 * second) = wallMinuteKey new_york (1793509200 * second)"
    "wallMinuteKey new_york (1793511000 * second) \<noteq> wallMinuteKey new_york (1793509200 * second)" by code_simp+
  ultimately show ?thesis
    using repeated_minute[of ?s clock_job "1793509200 * second" "1793511000 * second" "1793512800 * second" locker_Acquire locker_Release NewInMemoryLocker]
    by (simp add: demo_host_def clock_job_def demo_job_def lock_free_def split_beta)
qed

end
