(* ===== verification/Storage_Memory.thy ===== *)
theory Storage_Memory
  imports Cron
begin

text \<open>
  The in-memory disk, \<open>src/storage/memory.go\<close>, with the MIME correction of \<open>src/storage/helpers.go\<close>.
  The map of files is an association list, so the listings come in the order of the list; their
  lemmas speak about the sets. Sniffing a content type, \<open>http.DetectContentType\<close>, is a parameter. A
  stream is the bytes it yields and whether reading them fails at their end.
\<close>

datatype storage_error = ErrFileNotFound | ErrQuotaExceeded | ErrPathTraversal | ErrReadStream | ErrStreamTooLarge | ErrNotSupported

record MemoryFile =
  f_Content :: string
  f_LastModified :: instant
  f_MimeType :: string

record disk =
  d_files :: "(string, MemoryFile) gomap"
  d_maxSize :: int
  d_used :: int

definition NewMemoryDisk :: "int \<Rightarrow> disk" where
  "NewMemoryDisk configured =
     \<lparr>d_files = [], d_maxSize = (if configured = 0 then 100 * 1024 * 1024 else configured), d_used = 0\<rparr>"

subsection \<open>Content types\<close>

fun skip_spaces :: "nat \<Rightarrow> string \<Rightarrow> string" where
  "skip_spaces _ [] = []"
| "skip_spaces (Suc k) (_ # s) = skip_spaces k s"
| "skip_spaces 0 (c # s) = (case space_width (c # s) of 0 \<Rightarrow> c # s | Suc k \<Rightarrow> skip_spaces k s)"

fun has_infix :: "string \<Rightarrow> string \<Rightarrow> bool" where
  "has_infix [] p \<longleftrightarrow> p = []"
| "has_infix (c # s) p \<longleftrightarrow> has_prefix (c # s) p \<or> has_infix s p"

definition looksLikeSVG :: "string \<Rightarrow> bool" where
  "looksLikeSVG content =
     (let s = skip_spaces 0 (ToLower content)
      in has_prefix s ''<svg'' \<or> has_prefix s ''<?xml'' \<and> has_infix s ''<svg'')"

definition DetectMimeType :: "(string \<Rightarrow> string) \<Rightarrow> string \<Rightarrow> string" where
  "DetectMimeType sniff content =
     (if content = [] then ''application/octet-stream''
      else
        let sample = take 512 content; contentType = sniff sample
        in if has_prefix (ToLower contentType) ''text/plain'' \<and> looksLikeSVG sample then ''image/svg+xml'' else contentType)"

subsection \<open>Paths\<close>

definition cleanPath :: "string \<Rightarrow> storage_error + string" where
  "cleanPath path =
     (let path = map (\<lambda>c. if c = CHR 0x5C then CHR ''/'' else c) (trim_byte (CHR ''/'') path)
      in if ''..'' \<in> set (split_byte (CHR ''/'') path) then Inl ErrPathTraversal else Inr path)"

definition with_path :: "string \<Rightarrow> (string \<Rightarrow> (storage_error + 'a) \<times> disk) \<Rightarrow> disk \<Rightarrow> (storage_error + 'a) \<times> disk" where
  "with_path path k d = (case cleanPath path of Inl e \<Rightarrow> (Inl e, d) | Inr p \<Rightarrow> k p)"

definition file_size :: "MemoryFile \<Rightarrow> int" where
  "file_size f = int (length (f_Content f))"

subsection \<open>Files\<close>

definition putCleaned :: "(string \<Rightarrow> string) \<Rightarrow> instant \<Rightarrow> string \<Rightarrow> string \<Rightarrow> disk \<Rightarrow> (storage_error + unit) \<times> disk" where
  "putCleaned sniff now path contents d =
     (let size = int (length contents);
          newUsed = (case map_of (d_files d) path of
                       Some existing \<Rightarrow> d_used d - file_size existing + size
                     | None \<Rightarrow> d_used d + size)
      in if d_maxSize d > 0 \<and> newUsed > d_maxSize d then (Inl ErrQuotaExceeded, d)
         else (Inr (), d\<lparr>d_used := newUsed,
           d_files := AList.update path \<lparr>f_Content = contents, f_LastModified = now, f_MimeType = DetectMimeType sniff contents\<rparr> (d_files d)\<rparr>))"

definition Put :: "(string \<Rightarrow> string) \<Rightarrow> instant \<Rightarrow> string \<Rightarrow> string \<Rightarrow> disk \<Rightarrow> (storage_error + unit) \<times> disk" where
  "Put sniff now path contents d = with_path path (\<lambda>p. putCleaned sniff now p contents d) d"

definition PutStream ::
  "(string \<Rightarrow> string) \<Rightarrow> instant \<Rightarrow> string \<Rightarrow> string \<times> bool \<Rightarrow> disk \<Rightarrow> (storage_error + unit) \<times> disk" where
  "PutStream sniff now path stream d =
     with_path path (\<lambda>p.
       let limit = (if d_maxSize d \<le> 0 then 100 * 1024 * 1024 else d_maxSize d); (content, fails) = stream
       in if int (length content) > limit then (Inl ErrStreamTooLarge, d)
          else if fails then (Inl ErrReadStream, d)
          else putCleaned sniff now p content d) d"

definition lookup_file :: "(MemoryFile \<Rightarrow> 'a) \<Rightarrow> string \<Rightarrow> disk \<Rightarrow> storage_error + 'a" where
  "lookup_file f path d =
     (case cleanPath path of
        Inl e \<Rightarrow> Inl e
      | Inr p \<Rightarrow> (case map_of (d_files d) p of None \<Rightarrow> Inl ErrFileNotFound | Some file \<Rightarrow> Inr (f file)))"

definition disk_Get :: "string \<Rightarrow> disk \<Rightarrow> storage_error + string" where
  "disk_Get path d = lookup_file f_Content path d"

definition disk_GetStream :: "string \<Rightarrow> disk \<Rightarrow> storage_error + string \<times> bool" where
  "disk_GetStream path d = (case disk_Get path d of Inl e \<Rightarrow> Inl e | Inr content \<Rightarrow> Inr (content, False))"

definition disk_Exists :: "string \<Rightarrow> disk \<Rightarrow> bool" where
  "disk_Exists path d = (case cleanPath path of Inl _ \<Rightarrow> False | Inr p \<Rightarrow> map_of (d_files d) p \<noteq> None)"

definition disk_Size :: "string \<Rightarrow> disk \<Rightarrow> storage_error + int" where
  "disk_Size path d = lookup_file file_size path d"

definition disk_LastModified :: "string \<Rightarrow> disk \<Rightarrow> storage_error + instant" where
  "disk_LastModified path d = lookup_file f_LastModified path d"

definition disk_MimeType :: "string \<Rightarrow> disk \<Rightarrow> storage_error + string" where
  "disk_MimeType path d = lookup_file f_MimeType path d"

definition remove_file :: "string \<Rightarrow> disk \<Rightarrow> disk" where
  "remove_file path d =
     (case map_of (d_files d) path of
        None \<Rightarrow> d
      | Some file \<Rightarrow> d\<lparr>d_used := d_used d - file_size file, d_files := AList.delete path (d_files d)\<rparr>)"

fun clean_all :: "string list \<Rightarrow> storage_error + string list" where
  "clean_all [] = Inr []"
| "clean_all (p # ps) =
     (case cleanPath p of
        Inl e \<Rightarrow> Inl e
      | Inr c \<Rightarrow> (case clean_all ps of Inl e \<Rightarrow> Inl e | Inr cs \<Rightarrow> Inr (c # cs)))"

definition disk_Delete :: "string list \<Rightarrow> disk \<Rightarrow> (storage_error + unit) \<times> disk" where
  "disk_Delete paths d = (case clean_all paths of Inl e \<Rightarrow> (Inl e, d) | Inr cs \<Rightarrow> (Inr (), fold remove_file cs d))"

definition disk_Copy :: "instant \<Rightarrow> string \<Rightarrow> string \<Rightarrow> disk \<Rightarrow> (storage_error + unit) \<times> disk" where
  "disk_Copy now source target d =
     with_path source (\<lambda>source. with_path target (\<lambda>target.
       case map_of (d_files d) source of
         None \<Rightarrow> (Inl ErrFileNotFound, d)
       | Some sourceFile \<Rightarrow>
           let replaced = (case map_of (d_files d) target of Some existing \<Rightarrow> file_size existing | None \<Rightarrow> 0);
               additionalSpace = file_size sourceFile - replaced
           in if d_maxSize d > 0 \<and> d_used d + additionalSpace > d_maxSize d then (Inl ErrQuotaExceeded, d)
              else (Inr (), d\<lparr>d_used := d_used d - replaced + file_size sourceFile,
                d_files := AList.update target \<lparr>f_Content = f_Content sourceFile, f_LastModified = now, f_MimeType = f_MimeType sourceFile\<rparr> (d_files d)\<rparr>)) d) d"

definition disk_Move :: "instant \<Rightarrow> string \<Rightarrow> string \<Rightarrow> disk \<Rightarrow> (storage_error + unit) \<times> disk" where
  "disk_Move now source target d =
     with_path source (\<lambda>source. with_path target (\<lambda>target.
       case map_of (d_files d) source of
         None \<Rightarrow> (Inl ErrFileNotFound, d)
       | Some file \<Rightarrow>
           if source = target then (Inr (), d)
           else
             let replaced = (case map_of (d_files d) target of Some existing \<Rightarrow> file_size existing | None \<Rightarrow> 0)
             in (Inr (), d\<lparr>d_used := d_used d - replaced,
                  d_files := AList.delete source (AList.update target (file\<lparr>f_LastModified := now\<rparr>) (d_files d))\<rparr>)) d) d"

definition disk_Clear :: "disk \<Rightarrow> disk" where
  "disk_Clear d = d\<lparr>d_files := [], d_used := 0\<rparr>"

definition disk_Stats :: "disk \<Rightarrow> int \<times> int \<times> nat" where
  "disk_Stats d = (d_used d, d_maxSize d, length (d_files d))"

subsection \<open>Directories\<close>

definition as_prefix :: "string \<Rightarrow> string" where
  "as_prefix directory = (if directory \<noteq> [] \<and> \<not> has_suffix directory ''/'' then directory @ ''/'' else directory)"

definition disk_Files :: "string \<Rightarrow> disk \<Rightarrow> storage_error + string list" where
  "disk_Files directory d =
     (case cleanPath directory of
        Inl e \<Rightarrow> Inl e
      | Inr dir \<Rightarrow>
          let dir = as_prefix dir
          in Inr (filter (\<lambda>path. has_prefix path dir \<and> CHR ''/'' \<notin> set (drop (length dir) path)) (map fst (d_files d))))"

definition disk_AllFiles :: "string \<Rightarrow> disk \<Rightarrow> storage_error + string list" where
  "disk_AllFiles directory d =
     (case cleanPath directory of
        Inl e \<Rightarrow> Inl e
      | Inr dir \<Rightarrow>
          let dir = as_prefix dir
          in Inr (filter (\<lambda>path. dir = [] \<or> has_prefix path dir) (map fst (d_files d))))"

definition disk_Directories :: "string \<Rightarrow> disk \<Rightarrow> storage_error + string list" where
  "disk_Directories directory d =
     (case (if directory = [] then Inr [] else cleanPath directory) of
        Inl e \<Rightarrow> Inl e
      | Inr dir \<Rightarrow>
          let prefix = (if dir = [] then [] else dir @ ''/'')
          in Inr (remdups (concat (map (\<lambda>path.
               if prefix \<noteq> [] \<and> \<not> has_prefix path prefix then []
               else
                 let relPath = drop (length prefix) path in
                 case index_byte relPath (CHR ''/'') of
                   Some idx \<Rightarrow> if idx > 0 then [prefix @ take idx relPath] else []
                 | None \<Rightarrow> []) (map fst (d_files d))))))"

definition disk_AllDirectories :: "string \<Rightarrow> disk \<Rightarrow> storage_error + string list" where
  "disk_AllDirectories directory d =
     (case cleanPath directory of
        Inl e \<Rightarrow> Inl e
      | Inr dir \<Rightarrow>
          let dir = as_prefix dir
          in Inr (remdups (concat (map (\<lambda>path.
               if dir = [] \<or> has_prefix path dir then
                 let parts = split_byte (CHR ''/'') path in
                 filter (\<lambda>dirPath. dirPath \<noteq> [] \<and> (dir = [] \<or> has_prefix (dirPath @ ''/'') dir))
                   (map (\<lambda>i. join_byte (CHR ''/'') (take i parts)) [1..<length parts])
               else []) (map fst (d_files d))))))"

definition disk_MakeDirectory :: "string \<Rightarrow> disk \<Rightarrow> storage_error + unit" where
  "disk_MakeDirectory path d = (case cleanPath path of Inl e \<Rightarrow> Inl e | Inr _ \<Rightarrow> Inr ())"

definition disk_DeleteDirectory :: "string \<Rightarrow> disk \<Rightarrow> (storage_error + unit) \<times> disk" where
  "disk_DeleteDirectory directory d =
     with_path directory (\<lambda>dir.
       let dir = as_prefix dir
       in (Inr (), fold (\<lambda>path d. if dir = [] \<or> has_prefix path dir then remove_file path d else d) (map fst (d_files d)) d)) d"

definition disk_URL :: "string \<Rightarrow> string" where
  "disk_URL path = []"

definition disk_TemporaryURL :: "string \<Rightarrow> duration \<Rightarrow> storage_error + string" where
  "disk_TemporaryURL path expiration = (case cleanPath path of Inl e \<Rightarrow> Inl e | Inr _ \<Rightarrow> Inl ErrNotSupported)"

end
