(* ===== verification/Storage_Props.thy ===== *)
theory Storage_Props
  imports Storage_Memory
begin

text \<open>
  The in-memory disk implements a file system with a quota: a finite map from clean paths to
  contents, whose total size never passes the quota. Every sequence of operations gives, on the
  disk, the results and the contents that the specification gives.
\<close>

subsection \<open>Specification\<close>

type_synonym fs = "string \<rightharpoonup> string"

definition total :: "fs \<Rightarrow> int" where
  "total m = (\<Sum>p \<in> dom m. int (length (the (m p))))"

datatype fs_op =
    OpPut string string
  | OpPutStream string "string \<times> bool"
  | OpDelete "string list"
  | OpCopy string string
  | OpMove string string
  | OpDeleteDirectory string
  | OpClear

definition store :: "int \<Rightarrow> fs \<Rightarrow> string \<Rightarrow> string \<Rightarrow> (storage_error + unit) \<times> fs" where
  "store quota m p c =
     (if quota > 0 \<and> total (m(p \<mapsto> c)) > quota then (Inl ErrQuotaExceeded, m) else (Inr (), m(p \<mapsto> c)))"

definition on_clean :: "string \<Rightarrow> (string \<Rightarrow> (storage_error + unit) \<times> fs) \<Rightarrow> fs \<Rightarrow> (storage_error + unit) \<times> fs" where
  "on_clean path k m = (case cleanPath path of Inl e \<Rightarrow> (Inl e, m) | Inr p \<Rightarrow> k p)"

definition inside :: "string \<Rightarrow> string set" where
  "inside dir = {path. as_prefix dir = [] \<or> has_prefix path (as_prefix dir)}"

fun spec_op :: "int \<Rightarrow> fs_op \<Rightarrow> fs \<Rightarrow> (storage_error + unit) \<times> fs" where
  "spec_op quota (OpPut path c) m = on_clean path (\<lambda>p. store quota m p c) m"
| "spec_op quota (OpPutStream path (c, fails)) m =
     on_clean path (\<lambda>p.
       if int (length c) > (if quota > 0 then quota else 100 * 1024 * 1024) then (Inl ErrStreamTooLarge, m)
       else if fails then (Inl ErrReadStream, m) else store quota m p c) m"
| "spec_op quota (OpDelete paths) m =
     (case clean_all paths of Inl e \<Rightarrow> (Inl e, m) | Inr ps \<Rightarrow> (Inr (), m |` (- set ps)))"
| "spec_op quota (OpCopy a b) m =
     on_clean a (\<lambda>a. on_clean b (\<lambda>b. case m a of None \<Rightarrow> (Inl ErrFileNotFound, m) | Some c \<Rightarrow> store quota m b c) m) m"
| "spec_op quota (OpMove a b) m =
     on_clean a (\<lambda>a. on_clean b (\<lambda>b.
       case m a of None \<Rightarrow> (Inl ErrFileNotFound, m) | Some c \<Rightarrow> (Inr (), (m(a := None))(b \<mapsto> c))) m) m"
| "spec_op quota (OpDeleteDirectory path) m = on_clean path (\<lambda>dir. (Inr (), m |` (- inside dir))) m"
| "spec_op quota OpClear m = (Inr (), Map.empty)"

fun disk_op :: "(string \<Rightarrow> string) \<Rightarrow> instant \<Rightarrow> fs_op \<Rightarrow> disk \<Rightarrow> (storage_error + unit) \<times> disk" where
  "disk_op sniff now (OpPut path c) d = Put sniff now path c d"
| "disk_op sniff now (OpPutStream path s) d = PutStream sniff now path s d"
| "disk_op sniff now (OpDelete paths) d = disk_Delete paths d"
| "disk_op sniff now (OpCopy a b) d = disk_Copy now a b d"
| "disk_op sniff now (OpMove a b) d = disk_Move now a b d"
| "disk_op sniff now (OpDeleteDirectory path) d = disk_DeleteDirectory path d"
| "disk_op sniff now OpClear d = (Inr (), disk_Clear d)"

definition contents_of :: "disk \<Rightarrow> fs" where
  "contents_of d p = map_option f_Content (map_of (d_files d) p)"

definition weight :: "(string, MemoryFile) gomap \<Rightarrow> int" where
  "weight files = sum_list (map (file_size \<circ> snd) files)"

definition disk_ok :: "disk \<Rightarrow> bool" where
  "disk_ok d \<longleftrightarrow> keys_distinct (d_files d) \<and> d_used d = weight (d_files d) \<and>
     (d_maxSize d > 0 \<longrightarrow> d_used d \<le> d_maxSize d) \<and> (\<forall>p \<in> dom (map_of (d_files d)). ''..'' \<notin> set (split_byte (CHR ''/'') p))"

subsection \<open>Sizes\<close>

lemma file_size_nonneg [simp]: "0 \<le> file_size f"
  by (simp add: file_size_def)

lemma weight_update:
  "keys_distinct files \<Longrightarrow> weight (AList.update p f files) =
     weight files - (case map_of files p of None \<Rightarrow> 0 | Some g \<Rightarrow> file_size g) + file_size f"
  by (induction files) (auto simp: weight_def)

lemma weight_delete:
  "keys_distinct files \<Longrightarrow> weight (AList.delete p files) =
     weight files - (case map_of files p of None \<Rightarrow> 0 | Some g \<Rightarrow> file_size g)"
proof (induction files)
  case (Cons kv files)
  obtain k v where kv: "kv = (k, v)" by force
  show ?case
  proof (cases "k = p")
    case True
    then have "map_of files p = None" using Cons.prems kv by (simp add: map_of_eq_None_iff)
    then show ?thesis using Cons True by (simp add: kv weight_def)
  next
    case False
    then show ?thesis using Cons by (simp add: kv weight_def)
  qed
qed (simp add: weight_def)

lemma weight_total:
  assumes "keys_distinct files"
  shows "total (\<lambda>p. map_option f_Content (map_of files p)) = weight files"
  using assms
proof (induction files)
  case (Cons kv files)
  obtain k v where kv: "kv = (k, v)" by force
  let ?m = "\<lambda>p. map_option f_Content (map_of files p)"
  have k: "k \<notin> dom ?m" using Cons.prems kv map_of_eq_None_iff[of files k] by auto
  have dom: "dom (\<lambda>p. map_option f_Content (map_of (kv # files) p)) = insert k (dom ?m)" by (auto simp: kv)
  have "finite (dom ?m)" using finite_dom_map_of[of files] by (rule finite_subset[rotated]) auto
  moreover have "(\<Sum>p \<in> dom ?m. int (length (the (map_option f_Content (map_of (kv # files) p))))) = total ?m"
    unfolding total_def by (rule sum.cong) (use k in \<open>auto simp: kv\<close>)
  ultimately have "total (\<lambda>p. map_option f_Content (map_of (kv # files) p)) = int (length (f_Content v)) + total ?m"
    unfolding total_def dom using k by (simp add: kv)
  then show ?case using Cons by (simp add: kv weight_def file_size_def)
qed (simp add: total_def weight_def)

lemma contents_total: "disk_ok d \<Longrightarrow> total (contents_of d) = d_used d"
  using weight_total[of "d_files d"] by (simp add: disk_ok_def contents_of_def[abs_def])

subsection \<open>Every operation refines its specification\<close>

definition refines :: "int \<Rightarrow> (storage_error + unit) \<times> disk \<Rightarrow> (storage_error + unit) \<times> fs \<Rightarrow> bool" where
  "refines quota r s \<longleftrightarrow> disk_ok (snd r) \<and> d_maxSize (snd r) = quota \<and> s = (fst r, contents_of (snd r))"

lemma refines_same: "disk_ok d \<Longrightarrow> refines (d_maxSize d) (e, d) (e, contents_of d)"
  by (simp add: refines_def)

lemma cleanPath_safe: "cleanPath path = Inr p \<Longrightarrow> ''..'' \<notin> set (split_byte (CHR ''/'') p)"
  by (auto simp: cleanPath_def Let_def split: if_splits)

lemma contents_of_update:
  "contents_of (d\<lparr>d_used := u, d_files := AList.update p f (d_files d)\<rparr>) = (contents_of d)(p \<mapsto> f_Content f)"
  by (auto simp: contents_of_def fun_eq_iff)

lemma on_clean_refines:
  assumes "disk_ok d" "\<And>p. ''..'' \<notin> set (split_byte (CHR ''/'') p) \<Longrightarrow> refines (d_maxSize d) (k p) (k' p)"
  shows "refines (d_maxSize d) (with_path path k d) (on_clean path k' (contents_of d))"
  using assms cleanPath_safe[of path] refines_same[OF assms(1)]
  by (auto simp: with_path_def on_clean_def split: sum.splits)

text \<open>Storing a file under a clean path, as \<open>putCleaned\<close> and \<open>Copy\<close> do it.\<close>

lemma store_refines:
  assumes ok: "disk_ok d" and safe: "''..'' \<notin> set (split_byte (CHR ''/'') p)"
    and used: "u = d_used d - (case map_of (d_files d) p of None \<Rightarrow> 0 | Some g \<Rightarrow> file_size g) + file_size f"
  shows "refines (d_maxSize d)
    (if d_maxSize d > 0 \<and> u > d_maxSize d then (Inl ErrQuotaExceeded, d)
     else (Inr (), d\<lparr>d_used := u, d_files := AList.update p f (d_files d)\<rparr>))
    (store (d_maxSize d) (contents_of d) p (f_Content f))"
proof -
  let ?d = "d\<lparr>d_used := u, d_files := AList.update p f (d_files d)\<rparr>"
  have weight: "u = weight (AList.update p f (d_files d))"
    using weight_update[of "d_files d" p f] ok used by (simp add: disk_ok_def)
  have "total ((contents_of d)(p \<mapsto> f_Content f)) = u"
    using weight_total[of "AList.update p f (d_files d)"] keys_distinct_update[of "d_files d" p f] ok weight
    unfolding contents_of_update[symmetric, where u = u] by (simp add: disk_ok_def contents_of_def[abs_def])
  moreover have "disk_ok ?d" if "d_maxSize d > 0 \<longrightarrow> u \<le> d_maxSize d"
    using ok safe that weight by (auto simp: disk_ok_def keys_distinct_update split: if_splits)
  ultimately show ?thesis
    using ok by (auto simp: store_def refines_def contents_of_update)
qed

lemma remove_file_ok:
  assumes "disk_ok d"
  shows "disk_ok (remove_file p d)" "d_maxSize (remove_file p d) = d_maxSize d" "contents_of (remove_file p d) = (contents_of d)(p := None)"
proof -
  show "disk_ok (remove_file p d)"
    using assms weight_delete[of "d_files d" p] file_size_nonneg
    by (auto simp: disk_ok_def remove_file_def keys_distinct_delete split: option.splits if_splits intro: order_trans[OF diff_left_mono[of 0]])
  show "d_maxSize (remove_file p d) = d_maxSize d" by (simp add: remove_file_def split: option.splits)
  show "contents_of (remove_file p d) = (contents_of d)(p := None)"
    by (auto simp: remove_file_def contents_of_def fun_eq_iff split: option.splits)
qed

lemma remove_files_ok:
  assumes "disk_ok d"
  shows "disk_ok (fold remove_file ps d) \<and> d_maxSize (fold remove_file ps d) = d_maxSize d \<and>
    contents_of (fold remove_file ps d) = contents_of d |` (- set ps)"
  using assms
proof (induction ps arbitrary: d)
  case (Cons p ps)
  have "(contents_of d)(p := None) |` (- set ps) = contents_of d |` (- set (p # ps))" by (auto simp: restrict_map_def fun_eq_iff)
  then show ?case
    using Cons.IH[OF remove_file_ok(1)[OF Cons.prems], of p] unfolding remove_file_ok(2,3)[OF Cons.prems] fold_simps(2) by metis
qed (simp add: restrict_map_def fun_eq_iff)

lemma fold_filter_if: "fold (\<lambda>x s. if P x then f x s else s) xs s = fold f (filter P xs) s"
  by (induction xs arbitrary: s) simp_all

lemma putCleaned_refines:
  assumes "disk_ok d" "''..'' \<notin> set (split_byte (CHR ''/'') p)"
  shows "refines (d_maxSize d) (putCleaned sniff now p c d) (store (d_maxSize d) (contents_of d) p c)"
proof -
  let ?f = "\<lparr>f_Content = c, f_LastModified = now, f_MimeType = DetectMimeType sniff c\<rparr>"
  define u where "u = d_used d - (case map_of (d_files d) p of None \<Rightarrow> 0 | Some g \<Rightarrow> file_size g) + file_size ?f"
  have "u = (case map_of (d_files d) p of Some existing \<Rightarrow> d_used d - file_size existing + int (length c) | None \<Rightarrow> d_used d + int (length c))"
    by (simp add: u_def file_size_def split: option.splits)
  then have "putCleaned sniff now p c d = (if d_maxSize d > 0 \<and> u > d_maxSize d then (Inl ErrQuotaExceeded, d)
     else (Inr (), d\<lparr>d_used := u, d_files := AList.update p ?f (d_files d)\<rparr>))"
    by (simp only: putCleaned_def Let_def)
  then show ?thesis using store_refines[OF assms u_def] by simp
qed

lemma Put_refines:
  "disk_ok d \<Longrightarrow> refines (d_maxSize d) (Put sniff now path c d) (spec_op (d_maxSize d) (OpPut path c) (contents_of d))"
  unfolding Put_def spec_op.simps by (rule on_clean_refines) (auto intro: putCleaned_refines)

lemma PutStream_refines:
  "disk_ok d \<Longrightarrow> refines (d_maxSize d) (PutStream sniff now path s d) (spec_op (d_maxSize d) (OpPutStream path s) (contents_of d))"
  unfolding PutStream_def
  by (cases s) (auto simp: Let_def not_less intro!: on_clean_refines putCleaned_refines refines_same)

lemma Delete_refines:
  "disk_ok d \<Longrightarrow> refines (d_maxSize d) (disk_Delete paths d) (spec_op (d_maxSize d) (OpDelete paths) (contents_of d))"
  using remove_files_ok[of d] by (auto simp: disk_Delete_def refines_def split: sum.splits)

lemma Copy_refines:
  assumes ok: "disk_ok d"
  shows "refines (d_maxSize d) (disk_Copy now a b d) (spec_op (d_maxSize d) (OpCopy a b) (contents_of d))"
  unfolding disk_Copy_def spec_op.simps
proof (intro on_clean_refines ok)
  fix p q
  assume safe: "''..'' \<notin> set (split_byte (CHR ''/'') p)" "''..'' \<notin> set (split_byte (CHR ''/'') q)"
  let ?code = "\<lambda>f. let replaced = (case map_of (d_files d) q of Some existing \<Rightarrow> file_size existing | None \<Rightarrow> 0);
      additionalSpace = file_size f - replaced
    in if d_maxSize d > 0 \<and> d_used d + additionalSpace > d_maxSize d then (Inl ErrQuotaExceeded, d)
       else (Inr (), d\<lparr>d_used := d_used d - replaced + file_size f,
         d_files := AList.update q \<lparr>f_Content = f_Content f, f_LastModified = now, f_MimeType = f_MimeType f\<rparr> (d_files d)\<rparr>)"
  have "refines (d_maxSize d) (?code f) (store (d_maxSize d) (contents_of d) q (f_Content f))" for f
  proof -
    let ?f = "\<lparr>f_Content = f_Content f, f_LastModified = now, f_MimeType = f_MimeType f\<rparr>"
    define u where "u = d_used d - (case map_of (d_files d) q of None \<Rightarrow> 0 | Some g \<Rightarrow> file_size g) + file_size ?f"
    have size: "file_size ?f = file_size f" by (simp add: file_size_def)
    have "?code f = (if d_maxSize d > 0 \<and> u > d_maxSize d then (Inl ErrQuotaExceeded, d)
        else (Inr (), d\<lparr>d_used := u, d_files := AList.update q ?f (d_files d)\<rparr>))"
      unfolding u_def size Let_def by (simp add: algebra_simps)
    then show ?thesis using store_refines[OF ok safe(2) u_def] by simp
  qed
  then show "refines (d_maxSize d) (case map_of (d_files d) p of None \<Rightarrow> (Inl ErrFileNotFound, d) | Some f \<Rightarrow> ?code f)
     (case contents_of d p of None \<Rightarrow> (Inl ErrFileNotFound, contents_of d) | Some c \<Rightarrow> store (d_maxSize d) (contents_of d) q c)"
    using refines_same[OF ok] by (cases "map_of (d_files d) p") (simp_all add: contents_of_def)
qed

lemma Move_refines:
  assumes ok: "disk_ok d"
  shows "refines (d_maxSize d) (disk_Move now a b d) (spec_op (d_maxSize d) (OpMove a b) (contents_of d))"
  unfolding disk_Move_def spec_op.simps
proof (intro on_clean_refines ok)
  fix p q
  assume safe: "''..'' \<notin> set (split_byte (CHR ''/'') p)" "''..'' \<notin> set (split_byte (CHR ''/'') q)"
  let ?moved = "\<lambda>f. AList.delete p (AList.update q (f\<lparr>f_LastModified := now\<rparr>) (d_files d))"
  let ?replaced = "case map_of (d_files d) q of Some existing \<Rightarrow> file_size existing | None \<Rightarrow> 0"
  let ?d = "\<lambda>f. d\<lparr>d_used := d_used d - ?replaced, d_files := ?moved f\<rparr>"
  have moved: "refines (d_maxSize d) (Inr (), ?d f) (Inr (), ((contents_of d)(p := None))(q \<mapsto> f_Content f))"
    if f: "map_of (d_files d) p = Some f" "p \<noteq> q" for f
  proof -
    have keys: "keys_distinct (d_files d)" using ok by (simp add: disk_ok_def)
    have "weight (?moved f) = d_used d - ?replaced"
      using weight_delete[OF keys_distinct_update[OF keys], of p q "f\<lparr>f_LastModified := now\<rparr>"]
        weight_update[OF keys, of q "f\<lparr>f_LastModified := now\<rparr>"] f ok
      by (simp add: disk_ok_def file_size_def)
    moreover have "0 \<le> ?replaced" by (simp split: option.splits)
    ultimately have "disk_ok (?d f)"
      using ok safe keys by (auto simp: disk_ok_def keys_distinct_delete keys_distinct_update split: if_splits)
    moreover have "contents_of (?d f) = ((contents_of d)(p := None))(q \<mapsto> f_Content f)"
      using f by (auto simp: contents_of_def fun_eq_iff)
    ultimately show ?thesis by (simp add: refines_def)
  qed
  have same: "((contents_of d)(p := None))(p \<mapsto> f_Content f) = contents_of d" if "map_of (d_files d) p = Some f" for f
    using that by (auto simp: contents_of_def fun_eq_iff)
  show "refines (d_maxSize d)
     (case map_of (d_files d) p of None \<Rightarrow> (Inl ErrFileNotFound, d)
      | Some f \<Rightarrow> if p = q then (Inr (), d) else let replaced = ?replaced in
          (Inr (), d\<lparr>d_used := d_used d - replaced, d_files := ?moved f\<rparr>))
     (case contents_of d p of None \<Rightarrow> (Inl ErrFileNotFound, contents_of d)
      | Some c \<Rightarrow> (Inr (), ((contents_of d)(p := None))(q \<mapsto> c)))"
  proof (cases "map_of (d_files d) p")
    case None
    then show ?thesis using refines_same[OF ok] by (simp add: contents_of_def)
  next
    case (Some f)
    then have c: "contents_of d p = Some (f_Content f)" by (simp add: contents_of_def)
    show ?thesis
      using moved[OF Some] same[OF Some] refines_same[OF ok, of "Inr ()"] unfolding Some c Let_def option.case
      by (cases "p = q") simp_all
  qed
qed

lemma DeleteDirectory_refines:
  assumes ok: "disk_ok d"
  shows "refines (d_maxSize d) (disk_DeleteDirectory path d) (spec_op (d_maxSize d) (OpDeleteDirectory path) (contents_of d))"
  unfolding disk_DeleteDirectory_def spec_op.simps
proof (intro on_clean_refines ok)
  fix dir
  let ?ps = "filter (\<lambda>path. as_prefix dir = [] \<or> has_prefix path (as_prefix dir)) (map fst (d_files d))"
  have "contents_of d |` (- set ?ps) = contents_of d |` (- inside dir)"
  proof
    fix p
    have "contents_of d p = None" if "p \<notin> fst ` set (d_files d)"
      using that map_of_eq_None_iff[of "d_files d" p] by (simp add: contents_of_def)
    then show "(contents_of d |` (- set ?ps)) p = (contents_of d |` (- inside dir)) p"
      by (cases "p \<in> fst ` set (d_files d)") (auto simp: restrict_map_def inside_def)
  qed
  then show "refines (d_maxSize d)
      (let dir = as_prefix dir in (Inr (), fold (\<lambda>path d. if dir = [] \<or> has_prefix path dir then remove_file path d else d) (map fst (d_files d)) d))
      (Inr (), contents_of d |` (- inside dir))"
    using remove_files_ok[OF ok, of ?ps] by (simp add: Let_def fold_filter_if refines_def)
qed

lemma op_refines:
  assumes "disk_ok d"
  shows "refines (d_maxSize d) (disk_op sniff now op d) (spec_op (d_maxSize d) op (contents_of d))"
proof (cases op)
  case OpClear
  then show ?thesis using assms by (auto simp: disk_Clear_def refines_def disk_ok_def weight_def contents_of_def)
qed (use assms Put_refines PutStream_refines Delete_refines Copy_refines Move_refines DeleteDirectory_refines in simp_all)

subsection \<open>Runs\<close>

fun disk_run :: "(string \<Rightarrow> string) \<Rightarrow> (instant \<times> fs_op) list \<Rightarrow> disk \<Rightarrow> (storage_error + unit) list \<times> disk" where
  "disk_run sniff [] d = ([], d)"
| "disk_run sniff ((now, op) # ops) d =
     (case disk_op sniff now op d of (r, d) \<Rightarrow> (case disk_run sniff ops d of (rs, d) \<Rightarrow> (r # rs, d)))"

fun spec_run :: "int \<Rightarrow> fs_op list \<Rightarrow> fs \<Rightarrow> (storage_error + unit) list \<times> fs" where
  "spec_run quota [] m = ([], m)"
| "spec_run quota (op # ops) m =
     (case spec_op quota op m of (r, m) \<Rightarrow> (case spec_run quota ops m of (rs, m) \<Rightarrow> (r # rs, m)))"

lemma run_refines:
  assumes "disk_ok d" "disk_run sniff ops d = (rs, d')"
  shows "disk_ok d' \<and> d_maxSize d' = d_maxSize d \<and> spec_run (d_maxSize d) (map snd ops) (contents_of d) = (rs, contents_of d')"
  using assms
proof (induction ops arbitrary: d rs)
  case (Cons x ops)
  obtain now op where x: "x = (now, op)" by force
  obtain r d1 where op: "disk_op sniff now op d = (r, d1)" by force
  obtain rs1 where run: "disk_run sniff ops d1 = (rs1, d')" and rs: "rs = r # rs1"
    using Cons.prems(2) op by (auto simp: x split: prod.splits)
  have "disk_ok d1" "d_maxSize d1 = d_maxSize d" "spec_op (d_maxSize d) op (contents_of d) = (r, contents_of d1)"
    using op_refines[OF Cons.prems(1), of sniff now op] by (simp_all add: op refines_def)
  then show ?case using Cons.IH[OF _ run] by (simp add: x rs)
qed simp



subsection \<open>Listings\<close>

lemma AllFiles_listing:
  assumes "cleanPath directory = Inr dir" "disk_AllFiles directory d = Inr paths"
  shows "set paths = dom (contents_of d) \<inter> inside dir"
proof -
  have "paths = filter (\<lambda>path. path \<in> inside dir) (map fst (d_files d))"
    using assms by (simp add: disk_AllFiles_def Let_def inside_def)
  moreover have "dom (contents_of d) = set (map fst (d_files d))"
    using dom_map_of_conv_image_fst[of "d_files d"] by (auto simp: contents_of_def dom_def)
  ultimately show ?thesis by auto
qed

lemma Files_listing:
  assumes "cleanPath directory = Inr dir" "disk_Files directory d = Inr paths" "disk_AllFiles directory d = Inr all_paths"
  shows "set paths = {p \<in> set all_paths. CHR ''/'' \<notin> set (drop (length (as_prefix dir)) p)}"
  using assms by (auto simp: disk_Files_def disk_AllFiles_def Let_def has_prefix_def)

lemma DeleteDirectory_empties:
  assumes "disk_ok d" "cleanPath directory = Inr dir" "disk_DeleteDirectory directory d = (r, d')"
  shows "disk_AllFiles directory d' = Inr []"
proof -
  have "contents_of d' = contents_of d |` (- inside dir)"
    using DeleteDirectory_refines[OF assms(1), of directory] assms(2,3) by (simp add: refines_def on_clean_def)
  moreover obtain paths where "disk_AllFiles directory d' = Inr paths" using assms(2) by (simp add: disk_AllFiles_def Let_def)
  ultimately show ?thesis using AllFiles_listing[OF assms(2), of d' paths] by auto
qed

end
