(* ===== verification/Login_Throttle.thy ===== *)
theory Login_Throttle
  imports Cache_Props Go_Strconv Go_Time
begin

text \<open>
  Throttling of logins: the delays and the local admission slots of \<open>src/auth/throttle.go\<close> and the
  throttler of \<open>src/auth_throttle.go\<close>, which counts attempts in a cache store. The store is the
  record of its operations, the part of the interface \<open>CacheStore\<close> that the throttler calls, with
  the in-memory store of the cache as an instance. A request enters the throttler only through its
  context, which is left out. Durations and counts are kept on 64 bits where they are computed.
\<close>

subsection \<open>Delays\<close>

definition DefaultIdentifierDelay :: duration where
  "DefaultIdentifierDelay = second"

definition DefaultIdentifierDelayMax :: duration where
  "DefaultIdentifierDelayMax = 30 * second"

definition ProgressiveDelay :: "int \<Rightarrow> duration \<Rightarrow> duration \<Rightarrow> duration" where
  "ProgressiveDelay excess base ceiling0 =
     (if excess < 1 \<or> base \<le> 0 then 0
      else
        let ceiling = (if ceiling0 \<le> 0 then DefaultIdentifierDelayMax else ceiling0) in
        if base \<ge> ceiling then ceiling
        else
          let shift = excess - 1 in
          if shift > 40 then ceiling
          else
            let d = wrap64 (base * 2 ^ nat shift) in
            if d \<le> 0 \<or> d > ceiling then ceiling else d)"

subsection \<open>Local admission slots\<close>

type_synonym LocalLoginAdmitter = "(string, instant) gomap"

definition localAdmitterSweepAt :: nat where
  "localAdmitterSweepAt = 1024"

definition local_Admit :: "instant \<Rightarrow> string \<Rightarrow> duration \<Rightarrow> LocalLoginAdmitter \<Rightarrow> bool \<times> LocalLoginAdmitter" where
  "local_Admit now key hold slots =
     (if hold \<le> 0 then (True, slots)
      else
        let slots = (if length slots \<ge> localAdmitterSweepAt then filter (\<lambda>(_, until). until > now) slots else slots)
        in if (case map_of slots key of Some until \<Rightarrow> until > now | None \<Rightarrow> False) then (False, slots)
           else (True, AList.update key (now + hold) slots))"

definition local_Release :: "string \<Rightarrow> LocalLoginAdmitter \<Rightarrow> LocalLoginAdmitter" where
  "local_Release key slots = AList.delete key slots"

subsection \<open>The throttler\<close>

record 's counter_ops =
  op_Get :: "instant \<Rightarrow> string \<Rightarrow> 's \<Rightarrow> 's \<times> cache_value option"
  op_Add :: "instant \<Rightarrow> string \<Rightarrow> cache_value \<Rightarrow> duration \<Rightarrow> 's \<Rightarrow> 's \<times> (cache_error + bool)"
  op_Increment :: "instant \<Rightarrow> string \<Rightarrow> 64 word \<Rightarrow> 's \<Rightarrow> 's \<times> (cache_error + 64 word)"
  op_Put :: "instant \<Rightarrow> string \<Rightarrow> cache_value \<Rightarrow> duration \<Rightarrow> 's \<Rightarrow> 's \<times> cache_error option"
  op_Forget :: "string \<Rightarrow> 's \<Rightarrow> 's"

definition memory_ops :: "msize_fn \<Rightarrow> iter_fn \<Rightarrow> MemoryStore counter_ops" where
  "memory_ops msize iter = \<lparr>op_Get = GetCtx, op_Add = AddCtx msize iter, op_Increment = IncrementCtx iter,
     op_Put = PutCtx msize iter, op_Forget = ForgetCtx\<rparr>"

record cacheLoginThrottler =
  ct_maxAttempts :: int
  ct_identifierMaxAttempts :: int
  ct_ipMaxAttempts :: int
  ct_decay :: duration
  ct_delayBase :: duration
  ct_delayMax :: duration

definition newCacheLoginThrottler :: "int \<Rightarrow> int \<Rightarrow> int \<Rightarrow> duration \<Rightarrow> cacheLoginThrottler" where
  "newCacheLoginThrottler maxAttempts identifierMaxAttempts ipMaxAttempts decay =
     \<lparr>ct_maxAttempts = (if maxAttempts \<le> 0 then 5 else maxAttempts),
      ct_identifierMaxAttempts = (if identifierMaxAttempts \<le> 0 then 20 else identifierMaxAttempts),
      ct_ipMaxAttempts = (if ipMaxAttempts \<le> 0 then 50 else ipMaxAttempts),
      ct_decay = (if decay \<le> 0 then 60 * second else decay),
      ct_delayBase = DefaultIdentifierDelay, ct_delayMax = DefaultIdentifierDelayMax\<rparr>"

definition withDelay :: "duration \<Rightarrow> duration \<Rightarrow> cacheLoginThrottler \<Rightarrow> cacheLoginThrottler" where
  "withDelay base0 ceiling0 t =
     (let base = (if base0 < 0 then 0 else base0);
          ceiling = (if ceiling0 \<le> 0 then DefaultIdentifierDelayMax else ceiling0);
          ceiling = (if ceiling < base then base else ceiling)
      in t\<lparr>ct_delayBase := base, ct_delayMax := ceiling\<rparr>)"

definition limitFor :: "cacheLoginThrottler \<Rightarrow> string \<Rightarrow> int" where
  "limitFor t key =
     (if has_prefix key ''login:id:'' then ct_identifierMaxAttempts t
      else if has_prefix key ''login:ip:'' then ct_ipMaxAttempts t
      else ct_maxAttempts t)"

definition cacheKey :: "string \<Rightarrow> string" where
  "cacheKey key = ''velocity:auth:login:'' @ key"

text \<open>\<open>strconv.ParseInt\<close> with its error ignored: a number out of range is the nearest one, and the range
  is checked before the rest of the digits.\<close>

fun scan_uint :: "nat \<Rightarrow> string \<Rightarrow> nat option option" where
  "scan_uint n [] = Some (Some n)"
| "scan_uint n (c # s) =
     (case digit_value c of
        None \<Rightarrow> None
      | Some d \<Rightarrow> if n * 10 + d \<ge> 2 ^ 64 then Some None else scan_uint (n * 10 + d) s)"

definition parse_lenient :: "string \<Rightarrow> int" where
  "parse_lenient s =
     (let neg = (take 1 s = ''-''); digits = (if take 1 s = ''-'' \<or> take 1 s = ''+'' then drop 1 s else s) in
      if digits = [] then 0
      else (case scan_uint 0 digits of
              None \<Rightarrow> 0
            | Some n \<Rightarrow>
                let big = (case n of None \<Rightarrow> True | Some n \<Rightarrow> n \<ge> 2 ^ 63) in
                if big then (if neg then - (2 ^ 63) else 2 ^ 63 - 1)
                else (if neg then - int (the n) else int (the n))))"

definition numericCacheValue :: "cache_value \<Rightarrow> int" where
  "numericCacheValue v =
     (case v of
        CInt64 n \<Rightarrow> sint n
      | CInt n \<Rightarrow> sint n
      | CFloat64 m e \<Rightarrow> sint (int64_of_float m e)
      | CString s \<Rightarrow> parse_lenient s
      | _ \<Rightarrow> 0)"

definition throttle_Allow :: "cacheLoginThrottler \<Rightarrow> 's counter_ops option \<Rightarrow> instant \<Rightarrow> string \<Rightarrow> 's \<Rightarrow> bool \<times> 's" where
  "throttle_Allow t store now key s =
     (case store of
        None \<Rightarrow> (True, s)
      | Some ops \<Rightarrow>
          (case op_Get ops now (cacheKey key) s of
             (s, None) \<Rightarrow> (True, s)
           | (s, Some n) \<Rightarrow> (numericCacheValue n < limitFor t key, s)))"

definition countAttempt ::
  "cacheLoginThrottler \<Rightarrow> 's counter_ops \<Rightarrow> instant \<Rightarrow> string \<Rightarrow> 's \<Rightarrow> (cache_error + int) \<times> 's" where
  "countAttempt t ops now key s =
     (case op_Add ops now (cacheKey key) (CInt64 1) (ct_decay t) s of
        (s, Inr True) \<Rightarrow> (Inr 1, s)
      | (s, _) \<Rightarrow>
          (case op_Increment ops now (cacheKey key) 1 s of
             (s, Inl e) \<Rightarrow> (Inl e, s)
           | (s, Inr n) \<Rightarrow>
               if n = 1 then (Inr 1, fst (op_Put ops now (cacheKey key) (CInt64 1) (ct_decay t) s))
               else (Inr (sint n), s)))"

definition delayFor :: "cacheLoginThrottler \<Rightarrow> int \<Rightarrow> duration" where
  "delayFor t excess = (if ct_delayBase t \<le> 0 then 0 else ProgressiveDelay excess (ct_delayBase t) (ct_delayMax t))"

definition Reserve ::
  "cacheLoginThrottler \<Rightarrow> 's counter_ops option \<Rightarrow> instant \<Rightarrow> string \<Rightarrow> 's \<Rightarrow> (bool \<times> duration) \<times> 's" where
  "Reserve t store now key s =
     (case store of
        None \<Rightarrow> ((True, 0), s)
      | Some ops \<Rightarrow>
          (case countAttempt t ops now key s of
             (Inl _, s) \<Rightarrow> ((True, 0), s)
           | (Inr n, s) \<Rightarrow>
               let limit = limitFor t key in
               if n \<le> limit then ((True, 0), s) else ((False, delayFor t (n - limit)), s)))"

definition throttle_Delay :: "cacheLoginThrottler \<Rightarrow> 's counter_ops option \<Rightarrow> instant \<Rightarrow> string \<Rightarrow> 's \<Rightarrow> duration \<times> 's" where
  "throttle_Delay t store now key s =
     (case store of
        None \<Rightarrow> (0, s)
      | Some ops \<Rightarrow>
          if ct_delayBase t \<le> 0 then (0, s)
          else (case op_Get ops now (cacheKey key) s of
                  (s, None) \<Rightarrow> (0, s)
                | (s, Some n) \<Rightarrow> (delayFor t (numericCacheValue n - limitFor t key), s)))"

definition throttle_Admit ::
  "'s counter_ops option \<Rightarrow> instant \<Rightarrow> string \<Rightarrow> duration \<Rightarrow> 's \<Rightarrow> bool \<times> 's" where
  "throttle_Admit store now key hold s =
     (case store of
        None \<Rightarrow> (True, s)
      | Some ops \<Rightarrow>
          if hold \<le> 0 then (True, s)
          else (case op_Add ops now (cacheKey key @ '':trial'') (CInt64 1) hold s of
                  (s, Inl _) \<Rightarrow> (True, s)
                | (s, Inr added) \<Rightarrow> (added, s)))"

definition RecordFailure :: "cacheLoginThrottler \<Rightarrow> 's counter_ops option \<Rightarrow> instant \<Rightarrow> string \<Rightarrow> 's \<Rightarrow> 's" where
  "RecordFailure t store now key s = (case store of None \<Rightarrow> s | Some ops \<Rightarrow> snd (countAttempt t ops now key s))"

definition RecordSuccess :: "'s counter_ops option \<Rightarrow> string \<Rightarrow> 's \<Rightarrow> 's" where
  "RecordSuccess store key s =
     (case store of
        None \<Rightarrow> s
      | Some ops \<Rightarrow> op_Forget ops (cacheKey key @ '':trial'') (op_Forget ops (cacheKey key) s))"

subsection \<open>Optional capabilities of a throttler\<close>

text \<open>A throttler that is absent, or present with or without the capability of a delay; the fallback
  slots of a process may be absent too.\<close>

definition IdentifierDelay :: "(string \<Rightarrow> 's \<Rightarrow> duration \<times> 's) option option \<Rightarrow> string \<Rightarrow> 's \<Rightarrow> duration \<times> 's" where
  "IdentifierDelay throttler key s =
     (case throttler of
        None \<Rightarrow> (0, s)
      | Some None \<Rightarrow> (DefaultIdentifierDelay, s)
      | Some (Some Delay) \<Rightarrow> (case Delay key s of (delay, s) \<Rightarrow> (if delay < 0 then 0 else delay, s)))"

definition AdmitIdentifierTrial ::
  "(string \<Rightarrow> duration \<Rightarrow> 's \<Rightarrow> bool \<times> 's) option \<Rightarrow> instant \<Rightarrow> string \<Rightarrow> duration \<Rightarrow>
   's \<times> LocalLoginAdmitter option \<Rightarrow> bool \<times> 's \<times> LocalLoginAdmitter option" where
  "AdmitIdentifierTrial admitter now key hold st =
     (if hold \<le> 0 then (True, st)
      else case (admitter, st) of
             (Some Admit, s, fallback) \<Rightarrow> (case Admit key hold s of (ok, s) \<Rightarrow> (ok, s, fallback))
           | (None, s, None) \<Rightarrow> (True, s, None)
           | (None, s, Some slots) \<Rightarrow> (case local_Admit now key hold slots of (ok, slots) \<Rightarrow> (ok, s, Some slots)))"

subsection \<open>Keys\<close>

text \<open>The keys of an attempt, of its normalised identifier and its client address; SHA-256 is the
  parameter \<open>sha256\<close>.\<close>

definition pairThrottleKey :: "(string \<Rightarrow> string) \<Rightarrow> string \<Rightarrow> string \<Rightarrow> string" where
  "pairThrottleKey sha256 ident ip = ''login:'' @ EncodeToString (take 8 (sha256 (ident @ [CHR 0x1F] @ ip)))"

definition ThrottleKeys :: "(string \<Rightarrow> string) \<Rightarrow> string \<Rightarrow> string \<Rightarrow> string list" where
  "ThrottleKeys sha256 ident ip =
     [pairThrottleKey sha256 ident ip] @
     (if ident \<noteq> [] then [''login:id:'' @ EncodeToString (take 8 (sha256 ident))] else []) @
     (if ip \<noteq> [] then [''login:ip:'' @ EncodeToString (take 8 (sha256 ip))] else [])"

end
