(* ===== verification/Login_Props.thy ===== *)
theory Login_Props
  imports Login_Throttle
begin

text \<open>
  The login throttler over a counting store. The contract of the store is a locale, with the laws of
  add-if-absent and increment that the throttler relies on; the in-memory cache, without a bound on
  its entries, is an instance. Delays are bounded, and exact for the default settings.
\<close>

subsection \<open>Delays\<close>

lemma ProgressiveDelay_bounds:
  assumes "1 \<le> excess" "0 < base" "0 < ceiling"
  shows "0 < ProgressiveDelay excess base ceiling" "ProgressiveDelay excess base ceiling \<le> ceiling"
  using assms by (auto simp: ProgressiveDelay_def Let_def)

lemma ProgressiveDelay_exact:
  assumes "1 \<le> excess" "0 < base" "base < ceiling" "excess \<le> 41" "base * 2 ^ nat (excess - 1) < 2 ^ 63"
  shows "ProgressiveDelay excess base ceiling = min ceiling (base * 2 ^ nat (excess - 1))"
proof -
  have "wrap64 (base * 2 ^ nat (excess - 1)) = base * 2 ^ nat (excess - 1)"
    using assms(2,5) by (intro wrap64_id) (auto intro: order_trans[of _ 0])
  moreover have "0 < base * 2 ^ nat (excess - 1)" using assms(2) by simp
  ultimately show ?thesis using assms by (simp add: ProgressiveDelay_def Let_def not_le)
qed

text \<open>The shift wraps for long runs of failures; with a base that is not a multiple of a high power of
  two the delay then collapses: here from the ceiling of 30 seconds to little more than one.\<close>

lemma ProgressiveDelay_collapses:
  "ProgressiveDelay 30 (2 ^ 34 + 1) (30 * second) = 30 * second"
  "ProgressiveDelay 31 (2 ^ 34 + 1) (30 * second) = 2 ^ 30"
  by (simp_all add: ProgressiveDelay_def Let_def second_def wrap64_def)

subsection \<open>Local slots\<close>

text \<open>While a slot is held nobody else is admitted under its key, and a sweep of the other slots does
  not change that.\<close>

lemma local_Admit_exclusive:
  assumes "local_Admit now key hold slots = (True, slots')" "0 < hold" "now' < now + hold" "0 < hold'"
    "keys_distinct slots"
  shows "fst (local_Admit now' key hold' slots') = False"
proof -
  have "map_of slots' key = Some (now + hold)"
    using assms(1,2) by (auto simp: local_Admit_def Let_def split: if_splits option.splits)
  moreover have "keys_distinct slots'"
    using assms(1,2,5)
    by (auto simp: local_Admit_def Let_def intro!: keys_distinct_filter keys_distinct_update split: if_splits option.splits)
  ultimately have "map_of (filter (\<lambda>(_, until). until > now') slots') key = Some (now + hold)"
    using assms(3) by (simp add: map_of_filter_distinct)
  then show ?thesis using \<open>map_of slots' key = Some (now + hold)\<close> assms(3,4) by (simp add: local_Admit_def Let_def)
qed

subsection \<open>Keys\<close>

lemma hex_head: "EncodeToString s = c # rest \<Longrightarrow> c \<noteq> CHR ''i''"
  using EncodeToString_bytes[of c s] by (auto simp: byte_of_def)

text \<open>Each key of an attempt is counted against the limit of its own dimension, and the keys differ.\<close>

lemma pair_key_limit: "limitFor t (pairThrottleKey sha256 ident ip) = ct_maxAttempts t"
  using hex_head
  by (cases "EncodeToString (take 8 (sha256 (ident @ [CHR 0x1F] @ ip)))")
    (auto simp: limitFor_def pairThrottleKey_def has_prefix_def)

lemma ThrottleKeys_limits:
  "map (limitFor t) (ThrottleKeys sha256 ident ip) =
     [ct_maxAttempts t] @ (if ident \<noteq> [] then [ct_identifierMaxAttempts t] else []) @ (if ip \<noteq> [] then [ct_ipMaxAttempts t] else [])"
  by (simp add: ThrottleKeys_def pair_key_limit) (simp add: limitFor_def has_prefix_def)

lemma ThrottleKeys_distinct: "distinct (ThrottleKeys sha256 ident ip)"
  using hex_head by (auto simp: ThrottleKeys_def pairThrottleKey_def)

subsection \<open>The contract of a counting store\<close>

locale counter_store =
  fixes ok :: "'s \<Rightarrow> bool" and cell :: "'s \<Rightarrow> string \<Rightarrow> (cache_value \<times> instant option) option" and ops :: "'s counter_ops"
  assumes add_ok: "ok s \<Longrightarrow> op_Add ops now k v ttl s = (s', r) \<Longrightarrow> ok s'"
    and incr_ok: "ok s \<Longrightarrow> op_Increment ops now k n s = (s', r') \<Longrightarrow> ok s'"
    and put_ok: "ok s \<Longrightarrow> op_Put ops now k v ttl s = (s', r'') \<Longrightarrow> ok s'"
    and add_frame: "ok s \<Longrightarrow> op_Add ops now k v ttl s = (s', r) \<Longrightarrow> k' \<noteq> k \<Longrightarrow> cell s' k' = cell s k'"
    and incr_frame: "ok s \<Longrightarrow> op_Increment ops now k n s = (s', r') \<Longrightarrow> k' \<noteq> k \<Longrightarrow> cell s' k' = cell s k'"
    and put_frame: "ok s \<Longrightarrow> op_Put ops now k v ttl s = (s', r'') \<Longrightarrow> k' \<noteq> k \<Longrightarrow> cell s' k' = cell s k'"
    and add_free: "ok s \<Longrightarrow> \<not> live_entry now (cell s k) \<Longrightarrow> 0 < ttl \<Longrightarrow> op_Add ops now k v ttl s = (s', r) \<Longrightarrow>
      r = Inr True \<and> cell s' k = Some (v, Some (now + ttl))"
    and add_live: "ok s \<Longrightarrow> live_entry now (cell s k) \<Longrightarrow> op_Add ops now k v ttl s = (s, Inr False)"
    and incr_live: "ok s \<Longrightarrow> cell s k = Some (CInt64 c, e) \<Longrightarrow> live_entry now (Some (CInt64 c, e)) \<Longrightarrow>
      op_Increment ops now k n s = (s', r') \<Longrightarrow> r' = Inr (c + n) \<and> cell s' k = Some (CInt64 (c + n), e)"

fun reserve_run ::
  "cacheLoginThrottler \<Rightarrow> 's counter_ops \<Rightarrow> (instant \<times> string) list \<Rightarrow> 's \<Rightarrow> (string \<times> bool \<times> duration) list \<times> 's" where
  "reserve_run t ops [] s = ([], s)"
| "reserve_run t ops ((now, key) # evs) s =
     (case Reserve t (Some ops) now key s of
        (r, s) \<Rightarrow> (case reserve_run t ops evs s of (rs, s) \<Rightarrow> ((key, r) # rs, s)))"

definition outcome :: "cacheLoginThrottler \<Rightarrow> string \<Rightarrow> nat \<Rightarrow> bool \<times> duration" where
  "outcome t key i =
     (if int i \<le> limitFor t key then (True, 0) else (False, delayFor t (int i - limitFor t key)))"

definition answers :: "string \<Rightarrow> (string \<times> bool \<times> duration) list \<Rightarrow> (bool \<times> duration) list" where
  "answers key rs = map snd (filter (\<lambda>(k, _). k = key) rs)"

definition attempts :: "string \<Rightarrow> (instant \<times> string) list \<Rightarrow> nat" where
  "attempts key evs = length (filter (\<lambda>(_, k). k = key) evs)"

lemma cacheKey_inj [simp]: "cacheKey k = cacheKey k' \<longleftrightarrow> k = k'"
  by (simp add: cacheKey_def)

lemma sint_of_nat_small:
  assumes "int n < 2 ^ 63"
  shows "sint (of_nat n :: 64 word) = int n"
proof -
  have "(of_nat n :: 64 word) = word_of_int (int n)" by simp
  then have "sint (of_nat n :: 64 word) = signed_take_bit 63 (int n)" by (simp only: signed_of_int) simp
  also have "\<dots> = int n" using assms by (intro signed_take_bit_int_eq_self) auto
  finally show ?thesis .
qed

context counter_store
begin

lemma count_frame:
  assumes "ok s" "countAttempt t ops now k s = (r, s')"
  shows "ok s'" "k' \<noteq> k \<Longrightarrow> cell s' (cacheKey k') = cell s (cacheKey k')"
proof -
  obtain s1 r1 where add: "op_Add ops now (cacheKey k) (CInt64 1) (ct_decay t) s = (s1, r1)" by force
  obtain s2 r2 where incr: "op_Increment ops now (cacheKey k) 1 s1 = (s2, r2)" by force
  obtain s3 r3 where put: "op_Put ops now (cacheKey k) (CInt64 1) (ct_decay t) s2 = (s3, r3)" by force
  have "s' = s1 \<or> s' = s2 \<or> s' = s3"
    using assms(2) add incr put by (auto simp: countAttempt_def split: sum.splits bool.splits if_splits)
  moreover have ok: "ok s1" "ok s2" "ok s3" using assms(1) add_ok[OF _ add] incr_ok[OF _ incr] put_ok[OF _ put] by blast+
  ultimately show "ok s'" by blast
  show "cell s' (cacheKey k') = cell s (cacheKey k')" if "k' \<noteq> k"
    using \<open>s' = s1 \<or> s' = s2 \<or> s' = s3\<close> that add_frame[OF assms(1) add, of "cacheKey k'"] incr_frame[OF ok(1) incr, of "cacheKey k'"]
      put_frame[OF ok(2) put, of "cacheKey k'"] by auto
qed

lemma count_first:
  assumes "ok s" "\<not> live_entry now (cell s (cacheKey key))" "0 < ct_decay t"
  shows "\<exists>s'. countAttempt t ops now key s = (Inr 1, s') \<and> cell s' (cacheKey key) = Some (CInt64 1, Some (now + ct_decay t))"
proof -
  obtain s' r where add: "op_Add ops now (cacheKey key) (CInt64 1) (ct_decay t) s = (s', r)" by force
  show ?thesis using add_free[OF assms add] add by (auto simp: countAttempt_def)
qed

lemma count_next:
  assumes "ok s" "cell s (cacheKey key) = Some (CInt64 (of_nat c), Some e)" "now < e" "1 \<le> c" "int (Suc c) < 2 ^ 63"
  shows "\<exists>s'. countAttempt t ops now key s = (Inr (int (Suc c)), s') \<and>
    cell s' (cacheKey key) = Some (CInt64 (of_nat (Suc c)), Some e)"
proof -
  have live: "live_entry now (cell s (cacheKey key))" using assms(2,3) by (simp add: live_entry_def)
  obtain s' r where incr: "op_Increment ops now (cacheKey key) 1 s = (s', r)" by force
  have r: "r = Inr (of_nat (Suc c))" "cell s' (cacheKey key) = Some (CInt64 (of_nat (Suc c)), Some e)"
    using incr_live[OF assms(1,2) _ incr] live assms(2) by (simp_all add: add.commute)
  have sint: "sint (of_nat (Suc c) :: 64 word) = int (Suc c)" by (rule sint_of_nat_small[OF assms(5)])
  have "(of_nat (Suc c) :: 64 word) \<noteq> 1"
  proof
    assume "(of_nat (Suc c) :: 64 word) = 1"
    then have "sint (of_nat (Suc c) :: 64 word) = 1" by (simp only:) simp
    then show False using sint assms(4) by simp
  qed
  then show ?thesis
    using sint incr r add_live[OF assms(1) live] by (simp add: countAttempt_def del: of_nat_Suc)
qed

end

context counter_store
begin

lemma Reserve_count:
  "countAttempt t ops now key s = (Inr (int i), s') \<Longrightarrow> Reserve t (Some ops) now key s = (outcome t key i, s')"
  by (simp add: Reserve_def outcome_def Let_def)

lemma Reserve_frame:
  assumes "ok s" "Reserve t (Some ops) now k s = (r, s')"
  shows "ok s'" "k' \<noteq> k \<Longrightarrow> cell s' (cacheKey k') = cell s (cacheKey k')"
proof -
  obtain c s1 where c: "countAttempt t ops now k s = (c, s1)" by force
  then have "s' = s1" using assms(2) by (auto simp: Reserve_def Let_def split: sum.splits if_splits)
  then show "ok s'" "k' \<noteq> k \<Longrightarrow> cell s' (cacheKey k') = cell s (cacheKey k')"
    using count_frame[OF assms(1) c] by blast+
qed

lemma run_counts:
  assumes "ok s" "cell s (cacheKey key) = Some (CInt64 (of_nat c), Some e)" "1 \<le> c"
    "\<forall>(now, _) \<in> set evs. now < e" "int (c + length evs) < 2 ^ 63"
  shows "answers key (fst (reserve_run t ops evs s)) = map (outcome t key) [Suc c..<Suc (c + attempts key evs)]"
  using assms
proof (induction evs arbitrary: s c)
  case Nil
  then show ?case by (simp add: answers_def attempts_def)
next
  case (Cons ev evs)
  obtain now k where ev: "ev = (now, k)" by force
  obtain r s' where r: "Reserve t (Some ops) now k s = (r, s')" by (meson surj_pair)
  have ok: "ok s'" using Reserve_frame(1)[OF Cons.prems(1) r] .
  have times: "now < e" "\<forall>(now, _) \<in> set evs. now < e" using Cons.prems(4) ev by auto
  show ?case
  proof (cases "k = key")
    case True
    obtain s1 where s1: "countAttempt t ops now key s = (Inr (int (Suc c)), s1)"
      "cell s1 (cacheKey key) = Some (CInt64 (of_nat (Suc c)), Some e)"
      using count_next[OF Cons.prems(1,2) times(1) Cons.prems(3)] Cons.prems(5) by auto
    have "r = outcome t key (Suc c)" "s' = s1" using Reserve_count[OF s1(1)] r True by auto
    moreover have "answers key (fst (reserve_run t ops evs s')) =
        map (outcome t key) [Suc (Suc c)..<Suc (Suc c + attempts key evs)]"
      using Cons.IH[OF ok, of "Suc c"] s1(2) \<open>s' = s1\<close> times(2) Cons.prems(5) by simp
    ultimately show ?thesis using True r ev
      by (auto simp: answers_def attempts_def upt_conv_Cons split: prod.splits simp del: upt_Suc)
  next
    case False
    have "answers key (fst (reserve_run t ops evs s')) = map (outcome t key) [Suc c..<Suc (c + attempts key evs)]"
      using Cons.IH[OF ok _ Cons.prems(3) times(2)] Reserve_frame(2)[OF Cons.prems(1) r, of key] Cons.prems(2,5) False by simp
    then show ?thesis using False r ev by (auto simp: answers_def attempts_def split: prod.splits)
  qed
qed

lemma window_outcomes:
  assumes "ok s" "\<not> live_entry t0 (cell s (cacheKey key))" "0 < ct_decay t"
    "\<forall>(now, _) \<in> set evs. now < t0 + ct_decay t" "int (Suc (length evs)) < 2 ^ 63"
  shows "answers key (fst (reserve_run t ops ((t0, key) # evs) s)) =
    map (outcome t key) [1..<Suc (attempts key ((t0, key) # evs))]"
proof -
  obtain s1 where s1: "countAttempt t ops t0 key s = (Inr (int 1), s1)"
    "cell s1 (cacheKey key) = Some (CInt64 (of_nat 1), Some (t0 + ct_decay t))"
    using count_first[OF assms(1,2,3)] by auto
  have "answers key (fst (reserve_run t ops evs s1)) = map (outcome t key) [Suc 1..<Suc (1 + attempts key evs)]"
    using run_counts[OF count_frame(1)[OF assms(1) s1(1)] s1(2) _ assms(4)] assms(5) by simp
  then show ?thesis using Reserve_count[OF s1(1)]
    by (auto simp: answers_def attempts_def upt_conv_Cons split: prod.splits simp del: upt_Suc)
qed

end

subsection \<open>The in-memory cache is a counting store\<close>

definition unbounded :: "iter_fn \<Rightarrow> MemoryStore \<Rightarrow> bool" where
  "unbounded iter s \<longleftrightarrow> iteration iter \<and> store_ok s \<and> ms_maxEntries s = 0 \<and> ms_maxValueBytes s \<le> 0"

definition cell_of :: "MemoryStore \<Rightarrow> string \<Rightarrow> (cache_value \<times> instant option) option" where
  "cell_of s k = entry s (prefixedKey s k)"

lemma prefixedKey_inj [simp]: "prefixedKey s k = prefixedKey s k' \<longleftrightarrow> k = k'"
  by (simp add: prefixedKey_def PrefixKey_def)

lemma unbounded_checkValueSize [simp]: "unbounded iter s \<Longrightarrow> checkValueSize msize s v = None"
  by (simp add: unbounded_def checkValueSize_def)

lemma unbounded_setLocked:
  assumes "unbounded iter s"
  shows "unbounded iter (setLocked iter now (prefixedKey s k) v e s)"
    and "cell_of (setLocked iter now (prefixedKey s k) v e s) k' = (if k' = k then Some (v, e) else cell_of s k')"
proof -
  have ok: "store_ok s" "iteration iter" "ms_maxEntries s = 0" "ms_maxValueBytes s \<le> 0"
    using assms by (auto simp: unbounded_def)
  note spec = setLocked_spec[OF ok(1,2)]
  note config = spec(2)[of now "prefixedKey s k" v e]
  show "unbounded iter (setLocked iter now (prefixedKey s k) v e s)"
    using spec(1) config ok by (simp add: unbounded_def same_config_def)
  show "cell_of (setLocked iter now (prefixedKey s k) v e s) k' = (if k' = k then Some (v, e) else cell_of s k')"
    using ok(3) by (simp add: cell_of_def same_config_prefixedKey[OF config] spec(3) victim_of_def)
qed

lemma AddCtx_unbounded:
  "unbounded iter s \<Longrightarrow> AddCtx msize iter now k v ttl s =
    (if live_entry now (cell_of s k) then (s, Inr False)
     else (setLocked iter now (prefixedKey s k) v (expirationFor now ttl) s, Inr True))"
  by (simp add: AddCtx_def cell_of_def live_entry_iff Let_def)

lemma IncrementCtx_unbounded:
  "\<exists>w. IncrementCtx iter now k n s = (s, Inl NotNumeric) \<or>
    (\<exists>e. IncrementCtx iter now k n s = (setLocked iter now (prefixedKey s k) w e s, Inr n))
    \<or> (\<exists>c e. IncrementCtx iter now k n s = (setLocked iter now (prefixedKey s k) w e s, Inr (c + n)))"
  by (auto simp: IncrementCtx_def Let_def split: option.splits)

lemma IncrementCtx_live:
  assumes "cell_of s k = Some (CInt64 c, e)" "live_entry now (Some (CInt64 c, e))"
  shows "IncrementCtx iter now k n s = (setLocked iter now (prefixedKey s k) (CInt64 (c + n)) e s, Inr (c + n))"
  using assms entry_SomeD[of s "prefixedKey s k" "CInt64 c" e]
  by (auto simp: IncrementCtx_def Let_def cell_of_def live_entry_def live_def numeric_def split: option.splits)

lemma IncrementCtx_set:
  assumes "IncrementCtx iter now k n s = (s', r)"
  obtains "s' = s" | w e where "s' = setLocked iter now (prefixedKey s k) w e s"
  using assms IncrementCtx_unbounded[of iter now k n s] by (metis prod.inject)

interpretation memory_counter: counter_store "unbounded iter" cell_of "memory_ops msize iter"
proof unfold_locales
  fix s now k v ttl s' r k' n r' r'' c e
  note set = unbounded_setLocked
  show "unbounded iter s \<Longrightarrow> op_Add (memory_ops msize iter) now k v ttl s = (s', r) \<Longrightarrow> unbounded iter s'"
    by (auto simp: memory_ops_def AddCtx_unbounded set split: if_splits)
  show "unbounded iter s \<Longrightarrow> op_Increment (memory_ops msize iter) now k n s = (s', r') \<Longrightarrow> unbounded iter s'"
    by (auto simp: memory_ops_def set elim: IncrementCtx_set)
  show "unbounded iter s \<Longrightarrow> op_Put (memory_ops msize iter) now k v ttl s = (s', r'') \<Longrightarrow> unbounded iter s'"
    by (auto simp: memory_ops_def PutCtx_def set)
  show "unbounded iter s \<Longrightarrow> op_Add (memory_ops msize iter) now k v ttl s = (s', r) \<Longrightarrow> k' \<noteq> k \<Longrightarrow> cell_of s' k' = cell_of s k'"
    by (auto simp: memory_ops_def AddCtx_unbounded set split: if_splits)
  show "unbounded iter s \<Longrightarrow> op_Increment (memory_ops msize iter) now k n s = (s', r') \<Longrightarrow> k' \<noteq> k \<Longrightarrow> cell_of s' k' = cell_of s k'"
    by (auto simp: memory_ops_def set elim: IncrementCtx_set)
  show "unbounded iter s \<Longrightarrow> op_Put (memory_ops msize iter) now k v ttl s = (s', r'') \<Longrightarrow> k' \<noteq> k \<Longrightarrow> cell_of s' k' = cell_of s k'"
    by (auto simp: memory_ops_def PutCtx_def set)
  show "unbounded iter s \<Longrightarrow> \<not> live_entry now (cell_of s k) \<Longrightarrow> 0 < ttl \<Longrightarrow> op_Add (memory_ops msize iter) now k v ttl s = (s', r) \<Longrightarrow>
      r = Inr True \<and> cell_of s' k = Some (v, Some (now + ttl))"
    by (auto simp: memory_ops_def AddCtx_unbounded set expirationFor_def)
  show "unbounded iter s \<Longrightarrow> live_entry now (cell_of s k) \<Longrightarrow> op_Add (memory_ops msize iter) now k v ttl s = (s, Inr False)"
    by (simp add: memory_ops_def AddCtx_unbounded)
  show "unbounded iter s \<Longrightarrow> cell_of s k = Some (CInt64 c, e) \<Longrightarrow> live_entry now (Some (CInt64 c, e)) \<Longrightarrow>
      op_Increment (memory_ops msize iter) now k n s = (s', r') \<Longrightarrow> r' = Inr (c + n) \<and> cell_of s' k = Some (CInt64 (c + n), e)"
    by (auto simp: memory_ops_def IncrementCtx_live set)
qed

lemma allowed_outcomes: "length (filter fst (map (outcome t key) [1..<Suc n])) = min n (nat (limitFor t key))"
proof (induction n)
  case (Suc n)
  then show ?case by (auto simp: outcome_def)
qed simp



end
