(* ===== verification/Collections.thy ===== *)
theory Collections
  imports Prelude Go_Time "HOL-Library.Multiset"
begin

text \<open>
  The slice operations of \<open>src/collect/collect.go\<close> and the fluent \<open>Collection\<close> of
  \<open>src/collect/collection.go\<close>. A loop over a slice is a recursion on the list with the loop's variables
  as arguments; a map that only records what has been seen is the list of its keys. The order of a key is
  acc, so the keys of the float types are those without NaN. A callback without a result is a function on
  an explicit state. The stable sort of the standard library is given by its contract, as insertion into the
  sorted rest, which determines the result whenever the comparison is a strict weak order. Slices are
  values, so copying them is the identity.
\<close>

subsection \<open>Selecting and transforming\<close>

fun Filter_loop :: "('a \<Rightarrow> bool) \<Rightarrow> 'a list \<Rightarrow> 'a list \<Rightarrow> 'a list" where
  "Filter_loop f [] result = result"
| "Filter_loop f (item # items) result = Filter_loop f items (if f item then result @ [item] else result)"

definition Filter :: "'a list \<Rightarrow> ('a \<Rightarrow> bool) \<Rightarrow> 'a list" where
  "Filter items f = Filter_loop f items []"

fun Reject_loop :: "('a \<Rightarrow> bool) \<Rightarrow> 'a list \<Rightarrow> 'a list \<Rightarrow> 'a list" where
  "Reject_loop f [] result = result"
| "Reject_loop f (item # items) result = Reject_loop f items (if \<not> f item then result @ [item] else result)"

definition Reject :: "'a list \<Rightarrow> ('a \<Rightarrow> bool) \<Rightarrow> 'a list" where
  "Reject items f = Reject_loop f items []"

text \<open>A slice of zero values, written at the index of each item.\<close>

fun Map_loop :: "('a \<Rightarrow> 'b) \<Rightarrow> nat \<Rightarrow> 'a list \<Rightarrow> 'b list \<Rightarrow> 'b list" where
  "Map_loop f i [] result = result"
| "Map_loop f i (item # items) result = Map_loop f (i + 1) items (result[i := f item])"

definition Map_items :: "'b \<Rightarrow> 'a list \<Rightarrow> ('a \<Rightarrow> 'b) \<Rightarrow> 'b list" where
  "Map_items zero items f = Map_loop f 0 items (replicate (length items) zero)"

fun Each :: "'a list \<Rightarrow> ('a \<Rightarrow> 's \<Rightarrow> 's) \<Rightarrow> 's \<Rightarrow> 's" where
  "Each [] f s = s"
| "Each (item # items) f s = Each items f (f item s)"

fun Reduce :: "'a list \<Rightarrow> 'b \<Rightarrow> ('b \<Rightarrow> 'a \<Rightarrow> 'b) \<Rightarrow> 'b" where
  "Reduce [] result f = result"
| "Reduce (item # items) result f = Reduce items (f result item) f"

definition Pluck :: "'b \<Rightarrow> 'a list \<Rightarrow> ('a \<Rightarrow> 'b) \<Rightarrow> 'b list" where
  "Pluck zero items f = Map_items zero items f"

fun FlatMap_loop :: "('a \<Rightarrow> 'b list) \<Rightarrow> 'a list \<Rightarrow> 'b list \<Rightarrow> 'b list" where
  "FlatMap_loop f [] result = result"
| "FlatMap_loop f (item # items) result = FlatMap_loop f items (result @ f item)"

definition FlatMap :: "'a list \<Rightarrow> ('a \<Rightarrow> 'b list) \<Rightarrow> 'b list" where
  "FlatMap items f = FlatMap_loop f items []"

definition Flatten :: "'a list list \<Rightarrow> 'a list" where
  "Flatten items = FlatMap_loop (\<lambda>grp. grp) items []"

fun Partition_loop :: "('a \<Rightarrow> bool) \<Rightarrow> 'a list \<Rightarrow> 'a list \<Rightarrow> 'a list \<Rightarrow> 'a list \<times> 'a list" where
  "Partition_loop f [] pass fail = (pass, fail)"
| "Partition_loop f (item # items) pass fail =
     (if f item then Partition_loop f items (pass @ [item]) fail else Partition_loop f items pass (fail @ [item]))"

definition Partition :: "'a list \<Rightarrow> ('a \<Rightarrow> bool) \<Rightarrow> 'a list \<times> 'a list" where
  "Partition items f = Partition_loop f items [] []"

fun Zip_loop :: "('a \<Rightarrow> 'b \<Rightarrow> 'c) \<Rightarrow> nat \<Rightarrow> nat \<Rightarrow> 'a list \<Rightarrow> 'b list \<Rightarrow> 'c list \<Rightarrow> 'c list" where
  "Zip_loop f i 0 a b result = result"
| "Zip_loop f i (Suc k) a b result = Zip_loop f (i + 1) k a b (result[i := f (a ! i) (b ! i)])"

definition Zip_items :: "'c \<Rightarrow> 'a list \<Rightarrow> 'b list \<Rightarrow> ('a \<Rightarrow> 'b \<Rightarrow> 'c) \<Rightarrow> 'c list" where
  "Zip_items zero a b f =
     (let n = (if length b < length a then length b else length a) in Zip_loop f 0 n a b (replicate n zero))"

fun Times_loop :: "(int \<Rightarrow> 'a) \<Rightarrow> nat \<Rightarrow> nat \<Rightarrow> 'a list \<Rightarrow> 'a list" where
  "Times_loop f i 0 result = result"
| "Times_loop f i (Suc k) result = Times_loop f (i + 1) k (result[i := f (int i)])"

definition Times_items :: "'a \<Rightarrow> int \<Rightarrow> (int \<Rightarrow> 'a) \<Rightarrow> 'a list" where
  "Times_items zero n f = (if n \<le> 0 then [] else Times_loop f 0 (nat n) (replicate (nat n) zero))"

fun Reverse_loop :: "nat \<Rightarrow> nat \<Rightarrow> 'a list \<Rightarrow> 'a list \<Rightarrow> 'a list" where
  "Reverse_loop n i [] result = result"
| "Reverse_loop n i (item # items) result = Reverse_loop n (i + 1) items (result[n - 1 - i := item])"

definition Reverse :: "'a \<Rightarrow> 'a list \<Rightarrow> 'a list" where
  "Reverse zero items = Reverse_loop (length items) 0 items (replicate (length items) zero)"

subsection \<open>Searching\<close>

fun Contains :: "'a list \<Rightarrow> ('a \<Rightarrow> bool) \<Rightarrow> bool" where
  "Contains [] f = False"
| "Contains (item # items) f = (if f item then True else Contains items f)"

fun Every :: "'a list \<Rightarrow> ('a \<Rightarrow> bool) \<Rightarrow> bool" where
  "Every [] f = True"
| "Every (item # items) f = (if \<not> f item then False else Every items f)"

fun None_of :: "'a list \<Rightarrow> ('a \<Rightarrow> bool) \<Rightarrow> bool" where
  "None_of [] f = True"
| "None_of (item # items) f = (if f item then False else None_of items f)"

fun First :: "'a list \<Rightarrow> ('a \<Rightarrow> bool) \<Rightarrow> 'a option" where
  "First [] f = None"
| "First (item # items) f = (if f item then Some item else First items f)"

text \<open>The index runs down from the last item; the argument is one more than it.\<close>

fun Last_loop :: "'a list \<Rightarrow> ('a \<Rightarrow> bool) \<Rightarrow> nat \<Rightarrow> 'a option" where
  "Last_loop items f 0 = None"
| "Last_loop items f (Suc i) = (if f (items ! i) then Some (items ! i) else Last_loop items f i)"

definition Last :: "'a list \<Rightarrow> ('a \<Rightarrow> bool) \<Rightarrow> 'a option" where
  "Last items f = Last_loop items f (length items)"

definition FirstWhere :: "'a list \<Rightarrow> ('a \<Rightarrow> bool) \<Rightarrow> 'a option" where
  "FirstWhere items f = First items f"

fun CountBy_loop :: "('a \<Rightarrow> bool) \<Rightarrow> 'a list \<Rightarrow> nat \<Rightarrow> nat" where
  "CountBy_loop f [] n = n"
| "CountBy_loop f (item # items) n = CountBy_loop f items (if f item then n + 1 else n)"

definition CountBy :: "'a list \<Rightarrow> ('a \<Rightarrow> bool) \<Rightarrow> nat" where
  "CountBy items f = CountBy_loop f items 0"

fun least_loop :: "('k \<Rightarrow> 'k \<Rightarrow> bool) \<Rightarrow> ('a \<Rightarrow> 'k) \<Rightarrow> 'k \<Rightarrow> 'a \<Rightarrow> 'a list \<Rightarrow> 'a" where
  "least_loop before f bestKey best [] = best"
| "least_loop before f bestKey best (item # items) =
     (if before (f item) bestKey then least_loop before f (f item) item items else least_loop before f bestKey best items)"

definition Min_item :: "'a list \<Rightarrow> ('a \<Rightarrow> 'k :: linorder) \<Rightarrow> 'a option" where
  "Min_item items f = (case items of [] \<Rightarrow> None | item # rest \<Rightarrow> Some (least_loop (<) f (f item) item rest))"

definition Max_item :: "'a list \<Rightarrow> ('a \<Rightarrow> 'k :: linorder) \<Rightarrow> 'a option" where
  "Max_item items f = (case items of [] \<Rightarrow> None | item # rest \<Rightarrow> Some (least_loop (>) f (f item) item rest))"

subsection \<open>Sets and groups\<close>

fun UniqueBy_loop :: "('a \<Rightarrow> 'k) \<Rightarrow> 'k list \<Rightarrow> 'a list \<Rightarrow> 'a list \<Rightarrow> 'a list" where
  "UniqueBy_loop f seen [] result = result"
| "UniqueBy_loop f seen (item # items) result =
     (if f item \<in> set seen then UniqueBy_loop f seen items result
      else UniqueBy_loop f (f item # seen) items (result @ [item]))"

definition UniqueBy :: "'a list \<Rightarrow> ('a \<Rightarrow> 'k) \<Rightarrow> 'a list" where
  "UniqueBy items f = UniqueBy_loop f [] items []"

definition Unique :: "'a list \<Rightarrow> 'a list" where
  "Unique items = UniqueBy_loop (\<lambda>item. item) [] items []"

definition Intersect :: "'a list \<Rightarrow> 'a list \<Rightarrow> 'a list" where
  "Intersect a b = Filter_loop (\<lambda>item. item \<in> set b) a []"

definition Diff :: "'a list \<Rightarrow> 'a list \<Rightarrow> 'a list" where
  "Diff a b = Filter_loop (\<lambda>item. item \<notin> set b) a []"

fun GroupBy_loop :: "('a \<Rightarrow> 'k) \<Rightarrow> 'a list \<Rightarrow> ('k, 'a list) gomap \<Rightarrow> ('k, 'a list) gomap" where
  "GroupBy_loop f [] result = result"
| "GroupBy_loop f (item # items) result =
     GroupBy_loop f items
       (AList.update (f item) ((case map_of result (f item) of None \<Rightarrow> [] | Some grp \<Rightarrow> grp) @ [item]) result)"

definition GroupBy :: "'a list \<Rightarrow> ('a \<Rightarrow> 'k) \<Rightarrow> ('k, 'a list) gomap" where
  "GroupBy items f = GroupBy_loop f items []"

fun KeyBy_loop :: "('a \<Rightarrow> 'k) \<Rightarrow> 'a list \<Rightarrow> ('k, 'a) gomap \<Rightarrow> ('k, 'a) gomap" where
  "KeyBy_loop f [] result = result"
| "KeyBy_loop f (item # items) result = KeyBy_loop f items (AList.update (f item) item result)"

definition KeyBy :: "'a list \<Rightarrow> ('a \<Rightarrow> 'k) \<Rightarrow> ('k, 'a) gomap" where
  "KeyBy items f = KeyBy_loop f items []"

subsection \<open>Sorting\<close>

fun insert_stable :: "('a \<Rightarrow> 'a \<Rightarrow> bool) \<Rightarrow> 'a \<Rightarrow> 'a list \<Rightarrow> 'a list" where
  "insert_stable lt x [] = [x]"
| "insert_stable lt x (y # ys) = (if lt y x then y # insert_stable lt x ys else x # y # ys)"

definition Sort_items :: "'a list \<Rightarrow> ('a \<Rightarrow> 'a \<Rightarrow> bool) \<Rightarrow> 'a list" where
  "Sort_items items lt = foldr (insert_stable lt) items []"

definition SortBy :: "'a list \<Rightarrow> ('a \<Rightarrow> 'k :: linorder) \<Rightarrow> 'a list" where
  "SortBy items f = Sort_items items (\<lambda>a b. f a < f b)"

definition SortByDesc :: "'a list \<Rightarrow> ('a \<Rightarrow> 'k :: linorder) \<Rightarrow> 'a list" where
  "SortByDesc items f = Sort_items items (\<lambda>a b. f a > f b)"

subsection \<open>Cutting\<close>

text \<open>Slices are shorter than 2^62 items, so the sum of an index and a size below the length does not
  wrap. The capacity of the result is computed before the loop, and a negative one panics.\<close>

function Chunk_loop :: "nat \<Rightarrow> 'a list \<Rightarrow> 'a list list" where
  "Chunk_loop k [] = []"
| "Chunk_loop 0 (x # xs) = []"
| "Chunk_loop (Suc k) (x # xs) = take (Suc k) (x # xs) # Chunk_loop (Suc k) (drop (Suc k) (x # xs))"
  by pat_completeness auto
termination
  by (relation "measure (\<lambda>(_, xs). length xs)") auto

definition go_div :: "int \<Rightarrow> int \<Rightarrow> int" where
  "go_div a b = sgn a * sgn b * (\<bar>a\<bar> div \<bar>b\<bar>)"

definition Chunk :: "'a list \<Rightarrow> int \<Rightarrow> 'a list list option" where
  "Chunk items sz =
     (if sz \<le> 0 then Some []
      else if go_div (wrap64 (wrap64 (int (length items) + sz) - 1)) sz < 0 then None
      else Some (Chunk_loop (nat sz) items))"

definition Take :: "'a list \<Rightarrow> int \<Rightarrow> 'a list" where
  "Take items n =
     (if n \<le> 0 then []
      else let n = (if n > int (length items) then int (length items) else n) in take (nat n) items)"

definition Skip :: "'a list \<Rightarrow> int \<Rightarrow> 'a list" where
  "Skip items n = (if n \<le> 0 then items else if n \<ge> int (length items) then [] else drop (nat n) items)"

definition Pop_item :: "'a list \<Rightarrow> 'a list \<times> 'a option" where
  "Pop_item items =
     (if items = [] then ([], None)
      else (take (length items - 1) items, Some (items ! (length items - 1))))"

definition Push_items :: "'a list \<Rightarrow> 'a list \<Rightarrow> 'a list" where
  "Push_items items new = items @ new"

definition Tap :: "'a list \<Rightarrow> ('a list \<Rightarrow> 's \<Rightarrow> 's) \<Rightarrow> 's \<Rightarrow> 'a list \<times> 's" where
  "Tap items f s = (items, f items s)"

definition When :: "'a list \<Rightarrow> bool \<Rightarrow> ('a list \<Rightarrow> 'a list) \<Rightarrow> 'a list" where
  "When items condition f = (if condition then f items else items)"

text \<open>Addition of floats is a parameter; it is applied from the left.\<close>

fun Sum_loop :: "('f \<Rightarrow> 'f \<Rightarrow> 'f) \<Rightarrow> ('a \<Rightarrow> 'f) \<Rightarrow> 'f \<Rightarrow> 'a list \<Rightarrow> 'f" where
  "Sum_loop add f acc [] = acc"
| "Sum_loop add f acc (item # items) = Sum_loop add f (add acc (f item)) items"

definition Sum_items :: "('f \<Rightarrow> 'f \<Rightarrow> 'f) \<Rightarrow> 'f \<Rightarrow> 'a list \<Rightarrow> ('a \<Rightarrow> 'f) \<Rightarrow> 'f" where
  "Sum_items add zero items f = Sum_loop add f zero items"

text \<open>\<open>rand.Shuffle\<close> swaps each item, from the last one down, with one drawn from those up to it; the
  draw for \<open>i\<close> candidates is the parameter.\<close>

fun Shuffle_loop :: "(nat \<Rightarrow> nat) \<Rightarrow> nat \<Rightarrow> 'a list \<Rightarrow> 'a list" where
  "Shuffle_loop draw 0 xs = xs"
| "Shuffle_loop draw (Suc i) xs =
     (let j = draw (Suc (Suc i)) in Shuffle_loop draw i (xs[Suc i := xs ! j, j := xs ! Suc i]))"

definition Shuffle :: "(nat \<Rightarrow> nat) \<Rightarrow> 'a list \<Rightarrow> 'a list" where
  "Shuffle draw items = Shuffle_loop draw (length items - 1) items"

subsection \<open>The fluent type\<close>

datatype 'a Collection = Collection (c_items: "'a list")

definition From :: "'a list \<Rightarrow> 'a Collection" where
  "From items = Collection items"

definition c_All :: "'a Collection \<Rightarrow> 'a list" where
  "c_All c = c_items c"

definition c_Count :: "'a Collection \<Rightarrow> nat" where
  "c_Count c = length (c_items c)"

definition c_IsEmpty :: "'a Collection \<Rightarrow> bool" where
  "c_IsEmpty c = (length (c_items c) = 0)"

definition c_IsNotEmpty :: "'a Collection \<Rightarrow> bool" where
  "c_IsNotEmpty c = (length (c_items c) > 0)"

definition c_Filter :: "('a \<Rightarrow> bool) \<Rightarrow> 'a Collection \<Rightarrow> 'a Collection" where
  "c_Filter f c = Collection (Filter (c_items c) f)"

definition c_Reject :: "('a \<Rightarrow> bool) \<Rightarrow> 'a Collection \<Rightarrow> 'a Collection" where
  "c_Reject f c = Collection (Reject (c_items c) f)"

definition c_Each :: "('a \<Rightarrow> 's \<Rightarrow> 's) \<Rightarrow> 'a Collection \<Rightarrow> 's \<Rightarrow> 'a Collection \<times> 's" where
  "c_Each f c s = (c, Each (c_items c) f s)"

definition c_Last :: "('a \<Rightarrow> bool) \<Rightarrow> 'a Collection \<Rightarrow> 'a option" where
  "c_Last f c = Last (c_items c) f"

definition c_First :: "('a \<Rightarrow> bool) \<Rightarrow> 'a Collection \<Rightarrow> 'a option" where
  "c_First f c = First (c_items c) f"

definition c_Reverse :: "'a \<Rightarrow> 'a Collection \<Rightarrow> 'a Collection" where
  "c_Reverse zero c = Collection (Reverse zero (c_items c))"

definition c_Sort :: "('a \<Rightarrow> 'a \<Rightarrow> bool) \<Rightarrow> 'a Collection \<Rightarrow> 'a Collection" where
  "c_Sort lt c = Collection (Sort_items (c_items c) lt)"

definition c_Chunk :: "int \<Rightarrow> 'a Collection \<Rightarrow> 'a list list option" where
  "c_Chunk sz c = Chunk (c_items c) sz"

definition c_Take :: "int \<Rightarrow> 'a Collection \<Rightarrow> 'a Collection" where
  "c_Take n c = Collection (Take (c_items c) n)"

definition c_Skip :: "int \<Rightarrow> 'a Collection \<Rightarrow> 'a Collection" where
  "c_Skip n c = Collection (Skip (c_items c) n)"

definition c_Pop :: "'a Collection \<Rightarrow> 'a Collection \<times> 'a option" where
  "c_Pop c = (case Pop_item (c_items c) of (remaining, item) \<Rightarrow> (Collection remaining, item))"

definition c_Push :: "'a list \<Rightarrow> 'a Collection \<Rightarrow> 'a Collection" where
  "c_Push new c = Collection (Push_items (c_items c) new)"

definition c_When :: "bool \<Rightarrow> ('a list \<Rightarrow> 'a list) \<Rightarrow> 'a Collection \<Rightarrow> 'a Collection" where
  "c_When condition f c = (if \<not> condition then Collection (c_items c) else Collection (f (c_items c)))"

subsection \<open>What the loops compute\<close>

lemma Filter_loop_filter: "Filter_loop f items result = result @ filter f items"
  by (induction items arbitrary: result) auto

lemma Reject_loop_filter: "Reject_loop f items result = result @ filter (\<lambda>x. \<not> f x) items"
  by (induction items arbitrary: result) auto

lemma Map_loop_map:
  "i + length items = length result \<Longrightarrow> Map_loop f i items result = take i result @ map f items"
  by (induction items arbitrary: i result) (auto simp: take_Suc_conv_app_nth)

lemma FlatMap_loop_concat: "FlatMap_loop f items result = result @ concat (map f items)"
  by (induction items arbitrary: result) auto

lemma Partition_loop_filter:
  "Partition_loop f items pass fail = (pass @ filter f items, fail @ filter (\<lambda>x. \<not> f x) items)"
  by (induction items arbitrary: pass fail) auto

lemma Zip_loop_map:
  "i + k = length result \<Longrightarrow> Zip_loop f i k a b result = take i result @ map (\<lambda>j. f (a ! j) (b ! j)) [i..<i + k]"
  by (induction k arbitrary: i result) (auto simp: take_Suc_conv_app_nth upt_conv_Cons simp del: upt_Suc)

lemma Times_loop_map:
  "i + k = length result \<Longrightarrow> Times_loop f i k result = take i result @ map (\<lambda>j. f (int j)) [i..<i + k]"
  by (induction k arbitrary: i result) (auto simp: take_Suc_conv_app_nth upt_conv_Cons simp del: upt_Suc)

lemma Reverse_loop_rev:
  "n = length result \<Longrightarrow> i + length items = n \<Longrightarrow> Reverse_loop n i items result = rev items @ drop (n - i) result"
proof (induction items arbitrary: i result)
  case (Cons item items)
  have "drop (n - Suc i) (result[n - 1 - i := item]) = item # drop (n - i) result"
    using Cons.prems by (simp add: Cons_nth_drop_Suc[symmetric] Suc_diff_Suc)
  moreover have "Reverse_loop n (Suc i) items (result[n - 1 - i := item]) =
      rev items @ drop (n - Suc i) (result[n - 1 - i := item])"
    using Cons.prems by (intro Cons.IH) auto
  ultimately show ?case by simp
qed simp

text \<open>The transforming operations are the functions of the list library that their comments describe.\<close>

lemma transforms:
  "Filter items p = filter p items" "Reject items p = filter (\<lambda>x. \<not> p x) items"
  "Map_items zero items g = map g items" "FlatMap items h = concat (map h items)" "Flatten groups = concat groups"
  "Partition items p = partition p items" "Reverse zero' items = rev items"
  "Zip_items zero'' items others k = map2 k items others" "Times_items zero n t = map (\<lambda>i. t (int i)) [0..<nat n]"
  "Reduce items r c = foldl c r items" "Each items e s = fold e items s"
proof -
  show "Zip_items zero'' items others k = map2 k items others"
    by (rule nth_equalityI) (auto simp: Zip_items_def Let_def Zip_loop_map split: if_splits)
  show "Reduce items r c = foldl c r items" by (induction items arbitrary: r) auto
  show "Each items e s = fold e items s" by (induction items arbitrary: s) auto
qed (simp_all add: Filter_def Filter_loop_filter Reject_def Reject_loop_filter Map_items_def Map_loop_map FlatMap_def Flatten_def
    FlatMap_loop_concat Partition_def Partition_loop_filter o_def Reverse_def Reverse_loop_rev Times_items_def Times_loop_map)

lemma Last_loop_find: "i \<le> length items \<Longrightarrow> Last_loop items f i = find f (rev (take i items))"
  by (induction i) (auto simp: take_Suc_conv_app_nth)

lemma CountBy_loop_length: "CountBy_loop f items n = n + length (filter f items)"
  by (induction items arbitrary: n) auto

lemma searches:
  "Contains items p = (\<exists>x \<in> set items. p x)" "Every items p = (\<forall>x \<in> set items. p x)"
  "None_of items p = (\<forall>x \<in> set items. \<not> p x)" "First items p = find p items" "Last items p = find p (rev items)"
  "CountBy items p = length (filter p items)"
proof -
  show "Contains items p = (\<exists>x \<in> set items. p x)" by (induction items) auto
  show "Every items p = (\<forall>x \<in> set items. p x)" by (induction items) auto
  show "None_of items p = (\<forall>x \<in> set items. \<not> p x)" by (induction items) auto
  show "First items p = find p items" by (induction items) auto
qed (simp_all add: Last_def Last_loop_find CountBy_def CountBy_loop_length)

text \<open>The first item with a least key, for either order of the keys.\<close>

lemma least_loop_Min:
  assumes "m = least_loop (<) f (f best) best items"
  shows "m \<in> set (best # items)" "\<forall>x \<in> set (best # items). f m \<le> (f x :: 'k :: linorder)"
  using assms
proof (induction items arbitrary: best)
  case (Cons item items)
  { case 1 then show ?case using Cons.IH(1) by (auto split: if_splits) }
  { case 2 then show ?case using Cons.IH(2)[of item] Cons.IH(2)[of best] by (auto split: if_splits) }
qed auto

lemma least_loop_Max:
  assumes "m = least_loop (>) f (f best) best items"
  shows "m \<in> set (best # items)" "\<forall>x \<in> set (best # items). (f x :: 'k :: linorder) \<le> f m"
  using assms
proof (induction items arbitrary: best)
  case (Cons item items)
  { case 1 then show ?case using Cons.IH(1) by (auto split: if_splits) }
  { case 2 then show ?case using Cons.IH(2)[of item] Cons.IH(2)[of best] by (auto split: if_splits) }
qed auto

lemma extremes:
  "Min_item items f = Some m \<Longrightarrow> m \<in> set items \<and> (\<forall>x \<in> set items. f m \<le> f x)"
  "Max_item items g = Some m' \<Longrightarrow> m' \<in> set items \<and> (\<forall>x \<in> set items. g x \<le> g m')"
  using least_loop_Min[of m f "hd items" "tl items"] least_loop_Max[of m' g "hd items" "tl items"]
  by (cases items; simp add: Min_item_def Max_item_def)+

lemma UniqueBy_loop_spec:
  assumes "set seen = f ` set result" "distinct (map f result)"
  shows "distinct (map f (UniqueBy_loop f seen items result)) \<and>
    f ` set (UniqueBy_loop f seen items result) = f ` set result \<union> f ` set items \<and>
    set (UniqueBy_loop f seen items result) \<subseteq> set result \<union> set items"
  using assms
proof (induction items arbitrary: seen result)
  case (Cons item items)
  show ?case
  proof (cases "f item \<in> set seen")
    case True
    then show ?thesis using Cons.IH[OF Cons.prems] Cons.prems by auto
  next
    case False
    then have "distinct (map f (result @ [item]))" using Cons.prems by auto
    then show ?thesis using False Cons.IH[of "f item # seen" "result @ [item]"] Cons.prems by auto
  qed
qed auto

text \<open>Duplicates are removed and nothing else: the keys are distinct and the same.\<close>

lemma UniqueBy_spec:
  "distinct (map f (UniqueBy items f))" "f ` set (UniqueBy items f) = f ` set items" "set (UniqueBy items f) \<subseteq> set items"
  using UniqueBy_loop_spec[of "[]" f "[]" items] by (simp_all add: UniqueBy_def)

lemma Unique_spec: "distinct (Unique items)" "set (Unique items) = set items"
  using UniqueBy_spec[where f = "\<lambda>x. x" and items = items] by (simp_all add: Unique_def UniqueBy_def)

lemma set_operations: "set (Intersect a b) = set a \<inter> set b" "set (Diff a b) = set a - set b"
  by (auto simp: Intersect_def Diff_def Filter_loop_filter)

lemma GroupBy_loop_spec:
  "map_of (GroupBy_loop f items result) k =
     (let grp = (case map_of result k of None \<Rightarrow> [] | Some xs \<Rightarrow> xs) @ filter (\<lambda>x. f x = k) items
      in if map_of result k = None \<and> grp = [] then None else Some grp)"
proof (induction items arbitrary: result)
  case (Cons item items)
  then show ?case by (simp add: Let_def split: option.splits)
qed (auto simp: Let_def split: option.splits)

text \<open>A group holds the items of its key in their order, and every item is in the group of its key.\<close>

lemma GroupBy_spec:
  "map_of (GroupBy items f) k = (let grp = filter (\<lambda>x. f x = k) items in if grp = [] then None else Some grp)"
  by (simp add: GroupBy_def GroupBy_loop_spec)

lemma KeyBy_loop_spec:
  "map_of (KeyBy_loop f items result) k =
     (case find (\<lambda>x. f x = k) (rev items) of None \<Rightarrow> map_of result k | Some item \<Rightarrow> Some item)"
proof (induction items arbitrary: result)
  case (Cons item items)
  have "find P (xs @ [x]) = (case find P xs of None \<Rightarrow> (if P x then Some x else None) | Some y \<Rightarrow> Some y)" for P and x :: 'a and xs
    by (induction xs) auto
  then show ?case using Cons by (auto split: option.splits)
qed simp

lemma KeyBy_last: "map_of (KeyBy items f) k = find (\<lambda>x. f x = k) (rev items)"
  by (simp add: KeyBy_def KeyBy_loop_spec split: option.splits)

subsection \<open>Sorting is stable\<close>

text \<open>For a strict weak order, given by the keys: the result is a permutation, sorted by the keys, and items
  of the same key keep their order.\<close>

lemma insert_stable_mset [simp]: "mset (insert_stable lt x xs) = add_mset x (mset xs)"
  by (induction xs) auto

lemma set_insert_stable [simp]: "set (insert_stable lt x xs) = insert x (set xs)"
  by (induction xs) auto

lemma Sort_items_mset: "mset (Sort_items items lt) = mset items"
  by (induction items) (auto simp: Sort_items_def)

lemma insert_stable_insort: "insert_stable (\<lambda>a b. f a < f b) = insort_key (f :: 'a \<Rightarrow> 'k :: linorder)"
proof (intro ext)
  fix x xs
  show "insert_stable (\<lambda>a b. f a < f b) x xs = insort_key f x xs" by (induction xs) auto
qed

lemma SortBy_sort_key: "SortBy items f = sort_key f items"
  by (simp add: SortBy_def Sort_items_def insert_stable_insort sort_key_def)

lemma SortBy_spec:
  "mset (SortBy items f) = mset items" "sorted (map f (SortBy items f))"
  "filter (\<lambda>x. f x = k) (SortBy items f) = filter (\<lambda>x. f x = k) items"
  by (simp_all add: SortBy_sort_key sort_key_stable)

lemma insert_stable_desc_sorted:
  "sorted_wrt (\<ge>) (map f xs) \<Longrightarrow> sorted_wrt (\<ge>) (map f (insert_stable (\<lambda>a b. f a > (f b :: 'k :: linorder)) x xs))"
  by (induction xs) (auto intro: order_trans less_imp_le)

lemma insert_stable_desc_filter:
  "sorted_wrt (\<ge>) (map f xs) \<Longrightarrow>
    filter (\<lambda>y. f y = k) (insert_stable (\<lambda>a b. f a > (f b :: 'k :: linorder)) x xs) = (if f x = k then [x] else []) @ filter (\<lambda>y. f y = k) xs"
  by (induction xs) auto

lemma SortByDesc_spec:
  "mset (SortByDesc items f) = mset items" "sorted_wrt (\<ge>) (map f (SortByDesc items f))"
  "filter (\<lambda>x. f x = k) (SortByDesc items f) = filter (\<lambda>x. f x = k) items"
proof -
  show "mset (SortByDesc items f) = mset items" by (simp add: SortByDesc_def Sort_items_mset)
  show sorted: "sorted_wrt (\<ge>) (map f (SortByDesc items f))" for items
    by (induction items) (auto simp: SortByDesc_def Sort_items_def insert_stable_desc_sorted)
  show "filter (\<lambda>x. f x = k) (SortByDesc items f) = filter (\<lambda>x. f x = k) items"
    using sorted by (induction items) (auto simp: SortByDesc_def Sort_items_def insert_stable_desc_filter)
qed

subsection \<open>Cutting and shuffling\<close>

lemma Chunk_loop_concat: "0 < n \<Longrightarrow> concat (Chunk_loop n items) = items"
  by (induction n items rule: Chunk_loop.induct) (simp_all del: take_Suc_Cons drop_Suc_Cons)

lemma Chunk_loop_sizes: "c \<in> set (Chunk_loop n items) \<Longrightarrow> c \<noteq> [] \<and> length c \<le> n"
  by (induction n items rule: Chunk_loop.induct) auto

lemma Chunk_loop_full: "c \<in> set (butlast (Chunk_loop n items)) \<Longrightarrow> length c = n"
proof (induction n items rule: Chunk_loop.induct)
  case (3 k x xs)
  then show ?case
  proof (cases "drop (Suc k) (x # xs) = []")
    case False
    then have "length (take (Suc k) (x # xs)) = Suc k" by simp
    then show ?thesis using 3 by (auto simp del: take_Suc_Cons drop_Suc_Cons split: if_splits)
  qed simp
qed simp_all

lemma Chunk_spec:
  assumes "Chunk items n = Some chunks" "0 < n"
  shows "concat chunks = items" "\<forall>c \<in> set chunks. c \<noteq> [] \<and> length c \<le> nat n" "\<forall>c \<in> set (butlast chunks). length c = nat n"
proof -
  have "\<not> n \<le> 0" "0 < nat n" using assms(2) by simp_all
  with assms(1) have "chunks = Chunk_loop (nat n) items" unfolding Chunk_def by (simp only: if_False option.inject option.distinct split: if_split_asm)
  then show "concat chunks = items" "\<forall>c \<in> set chunks. c \<noteq> [] \<and> length c \<le> nat n" "\<forall>c \<in> set (butlast chunks). length c = nat n"
    using Chunk_loop_concat[OF \<open>0 < nat n\<close>, of items] Chunk_loop_sizes[of _ "nat n" items] Chunk_loop_full[of _ "nat n" items] by blast+
qed

lemma Chunk_returns:
  assumes "int (length items) + n \<le> 2 ^ 63 - 1"
  shows "Chunk items n \<noteq> None"
proof (cases "n \<le> 0")
  case False
  then have "wrap64 (wrap64 (int (length items) + n) - 1) = int (length items) + n - 1"
    using assms by (subst wrap64_id; (subst wrap64_id)?) auto
  moreover have "\<not> go_div (int (length items) + n - 1) n < 0"
    using False by (auto simp: go_div_def not_less sgn_if pos_imp_zdiv_nonneg_iff)
  ultimately show ?thesis using False unfolding Chunk_def by (simp only: if_False option.distinct) simp
qed (simp add: Chunk_def)

text \<open>The rounding of the capacity wraps for a size next to the largest integer: a caller that asks for one
  chunk in this way gets a panic.\<close>

lemma Chunk_panics: "Chunk [a, b] (2 ^ 63 - 1) = None"
proof -
  have "go_div (wrap64 (wrap64 (2 + (2 ^ 63 - 1)) - 1)) (2 ^ 63 - 1) < 0" by code_simp
  moreover have "int (length [a, b]) = 2" "\<not> (2 ^ 63 - 1 \<le> (0 :: int))" by simp_all
  ultimately show ?thesis unfolding Chunk_def by (simp only: if_False if_True)
qed

lemma Take_Skip: "Take items n @ Skip items n = items"
  by (auto simp: Take_def Skip_def Let_def)

lemma Pop_Push: "Pop_item (Push_items items [x]) = (items, Some x)"
  by (simp add: Pop_item_def Push_items_def)

lemma Shuffle_loop_mset:
  assumes "\<And>n. 0 < n \<Longrightarrow> draw n < n" "i < length xs \<or> xs = []"
  shows "mset (Shuffle_loop draw i xs) = mset xs"
  using assms(2)
proof (induction i arbitrary: xs)
  case (Suc i)
  let ?j = "draw (Suc (Suc i))"
  show ?case
  proof (cases "xs = []")
    case False
    then have "?j < length xs" "Suc i < length xs" using Suc.prems assms(1)[of "Suc (Suc i)"] by auto
    then have "mset (xs[Suc i := xs ! ?j, ?j := xs ! Suc i]) = mset xs" by (simp add: mset_swap)
    then show ?thesis using Suc.IH[of "xs[Suc i := xs ! ?j, ?j := xs ! Suc i]"] \<open>Suc i < length xs\<close> by (simp add: Let_def)
  qed (use Suc in \<open>simp add: Let_def\<close>)
qed simp

lemma Shuffle_mset: "(\<And>n. 0 < n \<Longrightarrow> draw n < n) \<Longrightarrow> mset (Shuffle draw items) = mset items"
  unfolding Shuffle_def by (rule Shuffle_loop_mset) auto

end
