(* ===== verification/Queue_Batch.thy ===== *)
theory Queue_Batch
  imports Queue_Memory
begin

text \<open>
  Batches of jobs: \<open>src/queue/batch.go\<close>, the in-memory repository and the callback registry of
  \<open>src/queue/batch_repository.go\<close>, and the queued callbacks of \<open>src/queue/batch_callback.go\<close>.

  A batch is an object that the dispatcher, the workers and the repository share; ids are never reused,
  so the store of the objects is a map from ids, and the repository holds the ids it knows. The readback of
  the in-memory repository is the receiver itself, for which \<open>copyCountersFrom\<close> does nothing. A goroutine
  that the code starts for a callback, or for pushing a queued callback, is an entry of the output, as is an
  event; what it does when it runs is another operation. Counters are atomic 32-bit integers, updated in
  critical sections, so an operation is one step. The error of a failed job is its text.
\<close>

subsection \<open>State\<close>

type_synonym BatchID = string

datatype CallbackKind = CallbackThen | CallbackCatch | CallbackFinally

record Batch =
  b_totalJobs :: nat
  b_pendingJobs :: int
  b_completedJobs :: int
  b_failedJobs :: int
  b_allowFailures :: bool
  b_cancelled :: bool
  b_finished :: bool
  b_finishedAt :: "instant option"
  b_queue :: string
  b_lastError :: string
  b_thenName :: string
  b_catchName :: string
  b_finallyName :: string
  b_thenDispatched :: bool
  b_catchDispatched :: bool
  b_finallyDispatched :: bool

text \<open>Which closures are set, and which of them have been started.\<close>

record callbackEntry =
  e_then :: bool
  e_catch :: bool
  e_finally :: bool
  e_catchOnce :: bool
  e_finishedFired :: bool

datatype batch_effect =
    RunThen BatchID
  | RunCatch BatchID string
  | RunFinally BatchID
  | PushCallback BatchID CallbackKind string string
  | BatchCreated BatchID nat string
  | BatchJobCompleted BatchID int nat
  | BatchJobFailed BatchID int nat string
  | BatchCancelled BatchID int
  | BatchCompleted BatchID nat int int bool

record batch_world =
  bw_objects :: "BatchID \<rightharpoonup> Batch"
  bw_repository :: "BatchID list"
  bw_callbacks :: "BatchID \<rightharpoonup> callbackEntry"
  bw_callbackQueue :: bool
  bw_out :: "batch_effect list"

definition batch_emit :: "batch_effect list \<Rightarrow> batch_world \<Rightarrow> batch_world" where
  "batch_emit es w = w\<lparr>bw_out := bw_out w @ es\<rparr>"

definition set_batch :: "BatchID \<Rightarrow> Batch \<Rightarrow> batch_world \<Rightarrow> batch_world" where
  "set_batch bid b w = w\<lparr>bw_objects := (bw_objects w)(bid \<mapsto> b)\<rparr>"

definition HasFailures :: "Batch \<Rightarrow> bool" where
  "HasFailures b \<longleftrightarrow> b_failedJobs b > 0"

subsection \<open>The in-memory repository\<close>

definition settleSlot :: "instant \<Rightarrow> int \<Rightarrow> int \<Rightarrow> string option \<Rightarrow> Batch \<Rightarrow> bool \<times> Batch" where
  "settleSlot now completed failed errText b =
     (if b_pendingJobs b \<le> 0 then (False, b)
      else
        let b = b\<lparr>b_pendingJobs := b_pendingJobs b - 1, b_completedJobs := b_completedJobs b + completed,
                 b_failedJobs := b_failedJobs b + failed\<rparr>;
            b = (case errText of None \<Rightarrow> b | Some text \<Rightarrow> b\<lparr>b_lastError := text\<rparr>)
        in if b_pendingJobs b = 0 \<and> \<not> b_finished b
           then (True, b\<lparr>b_finished := True, b_finishedAt := Some now\<rparr>) else (False, b))"

definition repo_Find :: "QCtx \<Rightarrow> BatchID \<Rightarrow> batch_world \<Rightarrow> qerr + Batch option" where
  "repo_Find ctx bid w =
     (case ctxErr ctx of
        Some e \<Rightarrow> Inl e
      | None \<Rightarrow> Inr (if bid \<in> set (bw_repository w) then bw_objects w bid else None))"

definition repo_Save :: "QCtx \<Rightarrow> BatchID \<Rightarrow> batch_world \<Rightarrow> qerr option \<times> batch_world" where
  "repo_Save ctx bid w =
     (case ctxErr ctx of
        Some e \<Rightarrow> (Some e, w)
      | None \<Rightarrow> (None, w\<lparr>bw_repository := List.insert bid (bw_repository w)\<rparr>))"

text \<open>The three ways to settle a job: the updated batch, when the repository knows the bid, and whether this
  call finished it.\<close>

definition settle_found ::
  "QCtx \<Rightarrow> BatchID \<Rightarrow> (Batch \<Rightarrow> bool \<times> Batch) \<Rightarrow> batch_world \<Rightarrow> (qerr + Batch option \<times> bool) \<times> batch_world" where
  "settle_found ctx bid settle w =
     (case repo_Find ctx bid w of
        Inl e \<Rightarrow> (Inl e, w)
      | Inr None \<Rightarrow> (Inr (None, False), w)
      | Inr (Some b) \<Rightarrow> (case settle b of (justFinished, b) \<Rightarrow> (Inr (Some b, justFinished), set_batch bid b w)))"

definition IncrementSuccess :: "QCtx \<Rightarrow> instant \<Rightarrow> BatchID \<Rightarrow> batch_world \<Rightarrow> (qerr + Batch option \<times> bool) \<times> batch_world" where
  "IncrementSuccess ctx now bid w = settle_found ctx bid (settleSlot now 1 0 None) w"

definition IncrementFailure ::
  "QCtx \<Rightarrow> instant \<Rightarrow> BatchID \<Rightarrow> string option \<Rightarrow> batch_world \<Rightarrow> (qerr + Batch option \<times> bool) \<times> batch_world" where
  "IncrementFailure ctx now bid jobErr w = settle_found ctx bid (settleSlot now 0 1 jobErr) w"

definition DecrementPending :: "QCtx \<Rightarrow> instant \<Rightarrow> BatchID \<Rightarrow> batch_world \<Rightarrow> (qerr + Batch option \<times> bool) \<times> batch_world" where
  "DecrementPending ctx now bid w = settle_found ctx bid (settleSlot now 0 0 None) w"

definition repo_Cancel :: "QCtx \<Rightarrow> BatchID \<Rightarrow> batch_world \<Rightarrow> (qerr + Batch option) \<times> batch_world" where
  "repo_Cancel ctx bid w =
     (case repo_Find ctx bid w of
        Inl e \<Rightarrow> (Inl e, w)
      | Inr None \<Rightarrow> (Inr None, w)
      | Inr (Some b) \<Rightarrow> let b = b\<lparr>b_cancelled := True\<rparr> in (Inr (Some b), set_batch bid b w))"

definition repo_Delete :: "QCtx \<Rightarrow> BatchID \<Rightarrow> batch_world \<Rightarrow> qerr option \<times> batch_world" where
  "repo_Delete ctx bid w =
     (case ctxErr ctx of
        Some e \<Rightarrow> (Some e, w)
      | None \<Rightarrow> (None, w\<lparr>bw_repository := filter (\<lambda>i. i \<noteq> bid) (bw_repository w)\<rparr>))"

definition stale :: "instant \<Rightarrow> Batch \<Rightarrow> bool" where
  "stale cutoff b \<longleftrightarrow> b_finished b \<and> (case b_finishedAt b of None \<Rightarrow> False | Some t \<Rightarrow> t < cutoff)"

definition PruneStale :: "QCtx \<Rightarrow> instant \<Rightarrow> duration \<Rightarrow> batch_world \<Rightarrow> (qerr + nat) \<times> batch_world" where
  "PruneStale ctx now olderThan w =
     (case ctxErr ctx of
        Some e \<Rightarrow> (Inl e, w)
      | None \<Rightarrow>
          let gone = filter (\<lambda>bid. case bw_objects w bid of None \<Rightarrow> False | Some b \<Rightarrow> stale (now - olderThan) b) (bw_repository w)
          in (Inr (length gone),
              w\<lparr>bw_repository := filter (\<lambda>bid. bid \<notin> set gone) (bw_repository w),
                bw_callbacks := (bw_callbacks w) |` (- set gone)\<rparr>))"

definition MarkCallbackDispatched :: "QCtx \<Rightarrow> BatchID \<Rightarrow> CallbackKind \<Rightarrow> batch_world \<Rightarrow> qerr option \<times> batch_world" where
  "MarkCallbackDispatched ctx bid kind w =
     (case repo_Find ctx bid w of
        Inl e \<Rightarrow> (Some e, w)
      | Inr None \<Rightarrow> (None, w)
      | Inr (Some b) \<Rightarrow>
          (None, set_batch bid (case kind of
                    CallbackThen \<Rightarrow> b\<lparr>b_thenDispatched := True\<rparr>
                  | CallbackCatch \<Rightarrow> b\<lparr>b_catchDispatched := True\<rparr>
                  | CallbackFinally \<Rightarrow> b\<lparr>b_finallyDispatched := True\<rparr>) w))"

record UndispatchedCallback =
  uc_BatchID :: BatchID
  uc_Kind :: CallbackKind
  uc_Name :: string
  uc_ErrMsg :: string

text \<open>The rows of one batch, in the order in which the loop appends them.\<close>

definition undispatched :: "BatchID \<Rightarrow> Batch \<Rightarrow> UndispatchedCallback list" where
  "undispatched bid b =
     (if b_catchName b \<noteq> [] \<and> \<not> b_catchDispatched b \<and> b_failedJobs b > 0
      then [\<lparr>uc_BatchID = bid, uc_Kind = CallbackCatch, uc_Name = b_catchName b, uc_ErrMsg = b_lastError b\<rparr>] else []) @
     (if \<not> b_finished b then []
      else
        (if b_thenName b \<noteq> [] \<and> \<not> b_thenDispatched b \<and> \<not> b_failedJobs b > 0
         then [\<lparr>uc_BatchID = bid, uc_Kind = CallbackThen, uc_Name = b_thenName b, uc_ErrMsg = []\<rparr>] else []) @
        (if b_finallyName b \<noteq> [] \<and> \<not> b_finallyDispatched b
         then [\<lparr>uc_BatchID = bid, uc_Kind = CallbackFinally, uc_Name = b_finallyName b, uc_ErrMsg = b_lastError b\<rparr>] else []))"

fun undispatched_loop :: "batch_world \<Rightarrow> nat \<Rightarrow> BatchID list \<Rightarrow> UndispatchedCallback list \<Rightarrow> UndispatchedCallback list" where
  "undispatched_loop w limit [] out = out"
| "undispatched_loop w limit (bid # ids) out =
     (if length out \<ge> limit then out
      else case bw_objects w bid of
             None \<Rightarrow> undispatched_loop w limit ids out
           | Some b \<Rightarrow> undispatched_loop w limit ids (take limit (out @ undispatched bid b)))"

definition FindUndispatchedCallbacks :: "QCtx \<Rightarrow> int \<Rightarrow> batch_world \<Rightarrow> qerr + UndispatchedCallback list" where
  "FindUndispatchedCallbacks ctx limit w =
     (case ctxErr ctx of
        Some e \<Rightarrow> Inl e
      | None \<Rightarrow> Inr (undispatched_loop w (nat (if limit \<le> 0 then 100 else limit)) (bw_repository w) []))"

subsection \<open>Callbacks\<close>

definition fireCatch :: "BatchID \<Rightarrow> string \<Rightarrow> batch_world \<Rightarrow> batch_world" where
  "fireCatch bid err w =
     (case bw_callbacks w bid of
        None \<Rightarrow> w
      | Some e \<Rightarrow>
          if e_catchOnce e then w
          else
            let w = w\<lparr>bw_callbacks := (bw_callbacks w)(bid \<mapsto> e\<lparr>e_catchOnce := True\<rparr>)\<rparr>
            in if e_catch e then batch_emit [RunCatch bid err] w else w)"

definition fireFinished :: "BatchID \<Rightarrow> Batch \<Rightarrow> batch_world \<Rightarrow> batch_world" where
  "fireFinished bid b w =
     (case bw_callbacks w bid of
        None \<Rightarrow> w
      | Some e \<Rightarrow>
          if e_finishedFired e then w
          else
            batch_emit ((if \<not> HasFailures b \<and> e_then e then [RunThen bid] else []) @ (if e_finally e then [RunFinally bid] else []))
              (w\<lparr>bw_callbacks := (bw_callbacks w)(bid \<mapsto> e\<lparr>e_finishedFired := True\<rparr>)\<rparr>))"

definition use_name :: "(Batch \<Rightarrow> string) \<Rightarrow> Batch option \<Rightarrow> Batch \<Rightarrow> string" where
  "use_name field updated b =
     (case updated of
        Some u \<Rightarrow> if field u \<noteq> [] then field u else field b
      | None \<Rightarrow> field b)"

definition dispatchBatchCallbackJob :: "string \<Rightarrow> CallbackKind \<Rightarrow> BatchID \<Rightarrow> string \<Rightarrow> batch_world \<Rightarrow> batch_world" where
  "dispatchBatchCallbackJob name kind bid errMsg w =
     (if \<not> bw_callbackQueue w \<or> name = [] then w else batch_emit [PushCallback bid kind name errMsg] w)"

definition fireTerminalCallbacks :: "BatchID \<Rightarrow> Batch option \<Rightarrow> batch_world \<Rightarrow> batch_world" where
  "fireTerminalCallbacks bid updated w =
     (case bw_objects w bid of
        None \<Rightarrow> w
      | Some b \<Rightarrow>
          let w = fireFinished bid b w;
              w = (if \<not> HasFailures b then dispatchBatchCallbackJob (use_name b_thenName updated b) CallbackThen bid [] w else w);
              w = dispatchBatchCallbackJob (use_name b_finallyName updated b) CallbackFinally bid
                    (case updated of None \<Rightarrow> [] | Some u \<Rightarrow> b_lastError u) w
          in batch_emit [BatchCompleted bid (b_totalJobs b) (b_completedJobs b) (b_failedJobs b) (HasFailures b)] w)"

text \<open>Mirroring a readback that is another object: the counters only move forward.\<close>

definition copyCountersFrom :: "Batch \<Rightarrow> Batch \<Rightarrow> Batch" where
  "copyCountersFrom src b =
     b\<lparr>b_pendingJobs := (if b_pendingJobs src < b_pendingJobs b then b_pendingJobs src else b_pendingJobs b),
       b_completedJobs := (if b_completedJobs src > b_completedJobs b then b_completedJobs src else b_completedJobs b),
       b_failedJobs := (if b_failedJobs src > b_failedJobs b then b_failedJobs src else b_failedJobs b),
       b_cancelled := (if b_cancelled src then True else b_cancelled b),
       b_finished := (if b_finished src then True else b_finished b),
       b_finishedAt := (if b_finished src \<and> b_finishedAt b = None then b_finishedAt src else b_finishedAt b),
       b_lastError := (if b_finished src \<and> b_lastError src \<noteq> [] then b_lastError src else b_lastError b),
       b_thenName := (if b_thenName b = [] \<and> b_thenName src \<noteq> [] then b_thenName src else b_thenName b),
       b_catchName := (if b_catchName b = [] \<and> b_catchName src \<noteq> [] then b_catchName src else b_catchName b),
       b_finallyName := (if b_finallyName b = [] \<and> b_finallyName src \<noteq> [] then b_finallyName src else b_finallyName b)\<rparr>"

subsection \<open>What workers and callers do\<close>

definition CancelCtx :: "QCtx \<Rightarrow> BatchID \<Rightarrow> batch_world \<Rightarrow> batch_world" where
  "CancelCtx ctx bid w =
     (case bw_objects w bid of
        None \<Rightarrow> w
      | Some b \<Rightarrow>
          if b_cancelled b then w
          else
            let w = set_batch bid (b\<lparr>b_cancelled := True\<rparr>) w;
                w = snd (repo_Cancel ctx bid w)
            in batch_emit [BatchCancelled bid (b_failedJobs b)] w)"

definition recordSuccess :: "QCtx \<Rightarrow> instant \<Rightarrow> BatchID \<Rightarrow> batch_world \<Rightarrow> batch_world" where
  "recordSuccess ctx now bid w =
     (case IncrementSuccess ctx now bid w of
        (Inr (Some updated, justFinished), w) \<Rightarrow>
          let w = batch_emit [BatchJobCompleted bid (b_completedJobs updated) (b_totalJobs updated)] w
          in if justFinished then fireTerminalCallbacks bid (Some updated) w else w
      | (_, w) \<Rightarrow> w)"

definition recordFailure :: "QCtx \<Rightarrow> instant \<Rightarrow> BatchID \<Rightarrow> string \<Rightarrow> batch_world \<Rightarrow> batch_world" where
  "recordFailure ctx now bid jobErr w =
     (case IncrementFailure ctx now bid (Some jobErr) w of
        (Inr (Some updated, justFinished), w) \<Rightarrow>
          let w = batch_emit [BatchJobFailed bid (b_failedJobs updated) (b_totalJobs updated) jobErr] w;
              w = fireCatch bid jobErr w;
              w = dispatchBatchCallbackJob (use_name b_catchName (Some updated) updated) CallbackCatch bid jobErr w;
              w = (if \<not> b_allowFailures updated then CancelCtx ctx bid w else w)
          in if justFinished then fireTerminalCallbacks bid (Some updated) w else w
      | (_, w) \<Rightarrow> w)"

definition recordSkip :: "QCtx \<Rightarrow> instant \<Rightarrow> BatchID \<Rightarrow> batch_world \<Rightarrow> batch_world" where
  "recordSkip ctx now bid w =
     (case DecrementPending ctx now bid w of
        (Inr (Some updated, justFinished), w) \<Rightarrow>
          if justFinished then fireTerminalCallbacks bid (Some updated) w else w
      | (_, w) \<Rightarrow> w)"

subsection \<open>Dispatching a batch\<close>

text \<open>The methods of a job that the dispatch calls are parameters: whether it is batchable, its
  \<open>SetBatchID\<close>, which may panic, and its \<open>OnQueue\<close>, if it has one. A nil job is \<^const>\<open>None\<close>.\<close>

datatype on_queue = NoOnQueue | OnQueueName string | OnQueuePanics

record 'j BatchCode =
  bc_Batchable :: "'j \<Rightarrow> bool"
  bc_SetBatchID :: "BatchID \<Rightarrow> 'j \<Rightarrow> 'j option"
  bc_OnQueue :: "'j \<Rightarrow> on_queue"

datatype batch_error =
    ErrEmptyBatch
  | ErrBatchNilJob nat nat
  | ErrJobNotBatchable nat nat
  | ErrBatchJobPanicked nat nat
  | ErrSaveBatch qerr
  | ErrPushBatchJob nat nat qerr

record 'j PendingBatch =
  pb_jobs :: "'j option list"
  pb_then :: bool
  pb_catch :: bool
  pb_finally :: bool
  pb_thenName :: string
  pb_catchName :: string
  pb_finallyName :: string
  pb_allowFailures :: bool
  pb_queue :: string

definition NewBatch :: "'j option list \<Rightarrow> 'j PendingBatch" where
  "NewBatch jobs = \<lparr>pb_jobs = jobs, pb_then = False, pb_catch = False, pb_finally = False, pb_thenName = [],
     pb_catchName = [], pb_finallyName = [], pb_allowFailures = False, pb_queue = ''default''\<rparr>"

fun admitBatch_from :: "'j BatchCode \<Rightarrow> nat \<Rightarrow> nat \<Rightarrow> 'j option list \<Rightarrow> batch_error + 'j list" where
  "admitBatch_from code i n [] = Inr []"
| "admitBatch_from code i n (None # jobs) = Inl (ErrBatchNilJob (i + 1) n)"
| "admitBatch_from code i n (Some job # jobs) =
     (if \<not> bc_Batchable code job then Inl (ErrJobNotBatchable (i + 1) n)
      else case admitBatch_from code (i + 1) n jobs of Inl e \<Rightarrow> Inl e | Inr js \<Rightarrow> Inr (job # js))"

definition admitBatch :: "'j BatchCode \<Rightarrow> 'j option list \<Rightarrow> batch_error + 'j list" where
  "admitBatch code jobs = admitBatch_from code 0 (length jobs) jobs"

definition batchJobQueue :: "'j BatchCode \<Rightarrow> 'j \<Rightarrow> string \<Rightarrow> string option" where
  "batchJobQueue code job batchQueue =
     (let fallback = (if batchQueue \<noteq> [] then batchQueue else ''default'') in
      case bc_OnQueue code job of
        OnQueuePanics \<Rightarrow> None
      | OnQueueName name \<Rightarrow> Some (if name \<noteq> [] then name else fallback)
      | NoOnQueue \<Rightarrow> Some fallback)"

definition bindBatchJob :: "'j BatchCode \<Rightarrow> 'j \<Rightarrow> BatchID \<Rightarrow> string \<Rightarrow> ('j \<times> string) option" where
  "bindBatchJob code job bid batchQueue =
     (case bc_SetBatchID code bid job of
        None \<Rightarrow> None
      | Some job \<Rightarrow> map_option (\<lambda>name. (job, name)) (batchJobQueue code job batchQueue))"

fun bindBatchJobs :: "'j BatchCode \<Rightarrow> nat \<Rightarrow> nat \<Rightarrow> 'j list \<Rightarrow> BatchID \<Rightarrow> string \<Rightarrow> batch_error + ('j \<times> string) list" where
  "bindBatchJobs code i n [] bid batchQueue = Inr []"
| "bindBatchJobs code i n (job # jobs) bid batchQueue =
     (case bindBatchJob code job bid batchQueue of
        None \<Rightarrow> Inl (ErrBatchJobPanicked (i + 1) n)
      | Some bound \<Rightarrow>
          (case bindBatchJobs code (i + 1) n jobs bid batchQueue of Inl e \<Rightarrow> Inl e | Inr rest \<Rightarrow> Inr (bound # rest)))"

definition wrap32 :: "int \<Rightarrow> int" where
  "wrap32 i = (i + 2 ^ 31) mod 2 ^ 32 - 2 ^ 31"

definition new_batch :: "'j PendingBatch \<Rightarrow> Batch" where
  "new_batch pb = \<lparr>b_totalJobs = length (pb_jobs pb), b_pendingJobs = wrap32 (int (length (pb_jobs pb))), b_completedJobs = 0,
     b_failedJobs = 0, b_allowFailures = pb_allowFailures pb, b_cancelled = False, b_finished = False, b_finishedAt = None,
     b_queue = pb_queue pb, b_lastError = [], b_thenName = pb_thenName pb, b_catchName = pb_catchName pb,
     b_finallyName = pb_finallyName pb, b_thenDispatched = False, b_catchDispatched = False, b_finallyDispatched = False\<rparr>"

definition new_entry :: "'j PendingBatch \<Rightarrow> callbackEntry" where
  "new_entry pb = \<lparr>e_then = pb_then pb, e_catch = pb_catch pb, e_finally = pb_finally pb, e_catchOnce = False, e_finishedFired = False\<rparr>"

text \<open>The driver's push is a parameter. It changes the state of the driver, and it may change the batches:
  workers can already run the jobs pushed before, and a synchronous driver runs them at once.\<close>

type_synonym ('j, 'd) push_fn = "QCtx \<Rightarrow> 'j \<Rightarrow> string \<Rightarrow> 'd \<times> batch_world \<Rightarrow> qerr option \<times> 'd \<times> batch_world"

fun push_jobs :: "('j, 'd) push_fn \<Rightarrow> QCtx \<Rightarrow> ('j \<times> string) list \<Rightarrow> nat \<Rightarrow> 'd \<times> batch_world \<Rightarrow> (nat \<times> qerr option) \<times> 'd \<times> batch_world" where
  "push_jobs push ctx [] pushed s = ((pushed, None), s)"
| "push_jobs push ctx ((job, name) # jobs) pushed s =
     (case push ctx job name s of
        (Some e, s) \<Rightarrow> ((pushed, Some e), s)
      | (None, s) \<Rightarrow> push_jobs push ctx jobs (pushed + 1) s)"

fun drain_slots :: "QCtx \<Rightarrow> instant \<Rightarrow> BatchID \<Rightarrow> nat \<Rightarrow> bool \<Rightarrow> batch_world \<Rightarrow> bool \<times> batch_world" where
  "drain_slots ctx now bid 0 anyFinished w = (anyFinished, w)"
| "drain_slots ctx now bid (Suc k) anyFinished w =
     (case DecrementPending ctx now bid w of
        (Inr (_, True), w) \<Rightarrow> drain_slots ctx now bid k True w
      | (_, w) \<Rightarrow> drain_slots ctx now bid k anyFinished w)"

definition background :: QCtx where
  "background = \<lparr>cx_Err = None, cx_Trace = noTrace\<rparr>"

definition settle_unpushed :: "instant \<Rightarrow> BatchID \<Rightarrow> nat \<Rightarrow> batch_world \<Rightarrow> batch_world" where
  "settle_unpushed now bid unpushed w =
     (case drain_slots background now bid unpushed False w of
        (anyFinished, w) \<Rightarrow>
          let refreshed = (case repo_Find background bid w of Inl _ \<Rightarrow> None | Inr found \<Rightarrow> found);
              w = CancelCtx background bid w
          in if anyFinished then fireTerminalCallbacks bid refreshed w else w)"

definition Dispatch ::
  "'j BatchCode \<Rightarrow> ('j, 'd) push_fn \<Rightarrow> QCtx \<Rightarrow> instant \<Rightarrow> BatchID \<Rightarrow> 'j PendingBatch \<Rightarrow> 'd \<times> batch_world \<Rightarrow>
   (BatchID option \<times> batch_error option) \<times> 'd \<times> batch_world" where
  "Dispatch code push ctx now bid pb s =
     (let n = length (pb_jobs pb) in
      if n = 0 then ((None, Some ErrEmptyBatch), s)
      else
        case admitBatch code (pb_jobs pb) of
          Inl e \<Rightarrow> ((None, Some e), s)
        | Inr jobs \<Rightarrow>
            (case bindBatchJobs code 0 n jobs bid (pb_queue pb) of
               Inl e \<Rightarrow> ((None, Some e), s)
             | Inr bound \<Rightarrow>
                 let (d, w) = s;
                     w = (set_batch bid (new_batch pb) w)\<lparr>bw_callbacks := (bw_callbacks w)(bid \<mapsto> new_entry pb)\<rparr>
                 in case repo_Save ctx bid w of
                      (Some e, w) \<Rightarrow> ((None, Some (ErrSaveBatch e)), d, w\<lparr>bw_callbacks := (bw_callbacks w)(bid := None)\<rparr>)
                    | (None, w) \<Rightarrow>
                        (case push_jobs push ctx bound 0 (d, w) of
                           ((pushed, Some e), d, w) \<Rightarrow>
                             ((Some bid, Some (ErrPushBatchJob (pushed + 1) n e)), d, settle_unpushed now bid (n - pushed) w)
                         | ((pushed, None), d, w) \<Rightarrow>
                             ((Some bid, None), d, batch_emit [BatchCreated bid n (pb_queue pb)] w))))"

end
