(* ===== verification/Batch_Props.thy ===== *)
theory Batch_Props
  imports Queue_Batch
begin

text \<open>
  What a batch reports: after any sequence of settlements, cancellations, marks and prunings, by any number
  of workers, its counters and its terminal callbacks are determined by the first settlements of its jobs,
  as many as it has jobs. Of a later settlement nothing is counted; a late failure still reaches the catch
  callbacks.
\<close>

subsection \<open>Settlements\<close>

datatype settled = Succeeded | Failed string | Skipped

definition record_settled :: "QCtx \<Rightarrow> instant \<Rightarrow> BatchID \<Rightarrow> settled \<Rightarrow> batch_world \<Rightarrow> batch_world" where
  "record_settled ctx now bid x w =
     (case x of
        Succeeded \<Rightarrow> recordSuccess ctx now bid w
      | Failed e \<Rightarrow> recordFailure ctx now bid e w
      | Skipped \<Rightarrow> recordSkip ctx now bid w)"

datatype batch_op =
    OpSettle QCtx instant BatchID settled
  | OpCancel QCtx BatchID
  | OpPrune QCtx instant duration
  | OpMark QCtx BatchID CallbackKind

fun batch_step :: "batch_op \<Rightarrow> batch_world \<Rightarrow> batch_world" where
  "batch_step (OpSettle ctx now bid x) w = record_settled ctx now bid x w"
| "batch_step (OpCancel ctx bid) w = CancelCtx ctx bid w"
| "batch_step (OpPrune ctx now olderThan) w = snd (PruneStale ctx now olderThan w)"
| "batch_step (OpMark ctx bid kind) w = snd (MarkCallbackDispatched ctx bid kind w)"

definition batch_run :: "batch_op list \<Rightarrow> batch_world \<Rightarrow> batch_world" where
  "batch_run ops w = fold batch_step ops w"

fun outcomes :: "BatchID \<Rightarrow> batch_op list \<Rightarrow> settled list" where
  "outcomes bid [] = []"
| "outcomes bid (OpSettle ctx now bid' x # ops) =
     (if bid' = bid \<and> ctxErr ctx = None then [x] else []) @ outcomes bid ops"
| "outcomes bid (_ # ops) = outcomes bid ops"

fun failures_of :: "settled list \<Rightarrow> string list" where
  "failures_of [] = []"
| "failures_of (Failed e # xs) = e # failures_of xs"
| "failures_of (_ # xs) = failures_of xs"

subsection \<open>The callbacks of a batch\<close>

fun is_callback :: "BatchID \<Rightarrow> batch_effect \<Rightarrow> bool" where
  "is_callback bid (RunThen i) = (i = bid)"
| "is_callback bid (RunCatch i _) = (i = bid)"
| "is_callback bid (RunFinally i) = (i = bid)"
| "is_callback bid (PushCallback i _ _ _) = (i = bid)"
| "is_callback bid (BatchCompleted i _ _ _ _) = (i = bid)"
| "is_callback bid _ = False"

definition callbacks_of :: "BatchID \<Rightarrow> batch_world \<Rightarrow> batch_effect list" where
  "callbacks_of bid w = filter (is_callback bid) (bw_out w)"

definition queued :: "bool \<Rightarrow> BatchID \<Rightarrow> CallbackKind \<Rightarrow> string \<Rightarrow> string \<Rightarrow> batch_effect list" where
  "queued q bid kind name err = (if q \<and> name \<noteq> [] then [PushCallback bid kind name err] else [])"

definition catch_callbacks :: "bool \<Rightarrow> BatchID \<Rightarrow> 'j PendingBatch \<Rightarrow> string list \<Rightarrow> batch_effect list" where
  "catch_callbacks q bid pb es =
     (if pb_catch pb \<and> es \<noteq> [] then [RunCatch bid (hd es)] else []) @
     concat (map (queued q bid CallbackCatch (pb_catchName pb)) es)"

definition last_error :: "string list \<Rightarrow> string" where
  "last_error es = (if es = [] then [] else last es)"

definition terminal_callbacks :: "bool \<Rightarrow> BatchID \<Rightarrow> 'j PendingBatch \<Rightarrow> settled list \<Rightarrow> batch_effect list" where
  "terminal_callbacks q bid pb xs =
     (let failed = failures_of xs in
      (if failed = [] \<and> pb_then pb then [RunThen bid] else []) @ (if pb_finally pb then [RunFinally bid] else []) @
      (if failed = [] then queued q bid CallbackThen (pb_thenName pb) [] else []) @
      queued q bid CallbackFinally (pb_finallyName pb) (last_error failed) @
      [BatchCompleted bid (length (pb_jobs pb)) (int (count_list xs Succeeded)) (int (length failed)) (failed \<noteq> [])])"

text \<open>The settlements up to the number of jobs decide the counters and the terminal callbacks; a failure that
  is reported later is not counted, but it is still reported to the catch callbacks.\<close>

definition expected_callbacks :: "bool \<Rightarrow> BatchID \<Rightarrow> 'j PendingBatch \<Rightarrow> settled list \<Rightarrow> batch_effect list" where
  "expected_callbacks q bid pb ys =
     (let n = length (pb_jobs pb); es = failures_of (take n ys); late = failures_of (drop n ys)
      in catch_callbacks q bid pb es @
         (if n \<le> length ys then terminal_callbacks q bid pb (take n ys) else []) @
         drop (length (catch_callbacks q bid pb es)) (catch_callbacks q bid pb (es @ late)))"

subsection \<open>The invariant\<close>

definition batch_at :: "BatchID \<Rightarrow> 'j PendingBatch \<Rightarrow> settled list \<Rightarrow> Batch \<Rightarrow> bool" where
  "batch_at bid pb xs b \<longleftrightarrow>
     b_totalJobs b = length (pb_jobs pb) \<and> length xs \<le> length (pb_jobs pb) \<and>
     b_pendingJobs b = int (length (pb_jobs pb)) - int (length xs) \<and>
     b_completedJobs b = int (count_list xs Succeeded) \<and> b_failedJobs b = int (length (failures_of xs)) \<and>
     b_finished b = (length xs = length (pb_jobs pb)) \<and> b_lastError b = last_error (failures_of xs) \<and>
     b_thenName b = pb_thenName pb \<and> b_catchName b = pb_catchName pb \<and> b_finallyName b = pb_finallyName pb"

definition entry_at :: "'j PendingBatch \<Rightarrow> settled list \<Rightarrow> callbackEntry \<Rightarrow> bool" where
  "entry_at pb ys e \<longleftrightarrow>
     e_then e = pb_then pb \<and> e_catch e = pb_catch pb \<and> e_finally e = pb_finally pb \<and>
     e_finishedFired e = (length (pb_jobs pb) \<le> length ys) \<and> e_catchOnce e = (failures_of ys \<noteq> [])"

definition world_at :: "bool \<Rightarrow> BatchID \<Rightarrow> 'j PendingBatch \<Rightarrow> settled list \<Rightarrow> batch_world \<Rightarrow> bool" where
  "world_at q bid pb ys w \<longleftrightarrow>
     bw_callbackQueue w = q \<and> 0 < length (pb_jobs pb) \<and>
     (\<exists>b. bw_objects w bid = Some b \<and> batch_at bid pb (take (length (pb_jobs pb)) ys) b) \<and>
     (length ys < length (pb_jobs pb) \<longrightarrow> bid \<in> set (bw_repository w)) \<and>
     (bid \<in> set (bw_repository w) \<longrightarrow> (\<exists>e. bw_callbacks w bid = Some e \<and> entry_at pb ys e)) \<and>
     callbacks_of bid w = expected_callbacks q bid pb ys"

lemma failures_of_append [simp]: "failures_of (xs @ ys) = failures_of xs @ failures_of ys"
  by (induction xs rule: failures_of.induct) auto

lemma callbacks_of_simps [simp]:
  "callbacks_of bid (batch_emit es w) = callbacks_of bid w @ filter (is_callback bid) es"
  "callbacks_of bid (set_batch i b w) = callbacks_of bid w"
  "callbacks_of bid (w\<lparr>bw_callbacks := cs\<rparr>) = callbacks_of bid w"
  "callbacks_of bid (w\<lparr>bw_repository := ids\<rparr>) = callbacks_of bid w"
  by (simp_all add: callbacks_of_def batch_emit_def set_batch_def)

lemma batch_world_simps [simp]:
  "bw_objects (batch_emit es w) = bw_objects w" "bw_repository (batch_emit es w) = bw_repository w"
  "bw_callbacks (batch_emit es w) = bw_callbacks w" "bw_callbackQueue (batch_emit es w) = bw_callbackQueue w"
  "bw_objects (set_batch i b w) = (bw_objects w)(i \<mapsto> b)" "bw_repository (set_batch i b w) = bw_repository w"
  "bw_callbacks (set_batch i b w) = bw_callbacks w" "bw_callbackQueue (set_batch i b w) = bw_callbackQueue w"
  by (simp_all add: batch_emit_def set_batch_def)

definition flagged :: "Batch \<Rightarrow> Batch \<Rightarrow> bool" where
  "flagged b b' \<longleftrightarrow>
     (\<exists>c t k f. b' = b\<lparr>b_cancelled := c, b_thenDispatched := t, b_catchDispatched := k, b_finallyDispatched := f\<rparr>)"

lemma batch_at_flags [simp]:
  "batch_at bid pb xs (b\<lparr>b_cancelled := c\<rparr>) = batch_at bid pb xs b" "flagged b b' \<Longrightarrow> batch_at bid pb xs b' = batch_at bid pb xs b"
  by (auto simp: batch_at_def flagged_def)

lemma flagged_simps [simp]:
  "flagged b b" "flagged b (b\<lparr>b_cancelled := c\<rparr>)" "flagged b (b\<lparr>b_thenDispatched := d\<rparr>)"
  "flagged b (b\<lparr>b_catchDispatched := d\<rparr>)" "flagged b (b\<lparr>b_finallyDispatched := d\<rparr>)"
  unfolding flagged_def by (rule exI[of _ "b_cancelled b"] exI[of _ c], cases b, auto)+

text \<open>What one settlement of a job in progress does to the batch.\<close>

definition settle_as :: "instant \<Rightarrow> settled \<Rightarrow> Batch \<Rightarrow> bool \<times> Batch" where
  "settle_as now x =
     (case x of Succeeded \<Rightarrow> settleSlot now 1 0 None | Failed e \<Rightarrow> settleSlot now 0 1 (Some e) | Skipped \<Rightarrow> settleSlot now 0 0 None)"

lemma settle_as_pending:
  assumes "batch_at bid pb xs b" "length xs < length (pb_jobs pb)" "settle_as now x b = (just, b')"
  shows "batch_at bid pb (xs @ [x]) b'" "just = (length (xs @ [x]) = length (pb_jobs pb))" "b_allowFailures b' = b_allowFailures b"
    "b_cancelled b' = b_cancelled b"
  using assms
  by (cases x; auto simp: settle_as_def settleSlot_def batch_at_def Let_def last_error_def split: if_splits)+

lemma settle_as_done:
  assumes "batch_at bid pb xs b" "length xs = length (pb_jobs pb)"
  shows "settle_as now x b = (False, b)"
  using assms by (cases x) (simp_all add: settle_as_def settleSlot_def batch_at_def)


subsection \<open>One settlement\<close>

text \<open>The output of a settlement, for a batch that the repository knows.\<close>

definition catch_output :: "bool \<Rightarrow> BatchID \<Rightarrow> callbackEntry \<Rightarrow> Batch \<Rightarrow> settled \<Rightarrow> batch_effect list" where
  "catch_output q bid e b x =
     (case x of
        Failed err \<Rightarrow> (if \<not> e_catchOnce e \<and> e_catch e then [RunCatch bid err] else []) @ queued q bid CallbackCatch (b_catchName b) err
      | _ \<Rightarrow> [])"

definition terminal_output :: "bool \<Rightarrow> BatchID \<Rightarrow> callbackEntry \<Rightarrow> Batch \<Rightarrow> batch_effect list" where
  "terminal_output q bid e b =
     (if e_finishedFired e then []
      else (if \<not> HasFailures b \<and> e_then e then [RunThen bid] else []) @ (if e_finally e then [RunFinally bid] else [])) @
     (if \<not> HasFailures b then queued q bid CallbackThen (b_thenName b) [] else []) @
     queued q bid CallbackFinally (b_finallyName b) (b_lastError b) @
     [BatchCompleted bid (b_totalJobs b) (b_completedJobs b) (b_failedJobs b) (HasFailures b)]"

lemma dispatchBatchCallbackJob_emit:
  "dispatchBatchCallbackJob name kind bid err w = batch_emit (queued (bw_callbackQueue w) bid kind name err) w"
  by (simp add: dispatchBatchCallbackJob_def queued_def batch_emit_def)

lemma use_name_self [simp]: "use_name field (Some b) b = field b"
  by (simp add: use_name_def)

lemma callback_queued [simp]: "filter (is_callback bid) (queued q bid kind name err) = queued q bid kind name err"
  by (simp add: queued_def)

lemma fireTerminalCallbacks_output:
  assumes "bw_objects w bid = Some b'" "b' = b \<or> b' = b\<lparr>b_cancelled := True\<rparr>" "bw_callbacks w bid = Some e"
  shows "bw_objects (fireTerminalCallbacks bid (Some b) w) = bw_objects w"
    "bw_repository (fireTerminalCallbacks bid (Some b) w) = bw_repository w"
    "bw_callbackQueue (fireTerminalCallbacks bid (Some b) w) = bw_callbackQueue w"
    "bw_callbacks (fireTerminalCallbacks bid (Some b) w) = (bw_callbacks w)(bid \<mapsto> e\<lparr>e_finishedFired := True\<rparr>)"
    "callbacks_of bid (fireTerminalCallbacks bid (Some b) w) = callbacks_of bid w @ terminal_output (bw_callbackQueue w) bid e b"
  using assms
  by (auto simp: fireTerminalCallbacks_def fireFinished_def dispatchBatchCallbackJob_emit terminal_output_def Let_def HasFailures_def use_name_def)

lemma CancelCtx_output:
  "bw_repository (CancelCtx ctx i w) = bw_repository w" "bw_callbackQueue (CancelCtx ctx i w) = bw_callbackQueue w"
  "bw_callbacks (CancelCtx ctx i w) = bw_callbacks w" "callbacks_of bid (CancelCtx ctx i w) = callbacks_of bid w"
  "bw_objects (CancelCtx ctx i w) = (bw_objects w)(i := map_option (\<lambda>b. b\<lparr>b_cancelled := True\<rparr>) (bw_objects w i))"
  by (auto simp: CancelCtx_def repo_Cancel_def repo_Find_def Let_def split: option.splits)

lemma fireCatch_output:
  assumes "bw_callbacks w bid = Some e"
  shows "bw_objects (fireCatch bid err w) = bw_objects w" "bw_repository (fireCatch bid err w) = bw_repository w"
    "bw_callbackQueue (fireCatch bid err w) = bw_callbackQueue w"
    "bw_callbacks (fireCatch bid err w) = (bw_callbacks w)(bid \<mapsto> e\<lparr>e_catchOnce := True\<rparr>)"
    "callbacks_of bid (fireCatch bid err w) =
      callbacks_of bid w @ (if \<not> e_catchOnce e \<and> e_catch e then [RunCatch bid err] else [])"
  using assms by (auto simp: fireCatch_def Let_def)

lemma settle_found_known:
  assumes "bid \<in> set (bw_repository w)" "ctxErr ctx = None" "bw_objects w bid = Some b" "settle b = (just, b')"
  shows "settle_found ctx bid settle w = (Inr (Some b', just), set_batch bid b' w)"
  using assms by (simp add: settle_found_def repo_Find_def)

definition is_failure :: "settled \<Rightarrow> bool" where
  "is_failure x \<longleftrightarrow> failures_of [x] \<noteq> []"

definition settled_entry :: "settled \<Rightarrow> bool \<Rightarrow> callbackEntry \<Rightarrow> callbackEntry" where
  "settled_entry x just e = e\<lparr>e_catchOnce := e_catchOnce e \<or> is_failure x, e_finishedFired := e_finishedFired e \<or> just\<rparr>"

definition settles :: "BatchID \<Rightarrow> Batch \<Rightarrow> callbackEntry \<Rightarrow> settled \<Rightarrow> bool \<Rightarrow> batch_world \<Rightarrow> batch_world \<Rightarrow> bool" where
  "settles bid b' e x just w w' \<longleftrightarrow>
     bw_repository w' = bw_repository w \<and> bw_callbackQueue w' = bw_callbackQueue w \<and>
     (\<exists>c. bw_objects w' bid = Some (b'\<lparr>b_cancelled := c\<rparr>)) \<and> bw_callbacks w' bid = Some (settled_entry x just e) \<and>
     callbacks_of bid w' = callbacks_of bid w @ catch_output (bw_callbackQueue w) bid e b' x @
       (if just then terminal_output (bw_callbackQueue w) bid e b' else [])"

lemma cancelled_id: "b\<lparr>b_cancelled := b_cancelled b\<rparr> = (b :: Batch)"
  by simp

lemma recordSuccess_known:
  assumes "bid \<in> set (bw_repository w)" "ctxErr ctx = None" "bw_objects w bid = Some b" "bw_callbacks w bid = Some e"
    "settle_as now Succeeded b = (just, b')"
  shows "settles bid b' e Succeeded just w (recordSuccess ctx now bid w)"
proof -
  have "IncrementSuccess ctx now bid w = (Inr (Some b', just), set_batch bid b' w)"
    unfolding IncrementSuccess_def using assms(5) by (intro settle_found_known[OF assms(1-3)]) (simp add: settle_as_def)
  then show ?thesis
    using assms(4) fireTerminalCallbacks_output[of "batch_emit [BatchJobCompleted bid (b_completedJobs b') (b_totalJobs b')] (set_batch bid b' w)" bid b' b' e]
    by (auto simp: settles_def recordSuccess_def Let_def settled_entry_def is_failure_def catch_output_def intro!: exI[of _ "b_cancelled b'"])
qed

lemma recordSkip_known:
  assumes "bid \<in> set (bw_repository w)" "ctxErr ctx = None" "bw_objects w bid = Some b" "bw_callbacks w bid = Some e"
    "settle_as now Skipped b = (just, b')"
  shows "settles bid b' e Skipped just w (recordSkip ctx now bid w)"
proof -
  have "DecrementPending ctx now bid w = (Inr (Some b', just), set_batch bid b' w)"
    unfolding DecrementPending_def using assms(5) by (intro settle_found_known[OF assms(1-3)]) (simp add: settle_as_def)
  then show ?thesis
    using assms(4) fireTerminalCallbacks_output[of "set_batch bid b' w" bid b' b' e]
    by (auto simp: settles_def recordSkip_def Let_def settled_entry_def is_failure_def catch_output_def intro!: exI[of _ "b_cancelled b'"])
qed

lemma recordFailure_known:
  assumes "bid \<in> set (bw_repository w)" "ctxErr ctx = None" "bw_objects w bid = Some b" "bw_callbacks w bid = Some e"
    "settle_as now (Failed err) b = (just, b')"
  shows "settles bid b' e (Failed err) just w (recordFailure ctx now bid err w)"
proof -
  have incr: "IncrementFailure ctx now bid (Some err) w = (Inr (Some b', just), set_batch bid b' w)"
    unfolding IncrementFailure_def using assms(5) by (intro settle_found_known[OF assms(1-3)]) (simp add: settle_as_def)
  let ?w1 = "batch_emit [BatchJobFailed bid (b_failedJobs b') (b_totalJobs b') err] (set_batch bid b' w)"
  let ?w2 = "dispatchBatchCallbackJob (b_catchName b') CallbackCatch bid err (fireCatch bid err ?w1)"
  let ?w3 = "if \<not> b_allowFailures b' then CancelCtx ctx bid ?w2 else ?w2"
  let ?e = "e\<lparr>e_catchOnce := True\<rparr>"
  have catch: "bw_callbacks ?w1 bid = Some e" using assms(4) by simp
  note w2 = fireCatch_output[OF catch, of err]
  have w3: "bw_repository ?w3 = bw_repository w" "bw_callbackQueue ?w3 = bw_callbackQueue w" "bw_callbacks ?w3 bid = Some ?e"
    "callbacks_of bid ?w3 = callbacks_of bid w @ catch_output (bw_callbackQueue w) bid e b' (Failed err)"
    using w2 by (auto simp: dispatchBatchCallbackJob_emit CancelCtx_output catch_output_def)
  have obj: "bw_objects ?w3 bid = Some b' \<or> bw_objects ?w3 bid = Some (b'\<lparr>b_cancelled := True\<rparr>)"
    using w2 by (auto simp: dispatchBatchCallbackJob_emit CancelCtx_output)
  then obtain b3 where b3: "bw_objects ?w3 bid = Some b3" "b3 = b' \<or> b3 = b'\<lparr>b_cancelled := True\<rparr>" by blast
  have c: "\<exists>c. b3 = b'\<lparr>b_cancelled := c\<rparr>" using b3(2) cancelled_id[of b'] by metis
  have "recordFailure ctx now bid err w = (if just then fireTerminalCallbacks bid (Some b') ?w3 else ?w3)"
    using incr by (simp add: recordFailure_def Let_def)
  moreover have "terminal_output q bid ?e b' = terminal_output q bid e b'" for q by (simp add: terminal_output_def)
  ultimately show ?thesis
    using fireTerminalCallbacks_output[OF b3 w3(3)] w3 b3(1) c
    by (auto simp: settles_def settled_entry_def is_failure_def)
qed

lemma record_settled_known:
  assumes "bid \<in> set (bw_repository w)" "ctxErr ctx = None" "bw_objects w bid = Some b" "bw_callbacks w bid = Some e"
    "settle_as now x b = (just, b')"
  shows "settles bid b' e x just w (record_settled ctx now bid x w)"
  using recordSuccess_known[OF assms(1-4)] recordSkip_known[OF assms(1-4)] recordFailure_known[OF assms(1-4)] assms(5)
  by (cases x) (simp_all add: record_settled_def)

lemma catch_snoc:
  "catch_callbacks q bid pb (fs @ [e]) = catch_callbacks q bid pb fs @
     (if pb_catch pb \<and> fs = [] then [RunCatch bid e] else []) @ queued q bid CallbackCatch (pb_catchName pb) e"
  by (auto simp: catch_callbacks_def)

lemma catch_length: "length (catch_callbacks q bid pb es) \<le> length (catch_callbacks q bid pb (es @ late))"
  by (auto simp: catch_callbacks_def)

lemma expected_pending:
  assumes "length ys < length (pb_jobs pb)"
  shows "expected_callbacks q bid pb ys = catch_callbacks q bid pb (failures_of ys)"
    "expected_callbacks q bid pb (ys @ [x]) = catch_callbacks q bid pb (failures_of ys @ failures_of [x]) @
      (if length ys + 1 = length (pb_jobs pb) then terminal_callbacks q bid pb (ys @ [x]) else [])"
  using assms by (auto simp: expected_callbacks_def Let_def)

lemma expected_done:
  assumes "length (pb_jobs pb) \<le> length ys"
  shows "expected_callbacks q bid pb (ys @ [x]) = expected_callbacks q bid pb ys @
    drop (length (catch_callbacks q bid pb (failures_of ys))) (catch_callbacks q bid pb (failures_of ys @ failures_of [x]))"
proof -
  let ?n = "length (pb_jobs pb)"
  let ?es = "failures_of (take ?n ys)" and ?late = "failures_of (drop ?n ys)"
  have all: "failures_of ys = ?es @ ?late" by (metis append_take_drop_id failures_of_append)
  have k: "length (catch_callbacks q bid pb ?es) \<le> length (catch_callbacks q bid pb (?es @ ?late))" by (rule catch_length)
  obtain rest where rest: "catch_callbacks q bid pb ((?es @ ?late) @ failures_of [x]) = catch_callbacks q bid pb (?es @ ?late) @ rest"
    using catch_snoc[of q bid pb "?es @ ?late"] by (cases x) auto
  have "expected_callbacks q bid pb (ys @ [x]) =
      catch_callbacks q bid pb ?es @ terminal_callbacks q bid pb (take ?n ys) @
      drop (length (catch_callbacks q bid pb ?es)) (catch_callbacks q bid pb ((?es @ ?late) @ failures_of [x]))"
    using assms by (simp add: expected_callbacks_def Let_def)
  moreover have "expected_callbacks q bid pb ys = catch_callbacks q bid pb ?es @ terminal_callbacks q bid pb (take ?n ys) @
      drop (length (catch_callbacks q bid pb ?es)) (catch_callbacks q bid pb (?es @ ?late))"
    using assms by (simp add: expected_callbacks_def Let_def)
  ultimately show ?thesis using k by (simp only: all rest drop_append) simp
qed

lemma catch_output_expected:
  assumes "entry_at pb ys e" "b_catchName b = pb_catchName pb"
  shows "catch_callbacks q bid pb (failures_of ys @ failures_of [x]) = catch_callbacks q bid pb (failures_of ys) @ catch_output q bid e b x"
  using assms catch_snoc[of q bid pb "failures_of ys"] by (cases x) (auto simp: catch_output_def entry_at_def)

lemma terminal_output_expected:
  assumes "batch_at bid pb xs b" "entry_at pb ys e" "length ys < length (pb_jobs pb)"
  shows "terminal_output q bid e b = terminal_callbacks q bid pb xs"
proof -
  have "HasFailures b = (failures_of xs \<noteq> [])" using assms(1) by (simp add: batch_at_def HasFailures_def)
  then show ?thesis
    using assms by (simp add: terminal_output_def terminal_callbacks_def batch_at_def entry_at_def Let_def)
qed

lemma settle_step:
  assumes at: "world_at q bid pb ys w" and "ctxErr ctx = None" "bid \<in> set (bw_repository w)"
  shows "world_at q bid pb (ys @ [x]) (record_settled ctx now bid x w)"
proof -
  let ?n = "length (pb_jobs pb)" and ?w = "record_settled ctx now bid x w"
  obtain b e where b: "bw_objects w bid = Some b" "batch_at bid pb (take ?n ys) b" and e: "bw_callbacks w bid = Some e" "entry_at pb ys e"
    using at assms(3) unfolding world_at_def by blast
  have w: "bw_callbackQueue w = q" "0 < ?n" "callbacks_of bid w = expected_callbacks q bid pb ys" using at by (auto simp: world_at_def)
  obtain just b' where s: "settle_as now x b = (just, b')" by force
  note r = record_settled_known[OF assms(3,2) b(1) e(1) s]
  have b': "batch_at bid pb (take ?n (ys @ [x])) b'" "just = (length ys < ?n \<and> length ys + 1 = ?n)" "b_catchName b' = pb_catchName pb"
    using settle_as_pending[of bid pb ys b now x just b'] settle_as_done[of bid pb "take ?n ys" b now x] b(2) s
    by (cases "length ys < ?n"; auto simp: batch_at_def)+
  have entry: "entry_at pb (ys @ [x]) (settled_entry x just e)"
    using e(2) b'(2) by (auto simp: entry_at_def settled_entry_def is_failure_def)
  have out: "expected_callbacks q bid pb (ys @ [x]) = expected_callbacks q bid pb ys @ catch_output q bid e b' x @
      (if just then terminal_output q bid e b' else [])"
  proof (cases "length ys < ?n")
    case True
    then have "just \<Longrightarrow> terminal_output q bid e b' = terminal_callbacks q bid pb (ys @ [x])"
      using terminal_output_expected[OF _ e(2) True] b'(1) by simp
    then show ?thesis using True b'(2) expected_pending[OF True] catch_output_expected[OF e(2) b'(3)] by auto
  next
    case False
    then show ?thesis using b'(2) catch_output_expected[OF e(2) b'(3)] by (simp add: expected_done)
  qed
  have "\<exists>b. bw_objects ?w bid = Some b \<and> batch_at bid pb (take ?n (ys @ [x])) b"
    using r b'(1) by (auto simp: settles_def)
  then show ?thesis using r entry out w assms(3) by (auto simp: world_at_def settles_def)
qed

subsection \<open>Everything else\<close>

text \<open>A step that leaves a batch, its entry and its callbacks alone, and may only forget it when it is finished.\<close>

definition leaves :: "BatchID \<Rightarrow> batch_world \<Rightarrow> batch_world \<Rightarrow> bool" where
  "leaves bid w w' \<longleftrightarrow>
     bw_callbackQueue w' = bw_callbackQueue w \<and> callbacks_of bid w' = callbacks_of bid w \<and>
     (\<forall>b. bw_objects w bid = Some b \<longrightarrow> (\<exists>b'. bw_objects w' bid = Some b' \<and> flagged b b')) \<and>
     (bid \<in> set (bw_repository w') \<longrightarrow> bid \<in> set (bw_repository w) \<and> bw_callbacks w' bid = bw_callbacks w bid) \<and>
     (bid \<in> set (bw_repository w) \<longrightarrow> bid \<in> set (bw_repository w') \<or> (\<exists>b. bw_objects w bid = Some b \<and> b_finished b))"

lemma leaves_refl [simp]: "leaves bid w w"
  by (auto simp: leaves_def)

lemma leaves_world_at:
  assumes "world_at q bid pb ys w" "leaves bid w w'"
  shows "world_at q bid pb ys w'"
proof -
  obtain b b' where b: "bw_objects w bid = Some b" "batch_at bid pb (take (length (pb_jobs pb)) ys) b" "bw_objects w' bid = Some b'" "flagged b b'"
    using assms unfolding world_at_def leaves_def by blast
  have "bid \<in> set (bw_repository w')" if "length ys < length (pb_jobs pb)"
    using assms that b(1,2) by (auto simp: world_at_def leaves_def batch_at_def)
  then show ?thesis using assms b by (auto simp: world_at_def leaves_def)
qed

lemma leaves_objects:
  assumes "bw_objects w' bid = bw_objects w bid" "bw_repository w' = bw_repository w" "bw_callbackQueue w' = bw_callbackQueue w"
    "bw_callbacks w' bid = bw_callbacks w bid" "callbacks_of bid w' = callbacks_of bid w"
  shows "leaves bid w w'"
  using assms by (auto simp: leaves_def)

text \<open>A settlement of another batch, in a dead context, or of a batch the repository has forgotten.\<close>

lemma other_effects [simp]:
  "bid \<noteq> i \<Longrightarrow> filter (is_callback bid) (queued q i kind name err) = []"
  by (simp add: queued_def)

lemma other_callbacks [simp]:
  assumes "bid \<noteq> i"
  shows "bw_callbacks (fireCatch i err w) bid = bw_callbacks w bid" "callbacks_of bid (fireCatch i err w) = callbacks_of bid w"
    "bw_callbacks (fireTerminalCallbacks i u w) bid = bw_callbacks w bid" "callbacks_of bid (fireTerminalCallbacks i u w) = callbacks_of bid w"
  using assms
  by (auto simp: fireCatch_def fireTerminalCallbacks_def fireFinished_def dispatchBatchCallbackJob_emit Let_def split: option.splits)

lemma callback_frames [simp]:
  "bw_objects (fireCatch i err w) = bw_objects w" "bw_repository (fireCatch i err w) = bw_repository w"
  "bw_callbackQueue (fireCatch i err w) = bw_callbackQueue w" "bw_objects (fireTerminalCallbacks i u w) = bw_objects w"
  "bw_repository (fireTerminalCallbacks i u w) = bw_repository w" "bw_callbackQueue (fireTerminalCallbacks i u w) = bw_callbackQueue w"
  by (auto simp: fireCatch_def fireTerminalCallbacks_def fireFinished_def dispatchBatchCallbackJob_emit Let_def split: option.splits)

lemma settle_found_frames:
  assumes "settle_found ctx i settle w = (r, w')"
  shows "bw_repository w' = bw_repository w" "bw_callbackQueue w' = bw_callbackQueue w" "bw_callbacks w' = bw_callbacks w"
    "callbacks_of bid w' = callbacks_of bid w" "bid \<noteq> i \<Longrightarrow> bw_objects w' bid = bw_objects w bid"
  using assms by (auto simp: settle_found_def split: sum.splits option.splits prod.splits)

lemma settle_other:
  assumes "bid \<noteq> i"
  shows "leaves bid w (record_settled ctx now i x w)"
proof -
  obtain r1 w1 where r1: "settle_found ctx i (settleSlot now 1 0 None) w = (r1, w1)" by (meson surj_pair)
  obtain r2 w2 where r2: "settle_found ctx i (settleSlot now 0 0 None) w = (r2, w2)" by (meson surj_pair)
  have "leaves bid w (recordSuccess ctx now i w)" "leaves bid w (recordSkip ctx now i w)"
    using assms settle_found_frames[OF r1] settle_found_frames[OF r2]
    by (auto intro!: leaves_objects simp: recordSuccess_def recordSkip_def IncrementSuccess_def DecrementPending_def r1 r2 Let_def
        split: sum.splits option.splits)
  moreover have "leaves bid w (recordFailure ctx now i err w)" for err
  proof -
    obtain r w' where r: "settle_found ctx i (settleSlot now 0 1 (Some err)) w = (r, w')" by (meson surj_pair)
    show ?thesis using assms settle_found_frames[OF r]
      by (auto intro!: leaves_objects simp: recordFailure_def IncrementFailure_def r Let_def CancelCtx_output dispatchBatchCallbackJob_emit
          split: sum.splits option.splits)
  qed
  ultimately show ?thesis by (cases x) (simp_all add: record_settled_def)
qed

lemma settle_unknown:
  assumes "ctxErr ctx \<noteq> None \<or> bid \<notin> set (bw_repository w)"
  shows "record_settled ctx now bid x w = w"
proof -
  have unknown: "settle_found ctx bid s w = ((case ctxErr ctx of None \<Rightarrow> Inr (None, False) | Some e \<Rightarrow> Inl e), w)" for s
    using assms unfolding settle_found_def repo_Find_def by (cases "ctxErr ctx") simp_all
  have "recordSuccess ctx now bid w = w" "recordSkip ctx now bid w = w" "recordFailure ctx now bid err w = w" for err
    unfolding recordSuccess_def recordSkip_def recordFailure_def IncrementSuccess_def DecrementPending_def IncrementFailure_def unknown
    by (cases "ctxErr ctx"; simp)+
  then show ?thesis by (cases x) (simp_all only: record_settled_def settled.case)
qed

lemma cancel_leaves: "leaves bid w (CancelCtx ctx i w)"
  by (auto simp: leaves_def CancelCtx_output)

lemma mark_leaves: "leaves bid w (snd (MarkCallbackDispatched ctx i kind w))"
  by (auto simp: leaves_def MarkCallbackDispatched_def repo_Find_def split: option.splits CallbackKind.splits)

lemma prune_leaves: "leaves bid w (snd (PruneStale ctx now olderThan w))"
  by (auto simp: leaves_def PruneStale_def Let_def stale_def split: option.splits)

subsection \<open>Runs\<close>

lemma settle_leaves:
  assumes "\<not> (i = bid \<and> ctxErr ctx = None \<and> bid \<in> set (bw_repository w))"
  shows "leaves bid w (record_settled ctx now i x w)"
proof (cases "i = bid")
  case True
  then have "record_settled ctx now i x w = w" using assms settle_unknown[of ctx bid w] by blast
  then show ?thesis by simp
next
  case False
  then show ?thesis using settle_other[of bid i] by blast
qed

lemma step_leaves:
  assumes "outcomes bid [op] = [] \<or> bid \<notin> set (bw_repository w)"
  shows "leaves bid w (batch_step op w)"
proof (cases op)
  case (OpSettle ctx now i x)
  then have "\<not> (i = bid \<and> ctxErr ctx = None \<and> bid \<in> set (bw_repository w))" using assms by auto
  then show ?thesis using OpSettle settle_leaves by simp
qed (simp_all add: cancel_leaves mark_leaves prune_leaves)

lemma run_forgotten:
  assumes "world_at q bid pb ys w" "bid \<notin> set (bw_repository w)"
  shows "world_at q bid pb ys (batch_run ops w) \<and> bid \<notin> set (bw_repository (batch_run ops w))"
  using assms
proof (induction ops arbitrary: w)
  case (Cons op ops)
  have "leaves bid w (batch_step op w)" using step_leaves Cons.prems(2) by blast
  then have "world_at q bid pb ys (batch_step op w)" "bid \<notin> set (bw_repository (batch_step op w))"
    using leaves_world_at[OF Cons.prems(1)] Cons.prems(2) by (auto simp: leaves_def)
  then show ?case using Cons.IH by (simp add: batch_run_def)
qed (simp add: batch_run_def)

lemma outcomes_Cons: "outcomes bid (op # ops) = outcomes bid [op] @ outcomes bid ops"
  by (cases op) auto

lemma step_known:
  assumes "world_at q bid pb ys w" "bid \<in> set (bw_repository w)"
  shows "world_at q bid pb (ys @ outcomes bid [op]) (batch_step op w)"
proof (cases "outcomes bid [op] = []")
  case True
  then show ?thesis using leaves_world_at[OF assms(1) step_leaves] by simp
next
  case False
  then obtain ctx now x where "op = OpSettle ctx now bid x" "ctxErr ctx = None"
    by (cases op) (auto split: if_splits)
  then show ?thesis using settle_step[OF assms(1) _ assms(2)] by simp
qed

lemma run_known:
  assumes "world_at q bid pb ys w" "bid \<in> set (bw_repository w)"
  shows "\<exists>k. world_at q bid pb (ys @ take k (outcomes bid ops)) (batch_run ops w) \<and>
    (bid \<in> set (bw_repository (batch_run ops w)) \<longrightarrow> length (outcomes bid ops) \<le> k)"
  using assms
proof (induction ops arbitrary: ys w)
  case (Cons op ops)
  let ?w = "batch_step op w" and ?o = "outcomes bid [op]"
  have at: "world_at q bid pb (ys @ ?o) ?w" by (rule step_known[OF Cons.prems])
  show ?case
  proof (cases "bid \<in> set (bw_repository ?w)")
    case True
    obtain k where k: "world_at q bid pb ((ys @ ?o) @ take k (outcomes bid ops)) (batch_run ops ?w)"
      "bid \<in> set (bw_repository (batch_run ops ?w)) \<longrightarrow> length (outcomes bid ops) \<le> k"
      using Cons.IH[OF at True] by blast
    then show ?thesis
      by (intro exI[of _ "length ?o + k"]) (subst (1 2) outcomes_Cons, simp add: batch_run_def)
  next
    case False
    then show ?thesis using run_forgotten[OF at False, of ops]
      by (intro exI[of _ "length ?o"]) (subst (1 2) outcomes_Cons, simp add: batch_run_def)
  qed
qed (simp add: batch_run_def)

subsection \<open>Batches that have been saved\<close>

definition saved_batch :: "BatchID \<Rightarrow> 'j PendingBatch \<Rightarrow> batch_world \<Rightarrow> bool" where
  "saved_batch bid pb w \<longleftrightarrow>
     bw_objects w bid = Some (new_batch pb) \<and> bid \<in> set (bw_repository w) \<and> bw_callbacks w bid = Some (new_entry pb) \<and>
     callbacks_of bid w = []"

definition batch_size_ok :: "'j PendingBatch \<Rightarrow> bool" where
  "batch_size_ok pb \<longleftrightarrow> pb_jobs pb \<noteq> [] \<and> int (length (pb_jobs pb)) < 2 ^ 31"

lemma saved_at:
  assumes "batch_size_ok pb"
  shows "batch_at bid pb [] (new_batch pb)" "entry_at pb [] (new_entry pb)"
    "saved_batch bid pb w \<Longrightarrow> world_at (bw_callbackQueue w) bid pb [] w"
  using assms
  by (auto simp: saved_batch_def batch_size_ok_def world_at_def batch_at_def new_batch_def new_entry_def entry_at_def wrap32_def
      last_error_def expected_callbacks_def catch_callbacks_def Let_def)


subsection \<open>Failed dispatches\<close>

lemma background_live [simp]: "ctxErr background = None"
  by (simp add: background_def ctxErr_def)

lemma drain_slots_settles:
  assumes "batch_at bid pb xs b" "bw_objects w bid = Some b" "bid \<in> set (bw_repository w)" "length xs + m \<le> length (pb_jobs pb)"
  shows "\<exists>b'. drain_slots background now bid m any w = (any \<or> 0 < m \<and> length xs + m = length (pb_jobs pb), set_batch bid b' w) \<and>
    batch_at bid pb (xs @ replicate m Skipped) b' \<and> b_cancelled b' = b_cancelled b"
  using assms
proof (induction m arbitrary: xs b any w)
  case 0
  then have "set_batch bid b w = w" by (simp add: set_batch_def fun_upd_idem)
  then show ?case using 0 by (intro exI[of _ b]) simp
next
  case (Suc m)
  obtain just b1 where s: "settle_as now Skipped b = (just, b1)" by force
  have "length xs < length (pb_jobs pb)" using Suc.prems(4) by simp
  note b1 = settle_as_pending[OF Suc.prems(1) this s]
  have dec: "DecrementPending background now bid w = (Inr (Some b1, just), set_batch bid b1 w)"
    unfolding DecrementPending_def using s by (intro settle_found_known[OF Suc.prems(3) background_live Suc.prems(2)]) (simp add: settle_as_def)
  obtain b' where b': "drain_slots background now bid m (any \<or> just) (set_batch bid b1 w) =
      ((any \<or> just) \<or> 0 < m \<and> length (xs @ [Skipped]) + m = length (pb_jobs pb), set_batch bid b' (set_batch bid b1 w))"
    "batch_at bid pb ((xs @ [Skipped]) @ replicate m Skipped) b'" "b_cancelled b' = b_cancelled b1"
    using Suc.IH[OF b1(1), of "set_batch bid b1 w" "any \<or> just"] Suc.prems by auto
  have "set_batch bid b' (set_batch bid b1 w) = set_batch bid b' w" by (simp add: set_batch_def)
  then show ?case using b' b1 dec Suc.prems(4) by (intro exI[of _ b']) (cases just; auto simp: replicate_append_same[symmetric])
qed

lemma settle_unpushed_callbacks:
  assumes "saved_batch bid pb w" "batch_size_ok pb" "k < length (pb_jobs pb)" "w' = settle_unpushed now bid (length (pb_jobs pb) - k) w"
  shows "\<exists>b. bw_objects w' bid = Some b \<and> batch_at bid pb (replicate (length (pb_jobs pb) - k) Skipped) b \<and> b_cancelled b"
    "callbacks_of bid w' = expected_callbacks (bw_callbackQueue w) bid pb (replicate (length (pb_jobs pb) - k) Skipped)"
proof -
  let ?n = "length (pb_jobs pb)" and ?q = "bw_callbackQueue w"
  let ?ys = "replicate (?n - k) Skipped"
  have w: "bw_objects w bid = Some (new_batch pb)" "bid \<in> set (bw_repository w)" "bw_callbacks w bid = Some (new_entry pb)"
    "callbacks_of bid w = []" using assms(1) by (auto simp: saved_batch_def)
  have zero: "(?n - k = ?n) = (k = 0)" using assms(3) by auto
  obtain b where b: "drain_slots background now bid (?n - k) False w = (k = 0, set_batch bid b w)" "batch_at bid pb ?ys b" "\<not> b_cancelled b"
    using drain_slots_settles[OF saved_at(1)[OF assms(2)] w(1,2), of "?n - k" now False] assms(3) by (auto simp: new_batch_def zero)
  let ?w1 = "CancelCtx background bid (set_batch bid b w)"
  have w': "w' = (if k = 0 then fireTerminalCallbacks bid (Some b) ?w1 else ?w1)"
    using assms(4) b w by (simp add: settle_unpushed_def repo_Find_def Let_def)
  have w1: "bw_objects ?w1 bid = Some (b\<lparr>b_cancelled := True\<rparr>)" "bw_callbacks ?w1 bid = Some (new_entry pb)" "bw_callbackQueue ?w1 = ?q"
    "callbacks_of bid ?w1 = []"
    using w by (simp_all add: CancelCtx_output)
  note fire = fireTerminalCallbacks_output[OF w1(1) _ w1(2), of b]
  show "\<exists>b. bw_objects w' bid = Some b \<and> batch_at bid pb ?ys b \<and> b_cancelled b"
    using w' w1 fire b(2) by (auto simp: batch_at_def)
  have "failures_of (replicate m Skipped) = []" for m by (induction m) auto
  then have "expected_callbacks ?q bid pb ?ys = (if k = 0 then terminal_callbacks ?q bid pb ?ys else [])"
    using assms(3) by (auto simp: expected_callbacks_def catch_callbacks_def Let_def)
  moreover have "k = 0 \<Longrightarrow> terminal_output ?q bid (new_entry pb) b = terminal_callbacks ?q bid pb ?ys"
    using terminal_output_expected[OF b(2) saved_at(2)[OF assms(2)]] assms(3) by simp
  ultimately show "callbacks_of bid w' = expected_callbacks ?q bid pb ?ys" using w' w1 fire by simp
qed

lemma Dispatch_saved:
  assumes "admitBatch code (pb_jobs pb) = Inr jobs" "bindBatchJobs code 0 (length (pb_jobs pb)) jobs bid (pb_queue pb) = Inr bound"
    and "ctxErr ctx = None" "pb_jobs pb \<noteq> []"
    and "w1 = (set_batch bid (new_batch pb) w)\<lparr>bw_callbacks := (bw_callbacks w)(bid \<mapsto> new_entry pb), bw_repository := List.insert bid (bw_repository w)\<rparr>"
  shows "Dispatch code push ctx now bid pb (d, w) =
      (case push_jobs push ctx bound 0 (d, w1) of
         ((pushed, Some e), d, w) \<Rightarrow>
           ((Some bid, Some (ErrPushBatchJob (Suc pushed) (length (pb_jobs pb)) e)), d, settle_unpushed now bid (length (pb_jobs pb) - pushed) w)
       | ((pushed, None), d, w) \<Rightarrow> ((Some bid, None), d, batch_emit [BatchCreated bid (length (pb_jobs pb)) (pb_queue pb)] w))"
    and "callbacks_of bid w = [] \<Longrightarrow> saved_batch bid pb w1" "bw_callbackQueue w1 = bw_callbackQueue w"
  using assms by (simp_all add: Dispatch_def Let_def repo_Save_def saved_batch_def)

text \<open>C40: when a push of the dispatch of a batch fails, the slots of the jobs that were not pushed are settled as
  skipped and the batch is cancelled. If no job was pushed the batch is finished, and since nothing has failed the
  then callbacks are started, which are meant for a batch all of whose jobs completed: no job has even been
  queued.\<close>

theorem batch_dispatch_failure:
  assumes "admitBatch code (pb_jobs pb) = Inr jobs" "bindBatchJobs code 0 n jobs bid (pb_queue pb) = Inr bound"
    and "ctxErr ctx = None" "batch_size_ok pb" "callbacks_of bid w = []" "n = length (pb_jobs pb)" "k < n"
    and "\<And>w. push_jobs push ctx bound 0 (d, w) = ((k, Some e), d', w)"
  shows "\<exists>w'. Dispatch code push ctx now bid pb (d, w) = ((Some bid, Some (ErrPushBatchJob (k + 1) n e)), d', w') \<and>
    (\<exists>b. bw_objects w' bid = Some b \<and> b_cancelled b \<and> b_pendingJobs b = int k \<and> b_completedJobs b = 0 \<and> b_failedJobs b = 0 \<and>
      b_finished b = (k = 0)) \<and>
    callbacks_of bid w' = (if k = 0 then terminal_callbacks (bw_callbackQueue w) bid pb (replicate n Skipped) else []) \<and>
    (k = 0 \<and> pb_then pb \<longrightarrow> RunThen bid \<in> set (bw_out w'))"
proof -
  let ?w1 = "(set_batch bid (new_batch pb) w)\<lparr>bw_callbacks := (bw_callbacks w)(bid \<mapsto> new_entry pb), bw_repository := List.insert bid (bw_repository w)\<rparr>"
  let ?w' = "settle_unpushed now bid (n - k) ?w1"
  have jobs: "pb_jobs pb \<noteq> []" using assms(4) by (simp add: batch_size_ok_def)
  note saved = Dispatch_saved[OF assms(1) assms(2)[unfolded assms(6)] assms(3) jobs refl]
  have d: "Dispatch code push ctx now bid pb (d, w) = ((Some bid, Some (ErrPushBatchJob (k + 1) n e)), d', ?w')"
    unfolding saved(1) assms(8) by (simp add: assms(6))
  have none: "failures_of (replicate m Skipped) = []" "count_list (replicate m Skipped) Succeeded = 0" for m by (induction m) auto
  note settled = settle_unpushed_callbacks[OF saved(2)[OF assms(5)] assms(4) assms(7)[unfolded assms(6)] refl, of now, folded assms(6)]
  have cs: "callbacks_of bid ?w' = (if k = 0 then terminal_callbacks (bw_callbackQueue w) bid pb (replicate n Skipped) else [])"
    using settled(2) assms(6,7) none by (auto simp: expected_callbacks_def catch_callbacks_def Let_def)
  have "RunThen bid \<in> set (bw_out ?w')" if "k = 0 \<and> pb_then pb"
  proof -
    have "RunThen bid \<in> set (callbacks_of bid ?w')" using cs that none by (simp add: terminal_callbacks_def Let_def)
    then show ?thesis by (simp add: callbacks_of_def)
  qed
  moreover have "\<exists>b. bw_objects ?w' bid = Some b \<and> b_cancelled b \<and> b_pendingJobs b = int k \<and> b_completedJobs b = 0 \<and>
      b_failedJobs b = 0 \<and> b_finished b = (k = 0)"
    using settled(1) assms(6,7) none by (auto simp: batch_at_def)
  ultimately show ?thesis using d cs by blast
qed

subsection \<open>Examples\<close>

definition demo_pending :: "nat PendingBatch" where
  "demo_pending = (NewBatch [Some 1, Some 2])\<lparr>pb_then := True, pb_catch := True\<rparr>"

definition demo_world :: batch_world where
  "demo_world = \<lparr>bw_objects = [''b'' \<mapsto> new_batch demo_pending], bw_repository = [''b''],
     bw_callbacks = [''b'' \<mapsto> new_entry demo_pending], bw_callbackQueue = False, bw_out = []\<rparr>"

definition demo_ops :: "batch_op list" where
  "demo_ops = [OpSettle background 1 ''b'' Succeeded, OpSettle background 2 ''b'' Succeeded, OpSettle background 3 ''b'' (Failed ''late'')]"

lemma demo_known: "bid \<in> set (bw_repository w) \<Longrightarrow> bid \<in> set (bw_repository (record_settled ctx now i x w))"
  by (auto simp: record_settled_def recordSuccess_def recordFailure_def recordSkip_def IncrementSuccess_def IncrementFailure_def
      DecrementPending_def settle_found_def Let_def CancelCtx_output dispatchBatchCallbackJob_emit
      split: settled.splits sum.splits option.splits prod.splits)


theorem batch_dispatch_failure_witness:
  "\<exists>w'. Dispatch \<lparr>bc_Batchable = \<lambda>_. True, bc_SetBatchID = \<lambda>_ j. Some j, bc_OnQueue = \<lambda>_. NoOnQueue\<rparr>
      (\<lambda>ctx j name (d, w). (Some ErrNilJob, d, w)) background 5 ''b'' demo_pending ((), demo_world\<lparr>bw_objects := Map.empty, bw_repository := [],
        bw_callbacks := Map.empty\<rparr>) = ((Some ''b'', Some (ErrPushBatchJob 1 2 ErrNilJob)), (), w') \<and> RunThen ''b'' \<in> set (bw_out w')"
proof -
  let ?code = "\<lparr>bc_Batchable = \<lambda>_ :: nat. True, bc_SetBatchID = \<lambda>_ j. Some j, bc_OnQueue = \<lambda>_. NoOnQueue\<rparr>"
  let ?push = "\<lambda>ctx j name (d, w). (Some ErrNilJob, d, w)" and ?w = "demo_world\<lparr>bw_objects := Map.empty, bw_repository := [], bw_callbacks := Map.empty\<rparr>"
  let ?bound = "[(1, ''default''), (2, ''default'')]"
  have admit: "admitBatch ?code (pb_jobs demo_pending) = Inr [1, 2]" by (simp add: admitBatch_def demo_pending_def NewBatch_def)
  have bind: "bindBatchJobs ?code 0 2 [1, 2] ''b'' (pb_queue demo_pending) = Inr ?bound"
    by (simp add: bindBatchJob_def batchJobQueue_def demo_pending_def NewBatch_def)
  have ok: "batch_size_ok demo_pending" "callbacks_of ''b'' ?w = []" "2 = length (pb_jobs demo_pending)"
    and then_set: "pb_then demo_pending" and size: "(0 :: nat) < 2"
    by (simp_all add: batch_size_ok_def demo_pending_def NewBatch_def callbacks_of_def demo_world_def)
  have push: "push_jobs ?push background ?bound 0 ((), w) = ((0, Some ErrNilJob), (), w)" for w by simp
  from batch_dispatch_failure[OF admit bind background_live ok size push, of 5] then_set
  show ?thesis by (metis add_0)
qed

subsection \<open>Refusals, readbacks and the reaper\<close>

lemma Dispatch_refused:
  assumes "Dispatch code push ctx now bid pb (d, w) = ((None, err), d', w')"
  shows "err \<noteq> None" "d' = d" "bw_repository w' = bw_repository w" "bw_out w' = bw_out w"
  using assms
  by (auto simp: Dispatch_def Let_def repo_Save_def set_batch_def split: if_splits sum.splits option.splits prod.splits)

text \<open>A readback moves every counter towards the more recent of the two, so an older one changes none.\<close>

lemma copyCountersFrom_newest:
  "b_pendingJobs (copyCountersFrom src b) = min (b_pendingJobs src) (b_pendingJobs b)"
  "b_completedJobs (copyCountersFrom src b) = max (b_completedJobs src) (b_completedJobs b)"
  "b_failedJobs (copyCountersFrom src b) = max (b_failedJobs src) (b_failedJobs b)"
  "b_finished (copyCountersFrom src b) = (b_finished src \<or> b_finished b)"
  "b_cancelled (copyCountersFrom src b) = (b_cancelled src \<or> b_cancelled b)"
  by (simp_all add: copyCountersFrom_def Let_def)

lemma undispatched_loop_limit: "length out \<le> limit \<Longrightarrow> length (undispatched_loop w limit ids out) \<le> limit"
  by (induction w limit ids out rule: undispatched_loop.induct) (auto split: option.splits)

lemma FindUndispatchedCallbacks_limit:
  assumes "FindUndispatchedCallbacks ctx limit w = Inr rows" "0 < limit"
  shows "int (length rows) \<le> limit"
proof -
  have "length rows \<le> nat limit"
    using assms undispatched_loop_limit[of "[]" "nat limit" w "bw_repository w"]
    by (auto simp: FindUndispatchedCallbacks_def split: option.splits)
  then show ?thesis using assms(2) by simp
qed

end
