(* ===== verification/Router_Signed.thy ===== *)
theory Router_Signed
  imports Router Go_Strconv Go_Time
begin

text \<open>
  Signed URLs, \<open>src/router/signed.go\<close>, with the parts of \<open>net/url\<close> they use: escaping and
  unescaping of query components, parsing and encoding of queries, and the path and query of a request
  target. The MAC is a parameter, a function of the key and the message, and so is the derivation of the
  key, a package outside the sources. A query is the association list of its keys with their values.
\<close>

subsection \<open>Queries\<close>

type_synonym url_values = "(string, string list) gomap"

definition query_escape_byte :: "char \<Rightarrow> string" where
  "query_escape_byte c =
     (if is_alnum c \<or> c \<in> set ''-_.~'' then [c]
      else if c = CHR '' '' then ''+''
      else [CHR ''%'', upperhex (byte_of c div 16), upperhex (byte_of c mod 16)])"

definition QueryEscape :: "string \<Rightarrow> string" where
  "QueryEscape s = concat (map query_escape_byte s)"

fun QueryUnescape :: "string \<Rightarrow> string option" where
  "QueryUnescape [] = Some []"
| "QueryUnescape (c # s) =
     (if c = CHR ''%'' then
        (case s of
           a # b # t \<Rightarrow>
             (case (unhex a, unhex b) of
                (Some hi, Some lo) \<Rightarrow> map_option (\<lambda>r. char_at (16 * hi + lo) # r) (QueryUnescape t)
              | _ \<Rightarrow> None)
         | _ \<Rightarrow> None)
      else map_option (\<lambda>r. (if c = CHR ''+'' then CHR '' '' else c) # r) (QueryUnescape s))"

definition cut_byte :: "char \<Rightarrow> string \<Rightarrow> string \<times> string" where
  "cut_byte c s = (case index_byte s c of None \<Rightarrow> (s, []) | Some i \<Rightarrow> (take i s, drop (i + 1) s))"

definition values_add :: "string \<Rightarrow> string \<Rightarrow> url_values \<Rightarrow> url_values" where
  "values_add k v q = AList.update k ((case map_of q k of None \<Rightarrow> [] | Some vs \<Rightarrow> vs) @ [v]) q"

definition parse_pair :: "string \<Rightarrow> url_values \<Rightarrow> url_values" where
  "parse_pair piece q =
     (if CHR '';'' \<in> set piece \<or> piece = [] then q
      else case cut_byte (CHR ''='') piece of
             (k, v) \<Rightarrow>
               (case (QueryUnescape k, QueryUnescape v) of
                  (Some k, Some v) \<Rightarrow> values_add k v q
                | _ \<Rightarrow> q))"

definition ParseQuery :: "string \<Rightarrow> url_values" where
  "ParseQuery s = fold parse_pair (split_byte (CHR ''&'') s) []"

definition values_Get :: "url_values \<Rightarrow> string \<Rightarrow> string" where
  "values_Get q k = (case map_of q k of Some (v # _) \<Rightarrow> v | _ \<Rightarrow> [])"

definition values_Set :: "string \<Rightarrow> string \<Rightarrow> url_values \<Rightarrow> url_values" where
  "values_Set k v q = AList.update k [v] q"

definition query_pair :: "string \<Rightarrow> string \<Rightarrow> string" where
  "query_pair k v = QueryEscape k @ ''='' @ QueryEscape v"

definition sorted_keys :: "url_values \<Rightarrow> string list" where
  "sorted_keys q = sort (map fst q)"

definition values_at :: "url_values \<Rightarrow> string \<Rightarrow> string list" where
  "values_at q k = (case map_of q k of None \<Rightarrow> [] | Some vs \<Rightarrow> vs)"

text \<open>\<open>url.Values.Encode\<close> writes a separator before every pair but the first one written.\<close>

definition query_pairs :: "url_values \<Rightarrow> (string \<times> string) list" where
  "query_pairs q = concat (map (\<lambda>k. map (Pair k) (values_at q k)) (sorted_keys q))"

definition values_Encode :: "url_values \<Rightarrow> string" where
  "values_Encode q = join_byte (CHR ''&'') (map (\<lambda>(k, v). query_pair k v) (query_pairs q))"

text \<open>The code's own encoder writes it before every pair whose key or value is not the first.\<close>

fun canonical_values :: "nat \<Rightarrow> nat \<Rightarrow> string \<Rightarrow> string list \<Rightarrow> string" where
  "canonical_values i j k [] = []"
| "canonical_values i j k (v # vs) =
     (if i > 0 \<or> j > 0 then ''&'' else []) @ query_pair k v @ canonical_values i (j + 1) k vs"

fun canonical_keys :: "url_values \<Rightarrow> nat \<Rightarrow> string list \<Rightarrow> string" where
  "canonical_keys q i [] = []"
| "canonical_keys q i (k # ks) = canonical_values i 0 k (values_at q k) @ canonical_keys q (i + 1) ks"

definition canonicalQuery :: "url_values \<Rightarrow> string" where
  "canonicalQuery q = (if length q = 0 then [] else canonical_keys q 0 (sorted_keys q))"

subsection \<open>Signing\<close>

datatype signed_error =
  ErrSignatureMissing | ErrSignatureInvalid | ErrSignatureExpired | ErrSignedURLKeyMissing | ErrReservedParameter | ErrRoute route_error

type_synonym url_mac = "string \<Rightarrow> string \<Rightarrow> string"

definition signedURLExpiresParam :: string where
  "signedURLExpiresParam = ''expires''"

definition signedURLSignatureParam :: string where
  "signedURLSignatureParam = ''signature''"

definition DeriveSignedURLKey :: "(string \<Rightarrow> string \<Rightarrow> nat \<Rightarrow> string) \<Rightarrow> string \<Rightarrow> signed_error + string" where
  "DeriveSignedURLKey hkdf appKey =
     (if length appKey = 0 then Inl ErrSignedURLKeyMissing else Inr (hkdf appKey ''velocity-signed-url-v1'' 32))"

definition signed_message :: "string \<Rightarrow> url_values \<Rightarrow> string" where
  "signed_message path q = path @ (if length q > 0 then ''?'' @ canonicalQuery q else [])"

definition computeSignedURLSignature :: "url_mac \<Rightarrow> string \<Rightarrow> string \<Rightarrow> url_values \<Rightarrow> string" where
  "computeSignedURLSignature mac key path q = EncodeToString (mac key (signed_message path q))"

definition signPath :: "url_mac \<Rightarrow> string \<Rightarrow> string \<Rightarrow> url_values \<Rightarrow> instant option \<Rightarrow> signed_error + string" where
  "signPath mac key path extraQuery expiresAt =
     (if length key = 0 then Inl ErrSignedURLKeyMissing
      else if \<exists>k \<in> set (map fst extraQuery). k = signedURLSignatureParam \<or> k = signedURLExpiresParam then Inl ErrReservedParameter
      else
        let q = extraQuery;
            q = (case expiresAt of None \<Rightarrow> q | Some t \<Rightarrow> values_Set signedURLExpiresParam (FormatInt (t div second)) q);
            q = values_Set signedURLSignatureParam (computeSignedURLSignature mac key path q) q
        in Inr (if length q = 0 then path else path @ ''?'' @ values_Encode q))"

definition SignedURL ::
  "'x Router \<Rightarrow> url_mac \<Rightarrow> string \<Rightarrow> string \<Rightarrow> (string \<rightharpoonup> string) \<Rightarrow> url_values \<Rightarrow> instant option \<Rightarrow> signed_error + string" where
  "SignedURL r mac key name params extraQuery expiresAt =
     (case RouteURL r name params of
        Inl e \<Rightarrow> Inl (ErrRoute e)
      | Inr path \<Rightarrow> signPath mac key path extraQuery expiresAt)"

definition TemporarySignedURL ::
  "'x Router \<Rightarrow> url_mac \<Rightarrow> string \<Rightarrow> instant \<Rightarrow> string \<Rightarrow> (string \<rightharpoonup> string) \<Rightarrow> url_values \<Rightarrow> duration \<Rightarrow> signed_error + string" where
  "TemporarySignedURL r mac key now name params extraQuery ttl = SignedURL r mac key name params extraQuery (Some (now + ttl))"

subsection \<open>Validation\<close>

text \<open>The target of a request: its path is unescaped, its query is kept as it is.\<close>

record request_url =
  ru_Path :: string
  ru_RawQuery :: string

definition parse_target :: "string \<Rightarrow> request_url option" where
  "parse_target target =
     (case cut_byte (CHR ''?'') target of
        (path, query) \<Rightarrow> map_option (\<lambda>p. \<lparr>ru_Path = p, ru_RawQuery = query\<rparr>) (PathUnescape path))"

definition ValidateSignature :: "url_mac \<Rightarrow> string \<Rightarrow> instant \<Rightarrow> request_url option \<Rightarrow> signed_error option" where
  "ValidateSignature mac key now req =
     (if length key = 0 then Some ErrSignedURLKeyMissing
      else case req of
             None \<Rightarrow> Some ErrSignatureInvalid
           | Some req \<Rightarrow>
               let q = ParseQuery (ru_RawQuery req);
                   supplied = values_Get q signedURLSignatureParam in
               if supplied = [] then Some ErrSignatureMissing
               else
                 let q = AList.delete signedURLSignatureParam q;
                     expires = values_Get q signedURLExpiresParam;
                     rejected = (if expires = [] then None
                       else case ParseInt expires of
                              None \<Rightarrow> Some ErrSignatureInvalid
                            | Some expUnix \<Rightarrow> if now div second \<ge> expUnix then Some ErrSignatureExpired else None)
                 in case rejected of
                      Some e \<Rightarrow> Some e
                    | None \<Rightarrow>
                        if computeSignedURLSignature mac key (ru_Path req) q \<noteq> supplied then Some ErrSignatureInvalid else None)"

definition HasValidSignature :: "url_mac \<Rightarrow> string \<Rightarrow> instant \<Rightarrow> request_url option \<Rightarrow> bool" where
  "HasValidSignature mac key now req \<longleftrightarrow> ValidateSignature mac key now req = None"

definition SignedMiddleware :: "url_mac \<Rightarrow> string \<Rightarrow> instant \<Rightarrow> ('x Context_scheme \<Rightarrow> request_url option) \<Rightarrow> 'x MiddlewareFunc" where
  "SignedMiddleware mac key now url next = (\<lambda>c.
     if length key = 0 then (c, Some (HTTPError 403 ''Forbidden'' []))
     else case ValidateSignature mac key now (url c) of
            Some _ \<Rightarrow> (c, Some (HTTPError 403 ''Forbidden'' []))
          | None \<Rightarrow> next c)"

end
