(* ===== verification/Signed_Props.thy ===== *)
theory Signed_Props
  imports Router_Signed
begin

text \<open>
  Signed URLs: a URL that is signed is accepted until it expires, if its path needs no unescaping; what is
  accepted carries the MAC of its path and query and has not expired. The message that is signed does not
  separate the path from the query, so the signature of a URL also fits a request without query.
\<close>

subsection \<open>Query components\<close>

lemma QueryUnescape_byte: "QueryUnescape (query_escape_byte c @ s) = map_option (Cons c) (QueryUnescape s)"
proof -
  have "byte_of c div 16 < 16" "byte_of c mod 16 < 16" using byte_of_less[of c] by auto
  then have "unhex (upperhex (byte_of c div 16)) = Some (byte_of c div 16)" "unhex (upperhex (byte_of c mod 16)) = Some (byte_of c mod 16)"
    by simp_all
  moreover have "char_at (16 * (byte_of c div 16) + byte_of c mod 16) = c" by simp
  moreover have "is_alnum c \<or> c \<in> set ''-_.~'' \<Longrightarrow> c \<noteq> CHR ''%'' \<and> c \<noteq> CHR ''+''" by (auto simp: is_alnum_def byte_of_def)
  ultimately show ?thesis by (auto simp: query_escape_byte_def)
qed

lemma QueryUnescape_QueryEscape [simp]: "QueryUnescape (QueryEscape s) = Some s"
  by (induction s) (simp_all add: QueryEscape_def QueryUnescape_byte)

lemma QueryEscape_free:
  assumes "c \<in> set ''&=;?''"
  shows "c \<notin> set (QueryEscape s)"
proof -
  have hex: "upperhex (byte_of d div 16) \<noteq> c \<and> upperhex (byte_of d mod 16) \<noteq> c" for d
  proof -
    have "byte_of d div 16 < 16" "byte_of d mod 16 < 16" using byte_of_less[of d] by auto
    then have "unhex (upperhex (byte_of d div 16)) \<noteq> None" "unhex (upperhex (byte_of d mod 16)) \<noteq> None" by simp_all
    moreover have "unhex c = None" using assms by (auto simp: unhex_def byte_of_def)
    ultimately show ?thesis by metis
  qed
  have "c \<notin> set (query_escape_byte d)" for d
    using assms hex[of d] by (auto simp: query_escape_byte_def is_alnum_def byte_of_def)
  then show ?thesis by (auto simp: QueryEscape_def)
qed

lemma cut_byte_at: "c \<notin> set a \<Longrightarrow> cut_byte c (a @ c # b) = (a, b)"
  by (simp add: cut_byte_def index_byte_append)

lemma cut_byte_free: "c \<notin> set a \<Longrightarrow> cut_byte c a = (a, [])"
  by (simp add: cut_byte_def index_byte_None_iff split: option.splits) (metis index_byte_None_iff option.distinct(1))

lemma parse_pair_query_pair: "parse_pair (query_pair k v) q = values_add k v q"
  using QueryEscape_free[of _ k] QueryEscape_free[of _ v] cut_byte_at[of "CHR ''=''" "QueryEscape k" "QueryEscape v"]
  by (auto simp: parse_pair_def query_pair_def)

subsection \<open>Parsing what was encoded\<close>

definition add_pair :: "string \<times> string \<Rightarrow> url_values \<Rightarrow> url_values" where
  "add_pair = (\<lambda>(k, v). values_add k v)"

lemma ParseQuery_join:
  assumes "ps \<noteq> []"
  shows "ParseQuery (join_byte (CHR ''&'') (map (\<lambda>(k, v). query_pair k v) ps)) = fold add_pair ps []"
proof -
  have "\<forall>w \<in> set (map (\<lambda>(k, v). query_pair k v) ps). CHR ''&'' \<notin> set w"
    using QueryEscape_free[of "CHR ''&''"] by (auto simp: query_pair_def)
  then have "split_byte (CHR ''&'') (join_byte (CHR ''&'') (map (\<lambda>(k, v). query_pair k v) ps)) = map (\<lambda>(k, v). query_pair k v) ps"
    using assms by (intro split_join) auto
  moreover have "fold parse_pair (map (\<lambda>(k, v). query_pair k v) ps) q = fold add_pair ps q" for q
    by (induction ps arbitrary: q) (auto simp: parse_pair_query_pair add_pair_def)
  ultimately show ?thesis by (simp add: ParseQuery_def)
qed

lemma ParseQuery_Encode: "ParseQuery (values_Encode q) = fold add_pair (query_pairs q) []"
  using ParseQuery_join[of "query_pairs q"]
  by (cases "query_pairs q = []") (simp_all add: values_Encode_def ParseQuery_def parse_pair_def)

lemma map_of_add_pairs:
  "map_of (fold add_pair ps q) k =
     (let vs = values_at q k @ map snd (filter (\<lambda>(k', _). k' = k) ps)
      in if map_of q k = None \<and> vs = [] then None else Some vs)"
proof (induction ps arbitrary: q)
  case (Cons p ps)
  then show ?case by (cases p) (auto simp: Let_def values_at_def add_pair_def values_add_def split: option.splits)
qed (auto simp: Let_def values_at_def split: option.splits)

lemma keys_distinct_add_pairs: "keys_distinct q \<Longrightarrow> keys_distinct (fold add_pair ps q)"
  by (induction ps arbitrary: q) (auto simp: add_pair_def values_add_def keys_distinct_update)

lemma filter_query_pairs:
  assumes "keys_distinct q"
  shows "map snd (filter (\<lambda>(k', _). k' = k) (query_pairs q)) = values_at q k"
proof -
  have "map snd (filter (\<lambda>(k', _). k' = k) (concat (map (\<lambda>k. map (Pair k) (values_at q k)) ks))) = (if k \<in> set ks then values_at q k else [])"
    if "distinct ks" for ks
    using that
  proof (induction ks)
    case (Cons a ks)
    then show ?case by (cases "a = k") (auto simp: filter_map o_def)
  qed simp
  moreover have "distinct (sorted_keys q)" "set (sorted_keys q) = fst ` set q"
    using assms by (simp_all add: sorted_keys_def keys_distinct_def)
  moreover have "k \<notin> fst ` set q \<Longrightarrow> values_at q k = []" using map_of_eq_None_iff[of q k] by (simp add: values_at_def)
  ultimately show ?thesis by (auto simp: query_pairs_def)
qed

definition values_ok :: "url_values \<Rightarrow> bool" where
  "values_ok q \<longleftrightarrow> keys_distinct q \<and> (\<forall>vs \<in> snd ` set q. vs \<noteq> [])"

definition same_values :: "url_values \<Rightarrow> url_values \<Rightarrow> bool" where
  "same_values q q' \<longleftrightarrow> keys_distinct q \<and> keys_distinct q' \<and> map_of q = map_of q'"

lemma ParseQuery_Encode_same:
  assumes "values_ok q"
  shows "same_values (ParseQuery (values_Encode q)) q"
proof -
  have distinct: "keys_distinct q" using assms by (simp add: values_ok_def)
  have nonempty: "map_of q k = Some vs \<Longrightarrow> vs \<noteq> []" for k vs
    using assms map_of_SomeD[of q k vs] by (force simp: values_ok_def)
  have "map_of (ParseQuery (values_Encode q)) k = map_of q k" for k
    unfolding ParseQuery_Encode map_of_add_pairs filter_query_pairs[OF distinct]
    using nonempty[of k] by (auto simp: Let_def values_at_def split: option.splits)
  then show ?thesis
    using distinct keys_distinct_add_pairs[of "[]"] by (simp add: same_values_def ParseQuery_Encode fun_eq_iff)
qed

subsection \<open>The message depends on the values only\<close>

lemma same_values_keys:
  assumes "same_values q q'"
  shows "sorted_keys q = sorted_keys q'" "values_at q = values_at q'" "length q = length q'"
proof -
  have d: "distinct (map fst q)" "distinct (map fst q')" using assms by (auto simp: same_values_def keys_distinct_def)
  have s: "set (map fst q) = set (map fst q')"
    using assms dom_map_of_conv_image_fst[of q] dom_map_of_conv_image_fst[of q'] by (simp add: same_values_def)
  show "sorted_keys q = sorted_keys q'"
    unfolding sorted_keys_def using d s by (intro sorted_distinct_set_unique) auto
  show "values_at q = values_at q'" using assms by (simp add: same_values_def values_at_def fun_eq_iff)
  show "length q = length q'" using d s by (metis distinct_card length_map)
qed

lemma same_values_message: "same_values q q' \<Longrightarrow> signed_message path q = signed_message path q'"
proof -
  assume same: "same_values q q'"
  have "canonical_keys q i ks = canonical_keys q' i ks" for i ks
    by (induction ks arbitrary: i) (simp_all add: same_values_keys(2)[OF same])
  then show ?thesis using same_values_keys[OF same] by (simp add: signed_message_def canonicalQuery_def)
qed


subsection \<open>Signing and validating\<close>

definition query_signed :: "url_values \<Rightarrow> instant option \<Rightarrow> url_values" where
  "query_signed extraQuery expiresAt =
     (case expiresAt of None \<Rightarrow> extraQuery | Some t \<Rightarrow> values_Set signedURLExpiresParam (FormatInt (t div second)) extraQuery)"

lemmas signed_params = signedURLExpiresParam_def signedURLSignatureParam_def

lemma signPath_Inr:
  assumes "signPath mac key path extraQuery expiresAt = Inr url" "q = query_signed extraQuery expiresAt"
  shows "key \<noteq> []" "url = path @ ''?'' @ values_Encode (values_Set signedURLSignatureParam (computeSignedURLSignature mac key path q) q)"
    "signedURLSignatureParam \<notin> fst ` set extraQuery" "signedURLExpiresParam \<notin> fst ` set extraQuery"
proof -
  show "key \<noteq> []" "signedURLSignatureParam \<notin> fst ` set extraQuery" "signedURLExpiresParam \<notin> fst ` set extraQuery"
    using assms(1) by (auto simp: signPath_def split: if_splits)
  have "values_Set k v q' \<noteq> []" for k v q' by (cases q') (auto simp: values_Set_def)
  then show "url = path @ ''?'' @ values_Encode (values_Set signedURLSignatureParam (computeSignedURLSignature mac key path q) q)"
    using assms by (auto simp: signPath_def query_signed_def Let_def split: if_splits option.splits)
qed

lemma values_ok_Set: "values_ok q \<Longrightarrow> values_ok (values_Set k v q)"
proof -
  assume ok: "values_ok q"
  have "snd ` set (AList.update k [v] q) \<subseteq> insert [v] (snd ` set q)" by (induction q) auto
  then show ?thesis using ok unfolding values_ok_def values_Set_def by (auto simp: keys_distinct_update dest!: subsetD)
qed

lemma values_ok_query_signed: "values_ok extraQuery \<Longrightarrow> values_ok (query_signed extraQuery expiresAt)"
  by (auto simp: query_signed_def values_ok_Set split: option.splits)

lemma map_of_query_signed:
  "map_of (query_signed extraQuery expiresAt) = (case expiresAt of None \<Rightarrow> map_of extraQuery
     | Some t \<Rightarrow> (map_of extraQuery)(signedURLExpiresParam \<mapsto> [FormatInt (t div second)]))"
  by (auto simp: query_signed_def values_Set_def fun_eq_iff split: option.splits)

text \<open>What a request with the signed query is parsed to, without its signature.\<close>

lemma parsed_query:
  assumes "values_ok q" "signedURLSignatureParam \<notin> fst ` set q" "p = ParseQuery (values_Encode (values_Set signedURLSignatureParam sig q))"
  shows "values_Get p signedURLSignatureParam = sig" "same_values (AList.delete signedURLSignatureParam p) q"
proof -
  have same: "same_values p (values_Set signedURLSignatureParam sig q)" using ParseQuery_Encode_same[OF values_ok_Set[OF assms(1)]] assms(3) by simp
  then have p: "map_of p = (map_of q)(signedURLSignatureParam \<mapsto> [sig])" "keys_distinct p"
    by (auto simp: same_values_def values_Set_def fun_eq_iff)
  then show "values_Get p signedURLSignatureParam = sig" by (simp add: values_Get_def)
  have none: "map_of q signedURLSignatureParam = None" using assms(2) by (simp add: map_of_eq_None_iff)
  have "map_of (AList.delete signedURLSignatureParam p) = map_of q"
    using p(1) none by (auto simp: fun_eq_iff map_of_delete)
  then show "same_values (AList.delete signedURLSignatureParam p) q"
    using p(2) assms(1) by (simp add: same_values_def values_ok_def keys_distinct_delete)
qed


lemma EncodeToString_Nil [simp]: "EncodeToString a = [] \<longleftrightarrow> a = []"
  using length_EncodeToString[of a] by (metis length_0_conv mult_is_0 zero_neq_numeral)

lemma EncodeToString_inj: "EncodeToString a = EncodeToString b \<longleftrightarrow> a = b"
  by (metis DecodeString_EncodeToString option.inject)

text \<open>C16: a signed URL is accepted, when it is requested before its expiry, exactly if the MAC of the unescaped
  path with the query is that of the path that was signed with the query: a path that needs no unescaping is
  accepted, and for any other path the signature is refused, unless the MAC collides. The extra query has
  distinct keys, none of them reserved, each with at least one value; it can hold any bytes.\<close>

theorem signed_url_roundtrip:
  assumes "signPath mac key path extraQuery expiresAt = Inr url" "values_ok extraQuery" "\<And>m. mac key m \<noteq> []"
    and "CHR ''?'' \<notin> set path" "PathUnescape path = Some p" "q = query_signed extraQuery expiresAt"
    and "\<And>t. expiresAt = Some t \<Longrightarrow> now div second < t div second \<and> - (2 ^ 63) \<le> t div second \<and> t div second < 2 ^ 63"
  shows "ValidateSignature mac key now (parse_target url) =
    (if mac key (signed_message p q) = mac key (signed_message path q) then None else Some ErrSignatureInvalid)"
proof -
  note signed = signPath_Inr[OF assms(1,6)]
  let ?sig = "computeSignedURLSignature mac key path q"
  let ?raw = "values_Encode (values_Set signedURLSignatureParam ?sig q)"
  have target: "parse_target url = Some \<lparr>ru_Path = p, ru_RawQuery = ?raw\<rparr>"
    using assms(4,5) signed(2) cut_byte_at[of "CHR ''?''" path ?raw] by (simp add: parse_target_def)
  have ok: "values_ok q" using values_ok_query_signed[OF assms(2)] assms(6) by simp
  have "signedURLSignatureParam \<notin> fst ` set q"
    using signed(3) map_of_query_signed[of extraQuery expiresAt] assms(6) map_of_eq_None_iff[of q signedURLSignatureParam]
    by (auto simp: signed_params map_of_eq_None_iff split: option.splits)
  note parsed = parsed_query[OF ok this refl, of ?sig]
  have "?sig \<noteq> []" using assms(3) by (simp add: computeSignedURLSignature_def)
  moreover have "values_Get (AList.delete signedURLSignatureParam (ParseQuery ?raw)) signedURLExpiresParam =
      (case expiresAt of None \<Rightarrow> [] | Some t \<Rightarrow> FormatInt (t div second))"
    using parsed(2) signed(4) map_of_query_signed[of extraQuery expiresAt] assms(6)
    by (auto simp: values_Get_def same_values_def map_of_eq_None_iff[symmetric] split: option.splits)
  moreover have "ParseInt (FormatInt (t div second)) = Some (t div second)" "FormatInt (t div second) \<noteq> []" "\<not> t div second \<le> now div second"
    if "expiresAt = Some t" for t
    using assms(7)[OF that] ParseInt_FormatInt[of "t div second"] by auto
  moreover have "computeSignedURLSignature mac key p (AList.delete signedURLSignatureParam (ParseQuery ?raw)) =
      EncodeToString (mac key (signed_message p q))"
    using same_values_message[OF parsed(2)] by (simp add: computeSignedURLSignature_def)
  ultimately show ?thesis
    unfolding ValidateSignature_def target using signed(1) parsed(1)
    by (auto simp: Let_def EncodeToString_inj computeSignedURLSignature_def[of mac key path] split: option.splits)
qed


subsection \<open>The message does not separate path and query\<close>

lemma PathEscape_no_question: "CHR ''?'' \<notin> set (PathEscape s)"
proof -
  have "CHR ''?'' \<notin> set (escape_byte c)" for c
  proof -
    have "byte_of c div 16 < 16" "byte_of c mod 16 < 16" using byte_of_less[of c] by auto
    then have "unhex (upperhex (byte_of c div 16)) \<noteq> None" "unhex (upperhex (byte_of c mod 16)) \<noteq> None" by simp_all
    moreover have "unhex (CHR ''?'') = None" by (simp add: unhex_def byte_of_def)
    ultimately have "upperhex (byte_of c div 16) \<noteq> CHR ''?''" "upperhex (byte_of c mod 16) \<noteq> CHR ''?''" by metis+
    then show ?thesis by (auto simp: escape_byte_def should_escape_segment_def is_alnum_def byte_of_def)
  qed
  then show ?thesis by (auto simp: PathEscape_def)
qed

definition reshaped_target :: "string \<Rightarrow> string \<Rightarrow> string" where
  "reshaped_target message sig = ''/'' @ PathEscape (tl message) @ ''?'' @ values_Encode [(signedURLSignatureParam, [sig])]"

text \<open>C15: from every signed URL with an expiry, another target can be made without the key: the message that was
  signed, path and query, is written as an escaped path, and only the signature is left in the query. Its path
  differs from the one that was signed, and it is accepted at every time, also after the expiry, because the
  message of a path without query is the path itself.\<close>

theorem signature_reshaped:
  assumes "signPath mac key path extraQuery (Some t) = Inr url" "path \<noteq> []" "hd path = CHR ''/''" "mac key message \<noteq> []"
    and "message = signed_message path (query_signed extraQuery (Some t))" "target = reshaped_target message (EncodeToString (mac key message))"
  shows "(\<exists>req. parse_target target = Some req \<and> ru_Path req = message \<and> message \<noteq> path) \<and>
    ValidateSignature mac key now (parse_target target) = None"
proof -
  let ?sig = "EncodeToString (mac key message)"
  let ?raw = "values_Encode [(signedURLSignatureParam, [?sig])]"
  have "query_signed extraQuery (Some t) \<noteq> []" by (cases extraQuery) (auto simp: query_signed_def values_Set_def)
  then have differs: "message \<noteq> path" and hd: "hd message = CHR ''/''" "message \<noteq> []" using assms(2,3,5) by (auto simp: signed_message_def)
  have "CHR ''?'' \<notin> set (''/'' @ PathEscape (tl message))" using PathEscape_no_question by simp
  then have "cut_byte (CHR ''?'') target = (''/'' @ PathEscape (tl message), ?raw)"
    using cut_byte_at[of "CHR ''?''" "''/'' @ PathEscape (tl message)" ?raw] assms(6) by (simp add: reshaped_target_def)
  moreover have "PathUnescape (''/'' @ PathEscape (tl message)) = Some message" using hd by (cases message) auto
  ultimately have target: "parse_target target = Some \<lparr>ru_Path = message, ru_RawQuery = ?raw\<rparr>" by (simp add: parse_target_def)
  have one: "[(signedURLSignatureParam, [?sig])] = values_Set signedURLSignatureParam ?sig []" by (simp add: values_Set_def)
  have "values_ok []" by (simp add: values_ok_def)
  from parsed_query[OF this _ refl, of ?sig] have parsed: "values_Get (ParseQuery ?raw) signedURLSignatureParam = ?sig"
    "same_values (AList.delete signedURLSignatureParam (ParseQuery ?raw)) []"
    unfolding one by auto
  then have "AList.delete signedURLSignatureParam (ParseQuery ?raw) = []" using same_values_keys(3) by fastforce
  moreover have "?sig \<noteq> []" using assms(4) by simp
  ultimately have "ValidateSignature mac key now (parse_target target) = None"
    unfolding ValidateSignature_def target using signPath_Inr(1)[OF assms(1) refl] parsed(1)
    by (simp add: Let_def values_Get_def computeSignedURLSignature_def signed_message_def)
  then show ?thesis using target differs by simp
qed

subsection \<open>Examples and further facts\<close>

definition demo_mac :: url_mac where
  "demo_mac key m = key @ m"

lemma demo_signPath: "\<exists>url. signPath demo_mac ''k'' path [(''f'', [''a b''])] (Some (100 * second)) = Inr url"
  by (simp add: signPath_def signed_params Let_def)

text \<open>A link to a file whose name needs escaping is refused by the router that signed it.\<close>

theorem signed_url_roundtrip_witness:
  "(\<exists>url. signPath demo_mac ''k'' ''/dl'' [(''f'', [''a b''])] (Some (100 * second)) = Inr url \<and>
      ValidateSignature demo_mac ''k'' (7 * second) (parse_target url) = None) \<and>
   (\<exists>url. signPath demo_mac ''k'' ''/dl/a%20b'' [(''f'', [''a b''])] (Some (100 * second)) = Inr url \<and>
      ValidateSignature demo_mac ''k'' (7 * second) (parse_target url) = Some ErrSignatureInvalid)"
proof -
  have time: "(7 * second) div second = 7" "(100 * second) div second = 100" by (simp_all add: second_def)
  have ok: "values_ok [(''f'', [''a b''])]" by (simp add: values_ok_def)
  have mac: "demo_mac ''k'' m \<noteq> []" for m by (simp add: demo_mac_def)
  obtain url where url: "signPath demo_mac ''k'' ''/dl'' [(''f'', [''a b''])] (Some (100 * second)) = Inr url" using demo_signPath by blast
  obtain url' where url': "signPath demo_mac ''k'' ''/dl/a%20b'' [(''f'', [''a b''])] (Some (100 * second)) = Inr url'" using demo_signPath by blast
  have "PathUnescape ''/dl/a%20b'' = Some ''/dl/a b''" by code_simp
  moreover have "demo_mac ''k'' (signed_message ''/dl/a b'' q) \<noteq> demo_mac ''k'' (signed_message ''/dl/a%20b'' q)" for q
    by (simp add: demo_mac_def signed_message_def)
  ultimately show ?thesis
    using url url' signed_url_roundtrip[OF url ok mac, of "''/dl''" _ "7 * second"] signed_url_roundtrip[OF url' ok mac, of "''/dl/a b''" _ "7 * second"]
    by (simp add: time)
qed

theorem signature_reshaped_witness:
  "\<exists>target. parse_target target \<noteq> None \<and> ValidateSignature demo_mac ''k'' (1000 * second) (parse_target target) = None"
proof -
  obtain url where url: "signPath demo_mac ''k'' ''/dl'' [(''f'', [''a b''])] (Some (100 * second)) = Inr url" using demo_signPath by blast
  have "''/dl'' \<noteq> []" "hd ''/dl'' = CHR ''/''" "demo_mac ''k'' (signed_message ''/dl'' (query_signed [(''f'', [''a b''])] (Some (100 * second)))) \<noteq> []"
    by (simp_all add: demo_mac_def)
  from signature_reshaped[OF url this refl refl, of "1000 * second"] show ?thesis by (metis option.distinct(1))
qed

text \<open>What is accepted carries the MAC of its message and has not expired.\<close>

lemma ValidateSignature_sound:
  assumes "ValidateSignature mac key now (Some req) = None" "q = AList.delete signedURLSignatureParam (ParseQuery (ru_RawQuery req))"
  shows "key \<noteq> []" "values_Get (ParseQuery (ru_RawQuery req)) signedURLSignatureParam = EncodeToString (mac key (signed_message (ru_Path req) q))"
    "values_Get q signedURLExpiresParam \<noteq> [] \<Longrightarrow> \<exists>t. ParseInt (values_Get q signedURLExpiresParam) = Some t \<and> now div second < t"
  using assms by (auto simp: ValidateSignature_def computeSignedURLSignature_def Let_def split: if_splits option.splits)

lemma SignedMiddleware_guards:
  "SignedMiddleware mac key now url next c =
     (if HasValidSignature mac key now (url c) then next c else (c, Some (HTTPError 403 ''Forbidden'' [])))"
  by (auto simp: SignedMiddleware_def HasValidSignature_def ValidateSignature_def split: option.splits)

text \<open>The code's encoder and the one of the library differ when a key has no value, so a URL that is minted with
  such a key is refused.\<close>

lemma canonicalQuery_differs:
  "canonicalQuery [(''a'', []), (''b'', [''1''])] = ''&b=1''" "values_Encode [(''a'', []), (''b'', [''1''])] = ''b=1''"
  by code_simp+

lemma canonical_values_join:
  "canonical_values i j k vs = (if vs = [] then [] else (if i > 0 \<or> j > 0 then ''&'' else []) @ join_byte (CHR ''&'') (map (query_pair k) vs))"
proof (induction vs arbitrary: j)
  case (Cons v vs)
  then show ?case by (cases vs) auto
qed simp

lemma canonicalQuery_Encode:
  assumes "values_ok q"
  shows "canonicalQuery q = values_Encode q"
proof -
  have nonempty: "values_at q k \<noteq> []" if "k \<in> set (sorted_keys q)" for k
  proof -
    have "k \<in> fst ` set q" using that by (simp add: sorted_keys_def)
    then obtain vs where "map_of q k = Some vs" using map_of_eq_None_iff[of q k] by (cases "map_of q k") auto
    then show ?thesis using assms map_of_SomeD[of q k vs] by (force simp: values_ok_def values_at_def)
  qed
  have join: "join_byte c (xs @ ys) = (if xs = [] then join_byte c ys else if ys = [] then join_byte c xs else join_byte c xs @ c # join_byte c ys)"
    for c and xs ys :: "string list"
    by (induction xs rule: induct_list012) (auto simp: neq_Nil_conv)
  have "canonical_keys q i ks = (if ks = [] then [] else (if i > 0 then ''&'' else []) @
      join_byte (CHR ''&'') (map (\<lambda>(k, v). query_pair k v) (concat (map (\<lambda>k. map (Pair k) (values_at q k)) ks))))"
    if "\<forall>k \<in> set ks. values_at q k \<noteq> []" for i ks
    using that
  proof (induction ks arbitrary: i)
    case (Cons k ks)
    have pairs: "map (\<lambda>(k, v). query_pair k v) (map (Pair k) vs) = map (query_pair k) vs" for k vs by simp
    have "concat (map (\<lambda>k. map (Pair k) (values_at q k)) ks) \<noteq> []" if "ks \<noteq> []" using Cons.prems that by (cases ks) auto
    then show ?case using Cons by (auto simp: canonical_values_join join pairs simp del: map_map)
  qed simp
  then show ?thesis
    using nonempty by (cases q) (auto simp: canonicalQuery_def values_Encode_def query_pairs_def sorted_keys_def)
qed

end
