(* ===== verification/Spec2Isabelle.thy ===== *)
theory Spec2Isabelle
  imports Router_Props Cache_Props Cache_Lock Queue_Props Queue_Backoff Tx_Props Webhook_Props Cron_Props Sched_Props Storage_Props Login_Props Collections Batch_Props Signed_Props
begin

text \<open>
  Header.
\<close>

end
